(* ===== verification/Cita_Prelude.thy ===== *)
theory Cita_Prelude
  imports Main "HOL-Library.Word"
begin

text \<open>
  Shared vocabulary of the development: the Rust integer types as words, the result type with
  the ways a Rust call can end, the checked and overflowing
  arithmetic of the integer types, slices of byte vectors and the big-endian conversions of the
  256-bit integers. The lemmas declared here carry the component proofs.
\<close>

unbundle bit_operations_syntax

section \<open>Types\<close>

type_synonym u8 = "8 word"
type_synonym u32 = "32 word"
type_synonym u64 = "64 word"
type_synonym usize = "64 word"
type_synonym u128 = "128 word"
type_synonym u256 = "256 word"
type_synonym u512 = "512 word"

text \<open>A 256-bit hash and a 160-bit address are identified with the number their bytes spell in
  big-endian order; \<open>H256::from(U256)\<close> and \<open>Address::from(H256)\<close> are then casts.\<close>

type_synonym h256 = "256 word"
type_synonym h2048 = "2048 word"
type_synonym address = "160 word"
type_synonym bytes = "u8 list"

section \<open>Results\<close>

text \<open>A call returns \<open>Ok\<close> or \<open>Err\<close>, or the thread panics (a failed \<open>assert!\<close> or \<open>expect\<close>, a
  slice out of range, an arithmetic overflow of a plain operator), or it never returns:
  \<open>Diverge\<close> is the value of a loop whose fuel is spent.\<close>

datatype ('e, 'a) res = Ok 'a | Err 'e | Panic | Diverge

fun res_bind :: "('e, 'a) res \<Rightarrow> ('a \<Rightarrow> ('e, 'b) res) \<Rightarrow> ('e, 'b) res" where
  "res_bind (Ok a) f = f a"
| "res_bind (Err e) f = Err e"
| "res_bind Panic f = Panic"
| "res_bind Diverge f = Diverge"

fun res_map :: "('a \<Rightarrow> 'b) \<Rightarrow> ('e, 'a) res \<Rightarrow> ('e, 'b) res" where
  "res_map f (Ok a) = Ok (f a)"
| "res_map f (Err e) = Err e"
| "res_map f Panic = Panic"
| "res_map f Diverge = Diverge"

text \<open>\<open>Option::expect\<close> panics on \<open>None\<close>.\<close>

definition expect :: "'a option \<Rightarrow> ('e, 'a) res" where
  "expect x = (case x of None \<Rightarrow> Panic | Some a \<Rightarrow> Ok a)"

definition rust_assert :: "bool \<Rightarrow> ('e, unit) res" where
  "rust_assert b = (if b then Ok () else Panic)"

lemma res_bind_eq_Ok [simp]:
  "res_bind m f = Ok b \<longleftrightarrow> (\<exists>a. m = Ok a \<and> f a = Ok b)"
  by (cases m) auto

lemma res_bind_eq_Err:
  "res_bind m f = Err e \<longleftrightarrow> m = Err e \<or> (\<exists>a. m = Ok a \<and> f a = Err e)"
  by (cases m) auto

lemma res_bind_eq_Panic [simp]:
  "res_bind m f = Panic \<longleftrightarrow> m = Panic \<or> (\<exists>a. m = Ok a \<and> f a = Panic)"
  by (cases m) auto

lemma res_bind_eq_Diverge [simp]:
  "res_bind m f = Diverge \<longleftrightarrow> m = Diverge \<or> (\<exists>a. m = Ok a \<and> f a = Diverge)"
  by (cases m) auto

lemma res_bind_assoc: "res_bind (res_bind m f) g = res_bind m (\<lambda>x. res_bind (f x) g)"
  by (cases m) auto

lemma res_map_eq_Ok [simp]: "res_map f m = Ok b \<longleftrightarrow> (\<exists>a. m = Ok a \<and> b = f a)"
  by (cases m) auto

lemma res_map_eq_Panic [simp]: "res_map f m = Panic \<longleftrightarrow> m = Panic"
  by (cases m) auto

lemma expect_simps [simp]: "expect (Some a) = Ok a" "expect None = Panic"
  by (simp_all add: expect_def)

lemma rust_assert_eq_Ok [simp]: "rust_assert b = Ok u \<longleftrightarrow> b"
  by (cases u) (simp add: rust_assert_def)

lemma rust_assert_eq_Panic [simp]: "rust_assert b = Panic \<longleftrightarrow> \<not> b"
  by (simp add: rust_assert_def)

lemma rust_assert_True [simp]: "rust_assert True = Ok ()"
  by (simp add: rust_assert_def)

lemma res_cong [fundef_cong]:
  "m = m' \<Longrightarrow> (\<And>a. m' = Ok a \<Longrightarrow> f a = g a) \<Longrightarrow> res_bind m f = res_bind m' g"
  by (cases m') auto

text \<open>\<open>returns r\<close>: the call comes back, with a value or with an error.\<close>

definition returns :: "('e, 'a) res \<Rightarrow> bool" where
  "returns r \<longleftrightarrow> r \<noteq> Panic \<and> r \<noteq> Diverge"

lemma returns_simps [simp]:
  "returns (Ok a)" "returns (Err e)" "\<not> returns Panic" "\<not> returns Diverge"
  by (simp_all add: returns_def)

section \<open>Integer arithmetic\<close>

text \<open>\<open>overflowing_add\<close> and its kin return the wrapped value and the overflow flag; the plain
  operators panic where the mathematical result does not fit.\<close>

definition overflowing_add :: "'w::len word \<Rightarrow> 'w word \<Rightarrow> 'w word \<times> bool" where
  "overflowing_add a b = (a + b, 2 ^ LENGTH('w) \<le> unat a + unat b)"

definition overflowing_mul :: "'w::len word \<Rightarrow> 'w word \<Rightarrow> 'w word \<times> bool" where
  "overflowing_mul a b = (a * b, 2 ^ LENGTH('w) \<le> unat a * unat b)"

definition overflowing_sub :: "'w::len word \<Rightarrow> 'w word \<Rightarrow> 'w word \<times> bool" where
  "overflowing_sub a b = (a - b, a < b)"

definition plus_chk :: "'w::len word \<Rightarrow> 'w word \<Rightarrow> ('e, 'w word) res" where
  "plus_chk a b = (if unat a + unat b < 2 ^ LENGTH('w) then Ok (a + b) else Panic)"

definition minus_chk :: "'w::len word \<Rightarrow> 'w word \<Rightarrow> ('e, 'w word) res" where
  "minus_chk a b = (if b \<le> a then Ok (a - b) else Panic)"

definition times_chk :: "'w::len word \<Rightarrow> 'w word \<Rightarrow> ('e, 'w word) res" where
  "times_chk a b = (if unat a * unat b < 2 ^ LENGTH('w) then Ok (a * b) else Panic)"

definition low_u64 :: "u256 \<Rightarrow> u64" where
  "low_u64 x = ucast x"

lemma plus_chk_eq_Ok:
  fixes a b c :: "'w::len word"
  shows "plus_chk a b = Ok c \<longleftrightarrow> unat a + unat b < 2 ^ LENGTH('w) \<and> c = a + b"
  by (auto simp: plus_chk_def)

lemma plus_chk_unat:
  fixes a b c :: "'w::len word"
  assumes "plus_chk a b = Ok c"
  shows "unat c = unat a + unat b"
  using assms by (auto simp: plus_chk_eq_Ok unat_add_lem [symmetric])

lemma minus_chk_eq_Ok: "minus_chk a b = Ok c \<longleftrightarrow> b \<le> a \<and> c = a - b"
  by (auto simp: minus_chk_def)

lemma unat_minus_le:
  fixes a b :: "'w::len word"
  shows "b \<le> a \<Longrightarrow> unat (a - b) = unat a - unat b"
  by (simp add: unat_sub)

lemma minus_chk_unat: "minus_chk a b = Ok c \<Longrightarrow> unat c = unat a - unat b"
  by (auto simp: minus_chk_eq_Ok unat_minus_le)

lemma unat_add_small:
  fixes a b :: "'w::len word"
  shows "unat a + unat b < 2 ^ LENGTH('w) \<Longrightarrow> unat (a + b) = unat a + unat b"
  by (simp add: unat_add_lem [symmetric])

lemma unat_mult_small:
  fixes a b :: "'w::len word"
  shows "unat a * unat b < 2 ^ LENGTH('w) \<Longrightarrow> unat (a * b) = unat a * unat b"
  by (simp add: unat_mult_lem [symmetric])

lemma unat_drop_bit:
  fixes a :: "'w::len word"
  shows "unat (drop_bit n a) = unat a div 2 ^ n"
  by (metis drop_bit_eq_div unat_drop_bit_eq)

lemma unat_ucast_up:
  fixes x :: "'a::len word"
  assumes "LENGTH('a) \<le> LENGTH('b::len)"
  shows "unat (ucast x :: 'b word) = unat x"
  proof -
  have "unat x < 2 ^ LENGTH('b)"
    using unsigned_less [of x] assms by (meson less_le_trans one_le_numeral power_increasing)
  then show ?thesis by (simp add: unsigned_ucast_eq take_bit_nat_eq_self_iff)
qed

lemma unat_low_u64: "unat (low_u64 x) = unat x mod 2 ^ 64"
  by (simp add: low_u64_def unsigned_ucast_eq take_bit_eq_mod)

lemma low_u64_small: "unat x < 2 ^ 64 \<Longrightarrow> unat (low_u64 x) = unat x"
  by (simp add: unat_low_u64)

lemma unat_of_nat_small:
  "n < 2 ^ LENGTH('w::len) \<Longrightarrow> unat (of_nat n :: 'w word) = n"
  by (simp add: unat_of_nat)

section \<open>Slices\<close>

text \<open>\<open>&v[i..j]\<close> and \<open>v[i..i + ys.len()].copy_from_slice(ys)\<close>; both panic out of range.\<close>

definition slice_of :: "'a list \<Rightarrow> nat \<Rightarrow> nat \<Rightarrow> ('e, 'a list) res" where
  "slice_of xs i j = (if i \<le> j \<and> j \<le> length xs then Ok (take (j - i) (drop i xs)) else Panic)"

definition write_range :: "'a list \<Rightarrow> nat \<Rightarrow> 'a list \<Rightarrow> ('e, 'a list) res" where
  "write_range xs i ys =
     (if i + length ys \<le> length xs then Ok (take i xs @ ys @ drop (i + length ys) xs) else Panic)"

lemma slice_of_eq_Ok:
  "slice_of xs i j = Ok ys \<longleftrightarrow> i \<le> j \<and> j \<le> length xs \<and> ys = take (j - i) (drop i xs)"
  by (auto simp: slice_of_def)

lemma slice_of_eq_Panic: "slice_of xs i j = Panic \<longleftrightarrow> \<not> (i \<le> j \<and> j \<le> length xs)"
  by (simp add: slice_of_def)

lemma write_range_eq_Ok:
  "write_range xs i ys = Ok zs \<longleftrightarrow>
     i + length ys \<le> length xs \<and> zs = take i xs @ ys @ drop (i + length ys) xs"
  by (auto simp: write_range_def)

lemma write_range_eq_Panic: "write_range xs i ys = Panic \<longleftrightarrow> length xs < i + length ys"
  by (auto simp: write_range_def)

lemma write_range_length: "write_range xs i ys = Ok zs \<Longrightarrow> length zs = length xs"
  by (auto simp: write_range_eq_Ok)

lemma slice_write_range:
  assumes "write_range xs i ys = Ok zs"
  shows "slice_of zs i (i + length ys) = Ok ys"
  using assms by (auto simp: write_range_eq_Ok slice_of_def)

lemma write_range_outside:
  assumes "write_range xs i ys = Ok zs" "j < i \<or> i + length ys \<le> j" "j < length xs"
  shows "zs ! j = xs ! j"
  using assms by (auto simp: write_range_eq_Ok nth_append)

section \<open>Big-endian bytes\<close>

definition be_nat :: "bytes \<Rightarrow> nat" where
  "be_nat bs = foldl (\<lambda>a b. a * 256 + unat b) 0 bs"

primrec nat_be :: "nat \<Rightarrow> nat \<Rightarrow> bytes" where
  "nat_be 0 n = []"
| "nat_be (Suc k) n = nat_be k (n div 256) @ [of_nat (n mod 256)]"

text \<open>\<open>U256::from(&[u8])\<close> and \<open>to_big_endian\<close>.\<close>

definition u256_from_be :: "bytes \<Rightarrow> u256" where
  "u256_from_be bs = of_nat (be_nat bs)"

definition u256_to_be :: "u256 \<Rightarrow> bytes" where
  "u256_to_be w = nat_be 32 (unat w)"

lemma be_nat_Nil [simp]: "be_nat [] = 0"
  by (simp add: be_nat_def)

lemma be_nat_snoc [simp]: "be_nat (bs @ [b]) = be_nat bs * 256 + unat b"
  by (simp add: be_nat_def)

lemma be_nat_less: "be_nat bs < 256 ^ length bs"
proof (induction bs rule: rev_induct)
  case (snoc b bs)
  have "unat b < 256" using unsigned_less [of b] by simp
  with snoc show ?case by simp
qed simp

lemma length_nat_be [simp]: "length (nat_be k n) = k"
  by (induction k arbitrary: n) auto

lemma unat_byte_of_nat: "unat (of_nat (n mod 256) :: u8) = n mod 256"
  by (rule unat_of_nat_small) simp

lemma be_nat_nat_be: "be_nat (nat_be k n) = n mod 256 ^ k"
proof (induction k arbitrary: n)
  case (Suc k)
  have "n mod 256 ^ Suc k = n div 256 mod 256 ^ k * 256 + n mod 256"
    by (simp add: mod_mult2_eq mult.commute)
  with Suc show ?case by (simp add: unat_byte_of_nat)
qed simp

lemma nat_be_be_nat: "nat_be (length bs) (be_nat bs) = bs"
proof (induction bs rule: rev_induct)
  case (snoc b bs)
  have b: "unat b < 256" using unsigned_less [of b] by simp
  have "(be_nat bs * 256 + unat b) div 256 = be_nat bs" using b by simp
  moreover have "(of_nat ((be_nat bs * 256 + unat b) mod 256) :: u8) = b" using b by simp
  ultimately show ?case using snoc by simp
qed simp

lemma nat_be_nth: "i < k \<Longrightarrow> nat_be k n ! i = of_nat (n div 256 ^ (k - 1 - i) mod 256)"
proof (induction k arbitrary: n)
  case (Suc k)
  show ?case
  proof (cases "i = k")
    case True
    then show ?thesis by (simp add: nth_append)
  next
    case False
    with Suc.prems have "i < k" by simp
    moreover then have "Suc (k - 1 - i) = k - i" by simp
    ultimately show ?thesis using Suc.IH [of "n div 256"]
      by (simp add: nth_append div_mult2_eq [symmetric] power_Suc [symmetric] del: power_Suc)
  qed
qed simp

lemma length_u256_to_be [simp]: "length (u256_to_be w) = 32"
  by (simp add: u256_to_be_def)

lemma u256_from_to_be [simp]: "u256_from_be (u256_to_be w) = w"
proof -
  have "unat w < 256 ^ 32" using unsigned_less [of w] by simp
  then show ?thesis by (simp add: u256_from_be_def u256_to_be_def be_nat_nat_be)
qed

lemma u256_to_from_be: "length bs = 32 \<Longrightarrow> u256_to_be (u256_from_be bs) = bs"
proof -
  assume len: "length bs = 32"
  then have "be_nat bs < 2 ^ LENGTH(256)" using be_nat_less [of bs] by simp
  then have "unat (u256_from_be bs) = be_nat bs"
    unfolding u256_from_be_def by (rule unat_of_nat_small)
  then show ?thesis using nat_be_be_nat [of bs] len by (simp add: u256_to_be_def)
qed

end
