(* ===== verification/EVM_Instructions.thy ===== *)
theory EVM_Instructions
  imports Cita_Prelude
begin

text \<open>
  The virtual machine's instruction set (\<^verbatim>\<open>cita-executor/core/src/evm/instructions.rs\<close>): the opcodes,
  the operands encoded in an opcode (push width, dup and swap depth, number of log topics), the
  gas tiers and the table that gives every opcode its stack arity and tier.
\<close>

section \<open>Opcodes\<close>

type_synonym Instruction = u8

abbreviation (input) STOP :: Instruction where "STOP \<equiv> 0x00"
abbreviation (input) ADD :: Instruction where "ADD \<equiv> 0x01"
abbreviation (input) MUL :: Instruction where "MUL \<equiv> 0x02"
abbreviation (input) SUB :: Instruction where "SUB \<equiv> 0x03"
abbreviation (input) DIV :: Instruction where "DIV \<equiv> 0x04"
abbreviation (input) SDIV :: Instruction where "SDIV \<equiv> 0x05"
abbreviation (input) MOD :: Instruction where "MOD \<equiv> 0x06"
abbreviation (input) SMOD :: Instruction where "SMOD \<equiv> 0x07"
abbreviation (input) ADDMOD :: Instruction where "ADDMOD \<equiv> 0x08"
abbreviation (input) MULMOD :: Instruction where "MULMOD \<equiv> 0x09"
abbreviation (input) EXP :: Instruction where "EXP \<equiv> 0x0a"
abbreviation (input) SIGNEXTEND :: Instruction where "SIGNEXTEND \<equiv> 0x0b"
abbreviation (input) LT :: Instruction where "LT \<equiv> 0x10"
abbreviation (input) GT :: Instruction where "GT \<equiv> 0x11"
abbreviation (input) SLT :: Instruction where "SLT \<equiv> 0x12"
abbreviation (input) SGT :: Instruction where "SGT \<equiv> 0x13"
abbreviation (input) EQ :: Instruction where "EQ \<equiv> 0x14"
abbreviation (input) ISZERO :: Instruction where "ISZERO \<equiv> 0x15"
abbreviation (input) AND_op :: Instruction where "AND_op \<equiv> 0x16"
abbreviation (input) OR_op :: Instruction where "OR_op \<equiv> 0x17"
abbreviation (input) XOR_op :: Instruction where "XOR_op \<equiv> 0x18"
abbreviation (input) NOT_op :: Instruction where "NOT_op \<equiv> 0x19"
abbreviation (input) BYTE :: Instruction where "BYTE \<equiv> 0x1a"
abbreviation (input) SHA3 :: Instruction where "SHA3 \<equiv> 0x20"
abbreviation (input) ADDRESS :: Instruction where "ADDRESS \<equiv> 0x30"
abbreviation (input) BALANCE :: Instruction where "BALANCE \<equiv> 0x31"
abbreviation (input) ORIGIN :: Instruction where "ORIGIN \<equiv> 0x32"
abbreviation (input) CALLER :: Instruction where "CALLER \<equiv> 0x33"
abbreviation (input) CALLVALUE :: Instruction where "CALLVALUE \<equiv> 0x34"
abbreviation (input) CALLDATALOAD :: Instruction where "CALLDATALOAD \<equiv> 0x35"
abbreviation (input) CALLDATASIZE :: Instruction where "CALLDATASIZE \<equiv> 0x36"
abbreviation (input) CALLDATACOPY :: Instruction where "CALLDATACOPY \<equiv> 0x37"
abbreviation (input) CODESIZE :: Instruction where "CODESIZE \<equiv> 0x38"
abbreviation (input) CODECOPY :: Instruction where "CODECOPY \<equiv> 0x39"
abbreviation (input) GASPRICE :: Instruction where "GASPRICE \<equiv> 0x3a"
abbreviation (input) EXTCODESIZE :: Instruction where "EXTCODESIZE \<equiv> 0x3b"
abbreviation (input) EXTCODECOPY :: Instruction where "EXTCODECOPY \<equiv> 0x3c"
abbreviation (input) BLOCKHASH :: Instruction where "BLOCKHASH \<equiv> 0x40"
abbreviation (input) COINBASE :: Instruction where "COINBASE \<equiv> 0x41"
abbreviation (input) TIMESTAMP :: Instruction where "TIMESTAMP \<equiv> 0x42"
abbreviation (input) NUMBER :: Instruction where "NUMBER \<equiv> 0x43"
abbreviation (input) DIFFICULTY :: Instruction where "DIFFICULTY \<equiv> 0x44"
abbreviation (input) GASLIMIT :: Instruction where "GASLIMIT \<equiv> 0x45"
abbreviation (input) POP :: Instruction where "POP \<equiv> 0x50"
abbreviation (input) MLOAD :: Instruction where "MLOAD \<equiv> 0x51"
abbreviation (input) MSTORE :: Instruction where "MSTORE \<equiv> 0x52"
abbreviation (input) MSTORE8 :: Instruction where "MSTORE8 \<equiv> 0x53"
abbreviation (input) SLOAD :: Instruction where "SLOAD \<equiv> 0x54"
abbreviation (input) SSTORE :: Instruction where "SSTORE \<equiv> 0x55"
abbreviation (input) JUMP :: Instruction where "JUMP \<equiv> 0x56"
abbreviation (input) JUMPI :: Instruction where "JUMPI \<equiv> 0x57"
abbreviation (input) PC :: Instruction where "PC \<equiv> 0x58"
abbreviation (input) MSIZE :: Instruction where "MSIZE \<equiv> 0x59"
abbreviation (input) GAS :: Instruction where "GAS \<equiv> 0x5a"
abbreviation (input) JUMPDEST :: Instruction where "JUMPDEST \<equiv> 0x5b"
abbreviation (input) PUSH1 :: Instruction where "PUSH1 \<equiv> 0x60"
abbreviation (input) PUSH2 :: Instruction where "PUSH2 \<equiv> 0x61"
abbreviation (input) PUSH3 :: Instruction where "PUSH3 \<equiv> 0x62"
abbreviation (input) PUSH4 :: Instruction where "PUSH4 \<equiv> 0x63"
abbreviation (input) PUSH5 :: Instruction where "PUSH5 \<equiv> 0x64"
abbreviation (input) PUSH6 :: Instruction where "PUSH6 \<equiv> 0x65"
abbreviation (input) PUSH7 :: Instruction where "PUSH7 \<equiv> 0x66"
abbreviation (input) PUSH8 :: Instruction where "PUSH8 \<equiv> 0x67"
abbreviation (input) PUSH9 :: Instruction where "PUSH9 \<equiv> 0x68"
abbreviation (input) PUSH10 :: Instruction where "PUSH10 \<equiv> 0x69"
abbreviation (input) PUSH11 :: Instruction where "PUSH11 \<equiv> 0x6a"
abbreviation (input) PUSH12 :: Instruction where "PUSH12 \<equiv> 0x6b"
abbreviation (input) PUSH13 :: Instruction where "PUSH13 \<equiv> 0x6c"
abbreviation (input) PUSH14 :: Instruction where "PUSH14 \<equiv> 0x6d"
abbreviation (input) PUSH15 :: Instruction where "PUSH15 \<equiv> 0x6e"
abbreviation (input) PUSH16 :: Instruction where "PUSH16 \<equiv> 0x6f"
abbreviation (input) PUSH17 :: Instruction where "PUSH17 \<equiv> 0x70"
abbreviation (input) PUSH18 :: Instruction where "PUSH18 \<equiv> 0x71"
abbreviation (input) PUSH19 :: Instruction where "PUSH19 \<equiv> 0x72"
abbreviation (input) PUSH20 :: Instruction where "PUSH20 \<equiv> 0x73"
abbreviation (input) PUSH21 :: Instruction where "PUSH21 \<equiv> 0x74"
abbreviation (input) PUSH22 :: Instruction where "PUSH22 \<equiv> 0x75"
abbreviation (input) PUSH23 :: Instruction where "PUSH23 \<equiv> 0x76"
abbreviation (input) PUSH24 :: Instruction where "PUSH24 \<equiv> 0x77"
abbreviation (input) PUSH25 :: Instruction where "PUSH25 \<equiv> 0x78"
abbreviation (input) PUSH26 :: Instruction where "PUSH26 \<equiv> 0x79"
abbreviation (input) PUSH27 :: Instruction where "PUSH27 \<equiv> 0x7a"
abbreviation (input) PUSH28 :: Instruction where "PUSH28 \<equiv> 0x7b"
abbreviation (input) PUSH29 :: Instruction where "PUSH29 \<equiv> 0x7c"
abbreviation (input) PUSH30 :: Instruction where "PUSH30 \<equiv> 0x7d"
abbreviation (input) PUSH31 :: Instruction where "PUSH31 \<equiv> 0x7e"
abbreviation (input) PUSH32 :: Instruction where "PUSH32 \<equiv> 0x7f"
abbreviation (input) DUP1 :: Instruction where "DUP1 \<equiv> 0x80"
abbreviation (input) DUP2 :: Instruction where "DUP2 \<equiv> 0x81"
abbreviation (input) DUP3 :: Instruction where "DUP3 \<equiv> 0x82"
abbreviation (input) DUP4 :: Instruction where "DUP4 \<equiv> 0x83"
abbreviation (input) DUP5 :: Instruction where "DUP5 \<equiv> 0x84"
abbreviation (input) DUP6 :: Instruction where "DUP6 \<equiv> 0x85"
abbreviation (input) DUP7 :: Instruction where "DUP7 \<equiv> 0x86"
abbreviation (input) DUP8 :: Instruction where "DUP8 \<equiv> 0x87"
abbreviation (input) DUP9 :: Instruction where "DUP9 \<equiv> 0x88"
abbreviation (input) DUP10 :: Instruction where "DUP10 \<equiv> 0x89"
abbreviation (input) DUP11 :: Instruction where "DUP11 \<equiv> 0x8a"
abbreviation (input) DUP12 :: Instruction where "DUP12 \<equiv> 0x8b"
abbreviation (input) DUP13 :: Instruction where "DUP13 \<equiv> 0x8c"
abbreviation (input) DUP14 :: Instruction where "DUP14 \<equiv> 0x8d"
abbreviation (input) DUP15 :: Instruction where "DUP15 \<equiv> 0x8e"
abbreviation (input) DUP16 :: Instruction where "DUP16 \<equiv> 0x8f"
abbreviation (input) SWAP1 :: Instruction where "SWAP1 \<equiv> 0x90"
abbreviation (input) SWAP2 :: Instruction where "SWAP2 \<equiv> 0x91"
abbreviation (input) SWAP3 :: Instruction where "SWAP3 \<equiv> 0x92"
abbreviation (input) SWAP4 :: Instruction where "SWAP4 \<equiv> 0x93"
abbreviation (input) SWAP5 :: Instruction where "SWAP5 \<equiv> 0x94"
abbreviation (input) SWAP6 :: Instruction where "SWAP6 \<equiv> 0x95"
abbreviation (input) SWAP7 :: Instruction where "SWAP7 \<equiv> 0x96"
abbreviation (input) SWAP8 :: Instruction where "SWAP8 \<equiv> 0x97"
abbreviation (input) SWAP9 :: Instruction where "SWAP9 \<equiv> 0x98"
abbreviation (input) SWAP10 :: Instruction where "SWAP10 \<equiv> 0x99"
abbreviation (input) SWAP11 :: Instruction where "SWAP11 \<equiv> 0x9a"
abbreviation (input) SWAP12 :: Instruction where "SWAP12 \<equiv> 0x9b"
abbreviation (input) SWAP13 :: Instruction where "SWAP13 \<equiv> 0x9c"
abbreviation (input) SWAP14 :: Instruction where "SWAP14 \<equiv> 0x9d"
abbreviation (input) SWAP15 :: Instruction where "SWAP15 \<equiv> 0x9e"
abbreviation (input) SWAP16 :: Instruction where "SWAP16 \<equiv> 0x9f"
abbreviation (input) LOG0 :: Instruction where "LOG0 \<equiv> 0xa0"
abbreviation (input) LOG1 :: Instruction where "LOG1 \<equiv> 0xa1"
abbreviation (input) LOG2 :: Instruction where "LOG2 \<equiv> 0xa2"
abbreviation (input) LOG3 :: Instruction where "LOG3 \<equiv> 0xa3"
abbreviation (input) LOG4 :: Instruction where "LOG4 \<equiv> 0xa4"
abbreviation (input) CREATE :: Instruction where "CREATE \<equiv> 0xf0"
abbreviation (input) CALL :: Instruction where "CALL \<equiv> 0xf1"
abbreviation (input) CALLCODE :: Instruction where "CALLCODE \<equiv> 0xf2"
abbreviation (input) RETURN :: Instruction where "RETURN \<equiv> 0xf3"
abbreviation (input) DELEGATECALL :: Instruction where "DELEGATECALL \<equiv> 0xf4"
abbreviation (input) SUICIDE :: Instruction where "SUICIDE \<equiv> 0xff"

definition MAX_NO_OF_TOPICS :: nat where
  "MAX_NO_OF_TOPICS = 4"

section \<open>Operands encoded in the opcode\<close>

definition is_push :: "Instruction \<Rightarrow> bool" where
  "is_push i \<longleftrightarrow> PUSH1 \<le> i \<and> i \<le> PUSH32"

definition get_push_bytes :: "Instruction \<Rightarrow> ('e, nat) res" where
  "get_push_bytes i = (if is_push i then Ok (unat (i - PUSH1 + 1)) else Panic)"

definition get_dup_position :: "Instruction \<Rightarrow> ('e, nat) res" where
  "get_dup_position i = (if DUP1 \<le> i \<and> i \<le> DUP16 then Ok (unat (i - DUP1)) else Panic)"

definition get_swap_position :: "Instruction \<Rightarrow> ('e, nat) res" where
  "get_swap_position i = (if SWAP1 \<le> i \<and> i \<le> SWAP16 then Ok (unat (i - SWAP1 + 1)) else Panic)"

definition get_log_topics :: "Instruction \<Rightarrow> ('e, nat) res" where
  "get_log_topics i = (if LOG0 \<le> i \<and> i \<le> LOG4 then Ok (unat (i - LOG0)) else Panic)"

section \<open>Gas tiers and the instruction table\<close>

datatype GasPriceTier =
  Tier_Zero | Tier_Base | Tier_VeryLow | Tier_Low | Tier_Mid | Tier_High | Tier_Ext
| Tier_Special | Tier_Invalid

fun get_tier_idx :: "GasPriceTier \<Rightarrow> nat" where
  "get_tier_idx Tier_Zero = 0"
| "get_tier_idx Tier_Base = 1"
| "get_tier_idx Tier_VeryLow = 2"
| "get_tier_idx Tier_Low = 3"
| "get_tier_idx Tier_Mid = 4"
| "get_tier_idx Tier_High = 5"
| "get_tier_idx Tier_Ext = 6"
| "get_tier_idx Tier_Special = 7"
| "get_tier_idx Tier_Invalid = 8"

record InstructionInfo =
  info_name :: string
  info_additional :: nat
  info_args :: nat
  info_ret :: nat
  info_side_effects :: bool
  info_tier :: GasPriceTier

definition InstructionInfo_new ::
  "string \<Rightarrow> nat \<Rightarrow> nat \<Rightarrow> nat \<Rightarrow> bool \<Rightarrow> GasPriceTier \<Rightarrow> InstructionInfo" where
  "InstructionInfo_new name additional nargs nret side_effects tier =
     \<lparr>info_name = name, info_additional = additional, info_args = nargs, info_ret = nret,
      info_side_effects = side_effects, info_tier = tier\<rparr>"

definition InstructionInfo_default :: InstructionInfo where
  "InstructionInfo_default = InstructionInfo_new [] 0 0 0 False Tier_Invalid"

text \<open>The source fills an array of 256 defaults entry by entry, at distinct indices; the model tests
  the index against the same entries in the same order.\<close>

definition INSTRUCTIONS :: "Instruction \<Rightarrow> InstructionInfo" where
  "INSTRUCTIONS i = (
     if i = STOP then InstructionInfo_new ''STOP'' 0 0 0 True Tier_Zero
     else if i = ADD then InstructionInfo_new ''ADD'' 0 2 1 False Tier_VeryLow
     else if i = SUB then InstructionInfo_new ''SUB'' 0 2 1 False Tier_VeryLow
     else if i = MUL then InstructionInfo_new ''MUL'' 0 2 1 False Tier_Low
     else if i = DIV then InstructionInfo_new ''DIV'' 0 2 1 False Tier_Low
     else if i = SDIV then InstructionInfo_new ''SDIV'' 0 2 1 False Tier_Low
     else if i = MOD then InstructionInfo_new ''MOD'' 0 2 1 False Tier_Low
     else if i = SMOD then InstructionInfo_new ''SMOD'' 0 2 1 False Tier_Low
     else if i = EXP then InstructionInfo_new ''EXP'' 0 2 1 False Tier_Special
     else if i = NOT_op then InstructionInfo_new ''NOT'' 0 1 1 False Tier_VeryLow
     else if i = LT then InstructionInfo_new ''LT'' 0 2 1 False Tier_VeryLow
     else if i = GT then InstructionInfo_new ''GT'' 0 2 1 False Tier_VeryLow
     else if i = SLT then InstructionInfo_new ''SLT'' 0 2 1 False Tier_VeryLow
     else if i = SGT then InstructionInfo_new ''SGT'' 0 2 1 False Tier_VeryLow
     else if i = EQ then InstructionInfo_new ''EQ'' 0 2 1 False Tier_VeryLow
     else if i = ISZERO then InstructionInfo_new ''ISZERO'' 0 1 1 False Tier_VeryLow
     else if i = AND_op then InstructionInfo_new ''AND'' 0 2 1 False Tier_VeryLow
     else if i = OR_op then InstructionInfo_new ''OR'' 0 2 1 False Tier_VeryLow
     else if i = XOR_op then InstructionInfo_new ''XOR'' 0 2 1 False Tier_VeryLow
     else if i = BYTE then InstructionInfo_new ''BYTE'' 0 2 1 False Tier_VeryLow
     else if i = ADDMOD then InstructionInfo_new ''ADDMOD'' 0 3 1 False Tier_Mid
     else if i = MULMOD then InstructionInfo_new ''MULMOD'' 0 3 1 False Tier_Mid
     else if i = SIGNEXTEND then InstructionInfo_new ''SIGNEXTEND'' 0 2 1 False Tier_Low
     else if i = SHA3 then InstructionInfo_new ''SHA3'' 0 2 1 False Tier_Special
     else if i = ADDRESS then InstructionInfo_new ''ADDRESS'' 0 0 1 False Tier_Base
     else if i = BALANCE then InstructionInfo_new ''BALANCE'' 0 1 1 False Tier_Special
     else if i = ORIGIN then InstructionInfo_new ''ORIGIN'' 0 0 1 False Tier_Base
     else if i = CALLER then InstructionInfo_new ''CALLER'' 0 0 1 False Tier_Base
     else if i = CALLVALUE then InstructionInfo_new ''CALLVALUE'' 0 0 1 False Tier_Base
     else if i = CALLDATALOAD then InstructionInfo_new ''CALLDATALOAD'' 0 1 1 False Tier_VeryLow
     else if i = CALLDATASIZE then InstructionInfo_new ''CALLDATASIZE'' 0 0 1 False Tier_Base
     else if i = CALLDATACOPY then InstructionInfo_new ''CALLDATACOPY'' 0 3 0 True Tier_VeryLow
     else if i = CODESIZE then InstructionInfo_new ''CODESIZE'' 0 0 1 False Tier_Base
     else if i = CODECOPY then InstructionInfo_new ''CODECOPY'' 0 3 0 True Tier_VeryLow
     else if i = GASPRICE then InstructionInfo_new ''GASPRICE'' 0 0 1 False Tier_Base
     else if i = EXTCODESIZE then InstructionInfo_new ''EXTCODESIZE'' 0 1 1 False Tier_Special
     else if i = EXTCODECOPY then InstructionInfo_new ''EXTCODECOPY'' 0 4 0 True Tier_Special
     else if i = BLOCKHASH then InstructionInfo_new ''BLOCKHASH'' 0 1 1 False Tier_Ext
     else if i = COINBASE then InstructionInfo_new ''COINBASE'' 0 0 1 False Tier_Base
     else if i = TIMESTAMP then InstructionInfo_new ''TIMESTAMP'' 0 0 1 False Tier_Base
     else if i = NUMBER then InstructionInfo_new ''NUMBER'' 0 0 1 False Tier_Base
     else if i = DIFFICULTY then InstructionInfo_new ''DIFFICULTY'' 0 0 1 False Tier_Base
     else if i = GASLIMIT then InstructionInfo_new ''GASLIMIT'' 0 0 1 False Tier_Base
     else if i = POP then InstructionInfo_new ''POP'' 0 1 0 False Tier_Base
     else if i = MLOAD then InstructionInfo_new ''MLOAD'' 0 1 1 False Tier_VeryLow
     else if i = MSTORE then InstructionInfo_new ''MSTORE'' 0 2 0 True Tier_VeryLow
     else if i = MSTORE8 then InstructionInfo_new ''MSTORE8'' 0 2 0 True Tier_VeryLow
     else if i = SLOAD then InstructionInfo_new ''SLOAD'' 0 1 1 False Tier_Special
     else if i = SSTORE then InstructionInfo_new ''SSTORE'' 0 2 0 True Tier_Special
     else if i = JUMP then InstructionInfo_new ''JUMP'' 0 1 0 True Tier_Mid
     else if i = JUMPI then InstructionInfo_new ''JUMPI'' 0 2 0 True Tier_High
     else if i = PC then InstructionInfo_new ''PC'' 0 0 1 False Tier_Base
     else if i = MSIZE then InstructionInfo_new ''MSIZE'' 0 0 1 False Tier_Base
     else if i = GAS then InstructionInfo_new ''GAS'' 0 0 1 False Tier_Base
     else if i = JUMPDEST then InstructionInfo_new ''JUMPDEST'' 0 0 0 True Tier_Special
     else if i = PUSH1 then InstructionInfo_new ''PUSH1'' 1 0 1 False Tier_VeryLow
     else if i = PUSH2 then InstructionInfo_new ''PUSH2'' 2 0 1 False Tier_VeryLow
     else if i = PUSH3 then InstructionInfo_new ''PUSH3'' 3 0 1 False Tier_VeryLow
     else if i = PUSH4 then InstructionInfo_new ''PUSH4'' 4 0 1 False Tier_VeryLow
     else if i = PUSH5 then InstructionInfo_new ''PUSH5'' 5 0 1 False Tier_VeryLow
     else if i = PUSH6 then InstructionInfo_new ''PUSH6'' 6 0 1 False Tier_VeryLow
     else if i = PUSH7 then InstructionInfo_new ''PUSH7'' 7 0 1 False Tier_VeryLow
     else if i = PUSH8 then InstructionInfo_new ''PUSH8'' 8 0 1 False Tier_VeryLow
     else if i = PUSH9 then InstructionInfo_new ''PUSH9'' 9 0 1 False Tier_VeryLow
     else if i = PUSH10 then InstructionInfo_new ''PUSH10'' 10 0 1 False Tier_VeryLow
     else if i = PUSH11 then InstructionInfo_new ''PUSH11'' 11 0 1 False Tier_VeryLow
     else if i = PUSH12 then InstructionInfo_new ''PUSH12'' 12 0 1 False Tier_VeryLow
     else if i = PUSH13 then InstructionInfo_new ''PUSH13'' 13 0 1 False Tier_VeryLow
     else if i = PUSH14 then InstructionInfo_new ''PUSH14'' 14 0 1 False Tier_VeryLow
     else if i = PUSH15 then InstructionInfo_new ''PUSH15'' 15 0 1 False Tier_VeryLow
     else if i = PUSH16 then InstructionInfo_new ''PUSH16'' 16 0 1 False Tier_VeryLow
     else if i = PUSH17 then InstructionInfo_new ''PUSH17'' 17 0 1 False Tier_VeryLow
     else if i = PUSH18 then InstructionInfo_new ''PUSH18'' 18 0 1 False Tier_VeryLow
     else if i = PUSH19 then InstructionInfo_new ''PUSH19'' 19 0 1 False Tier_VeryLow
     else if i = PUSH20 then InstructionInfo_new ''PUSH20'' 20 0 1 False Tier_VeryLow
     else if i = PUSH21 then InstructionInfo_new ''PUSH21'' 21 0 1 False Tier_VeryLow
     else if i = PUSH22 then InstructionInfo_new ''PUSH22'' 22 0 1 False Tier_VeryLow
     else if i = PUSH23 then InstructionInfo_new ''PUSH23'' 23 0 1 False Tier_VeryLow
     else if i = PUSH24 then InstructionInfo_new ''PUSH24'' 24 0 1 False Tier_VeryLow
     else if i = PUSH25 then InstructionInfo_new ''PUSH25'' 25 0 1 False Tier_VeryLow
     else if i = PUSH26 then InstructionInfo_new ''PUSH26'' 26 0 1 False Tier_VeryLow
     else if i = PUSH27 then InstructionInfo_new ''PUSH27'' 27 0 1 False Tier_VeryLow
     else if i = PUSH28 then InstructionInfo_new ''PUSH28'' 28 0 1 False Tier_VeryLow
     else if i = PUSH29 then InstructionInfo_new ''PUSH29'' 29 0 1 False Tier_VeryLow
     else if i = PUSH30 then InstructionInfo_new ''PUSH30'' 30 0 1 False Tier_VeryLow
     else if i = PUSH31 then InstructionInfo_new ''PUSH31'' 31 0 1 False Tier_VeryLow
     else if i = PUSH32 then InstructionInfo_new ''PUSH32'' 32 0 1 False Tier_VeryLow
     else if i = DUP1 then InstructionInfo_new ''DUP1'' 0 1 2 False Tier_VeryLow
     else if i = DUP2 then InstructionInfo_new ''DUP2'' 0 2 3 False Tier_VeryLow
     else if i = DUP3 then InstructionInfo_new ''DUP3'' 0 3 4 False Tier_VeryLow
     else if i = DUP4 then InstructionInfo_new ''DUP4'' 0 4 5 False Tier_VeryLow
     else if i = DUP5 then InstructionInfo_new ''DUP5'' 0 5 6 False Tier_VeryLow
     else if i = DUP6 then InstructionInfo_new ''DUP6'' 0 6 7 False Tier_VeryLow
     else if i = DUP7 then InstructionInfo_new ''DUP7'' 0 7 8 False Tier_VeryLow
     else if i = DUP8 then InstructionInfo_new ''DUP8'' 0 8 9 False Tier_VeryLow
     else if i = DUP9 then InstructionInfo_new ''DUP9'' 0 9 10 False Tier_VeryLow
     else if i = DUP10 then InstructionInfo_new ''DUP10'' 0 10 11 False Tier_VeryLow
     else if i = DUP11 then InstructionInfo_new ''DUP11'' 0 11 12 False Tier_VeryLow
     else if i = DUP12 then InstructionInfo_new ''DUP12'' 0 12 13 False Tier_VeryLow
     else if i = DUP13 then InstructionInfo_new ''DUP13'' 0 13 14 False Tier_VeryLow
     else if i = DUP14 then InstructionInfo_new ''DUP14'' 0 14 15 False Tier_VeryLow
     else if i = DUP15 then InstructionInfo_new ''DUP15'' 0 15 16 False Tier_VeryLow
     else if i = DUP16 then InstructionInfo_new ''DUP16'' 0 16 17 False Tier_VeryLow
     else if i = SWAP1 then InstructionInfo_new ''SWAP1'' 0 2 2 False Tier_VeryLow
     else if i = SWAP2 then InstructionInfo_new ''SWAP2'' 0 3 3 False Tier_VeryLow
     else if i = SWAP3 then InstructionInfo_new ''SWAP3'' 0 4 4 False Tier_VeryLow
     else if i = SWAP4 then InstructionInfo_new ''SWAP4'' 0 5 5 False Tier_VeryLow
     else if i = SWAP5 then InstructionInfo_new ''SWAP5'' 0 6 6 False Tier_VeryLow
     else if i = SWAP6 then InstructionInfo_new ''SWAP6'' 0 7 7 False Tier_VeryLow
     else if i = SWAP7 then InstructionInfo_new ''SWAP7'' 0 8 8 False Tier_VeryLow
     else if i = SWAP8 then InstructionInfo_new ''SWAP8'' 0 9 9 False Tier_VeryLow
     else if i = SWAP9 then InstructionInfo_new ''SWAP9'' 0 10 10 False Tier_VeryLow
     else if i = SWAP10 then InstructionInfo_new ''SWAP10'' 0 11 11 False Tier_VeryLow
     else if i = SWAP11 then InstructionInfo_new ''SWAP11'' 0 12 12 False Tier_VeryLow
     else if i = SWAP12 then InstructionInfo_new ''SWAP12'' 0 13 13 False Tier_VeryLow
     else if i = SWAP13 then InstructionInfo_new ''SWAP13'' 0 14 14 False Tier_VeryLow
     else if i = SWAP14 then InstructionInfo_new ''SWAP14'' 0 15 15 False Tier_VeryLow
     else if i = SWAP15 then InstructionInfo_new ''SWAP15'' 0 16 16 False Tier_VeryLow
     else if i = SWAP16 then InstructionInfo_new ''SWAP16'' 0 17 17 False Tier_VeryLow
     else if i = LOG0 then InstructionInfo_new ''LOG0'' 0 2 0 True Tier_Special
     else if i = LOG1 then InstructionInfo_new ''LOG1'' 0 3 0 True Tier_Special
     else if i = LOG2 then InstructionInfo_new ''LOG2'' 0 4 0 True Tier_Special
     else if i = LOG3 then InstructionInfo_new ''LOG3'' 0 5 0 True Tier_Special
     else if i = LOG4 then InstructionInfo_new ''LOG4'' 0 6 0 True Tier_Special
     else if i = CREATE then InstructionInfo_new ''CREATE'' 0 3 1 True Tier_Special
     else if i = CALL then InstructionInfo_new ''CALL'' 0 7 1 True Tier_Special
     else if i = CALLCODE then InstructionInfo_new ''CALLCODE'' 0 7 1 True Tier_Special
     else if i = RETURN then InstructionInfo_new ''RETURN'' 0 2 0 True Tier_Zero
     else if i = DELEGATECALL then InstructionInfo_new ''DELEGATECALL'' 0 6 1 True Tier_Special
     else if i = SUICIDE then InstructionInfo_new ''SUICIDE'' 0 1 0 True Tier_Special
     else InstructionInfo_default)"

section \<open>Facts about the table\<close>

definition has_arity :: "InstructionInfo \<Rightarrow> nat \<Rightarrow> nat \<Rightarrow> bool" where
  "has_arity info a r \<longleftrightarrow> info_args info = a \<and> info_ret info = r \<and> info_tier info \<noteq> Tier_Invalid"

lemma has_arity_new [simp]:
  "has_arity (InstructionInfo_new nm ad a r se t) a' r' \<longleftrightarrow> a = a' \<and> r = r' \<and> t \<noteq> Tier_Invalid"
  by (auto simp: has_arity_def InstructionInfo_new_def)

lemma info_new_simps [simp]:
  "info_tier (InstructionInfo_new nm ad a r se t) = t"
  "info_args (InstructionInfo_new nm ad a r se t) = a"
  "info_ret (InstructionInfo_new nm ad a r se t) = r"
  by (simp_all add: InstructionInfo_new_def)

lemma info_default_tier [simp]: "info_tier InstructionInfo_default = Tier_Invalid"
  by (simp add: InstructionInfo_default_def)

text \<open>The table is a chain of tests; a property of every entry is proved entry by entry with a
  rule that forgets the earlier tests.\<close>

lemma tier_ifI:
  "(c \<Longrightarrow> info_tier a \<noteq> t) \<Longrightarrow> info_tier b \<noteq> t \<Longrightarrow> info_tier (if c then a else b) \<noteq> t"
  by simp

lemma tier_Special:
  "i \<notin> {EXP, SHA3, BALANCE, EXTCODESIZE, EXTCODECOPY, SLOAD, SSTORE, JUMPDEST, LOG0, LOG1, LOG2,
     LOG3, LOG4, CREATE, CALL, CALLCODE, DELEGATECALL, SUICIDE} \<Longrightarrow>
   info_tier (INSTRUCTIONS i) \<noteq> Tier_Special"
  unfolding INSTRUCTIONS_def
  by (intro tier_ifI)
    (simp_all only: info_new_simps info_default_tier GasPriceTier.distinct not_False_eq_True
      insert_iff simp_thms)

lemma tier_Zero: "i \<notin> {STOP, RETURN} \<Longrightarrow> info_tier (INSTRUCTIONS i) \<noteq> Tier_Zero"
  unfolding INSTRUCTIONS_def
  by (intro tier_ifI)
    (simp_all only: info_new_simps info_default_tier GasPriceTier.distinct not_False_eq_True
      insert_iff simp_thms)

lemma get_tier_idx_less: "t \<noteq> Tier_Invalid \<Longrightarrow> get_tier_idx t < 8"
  by (cases t) auto

lemma byte_upto:
  assumes "of_nat m \<le> (i::u8)" "i \<le> of_nat n" "n < 256" "m \<le> n"
  shows "i \<in> set (map of_nat [m..<Suc n])"
proof -
  have "unat i \<in> set [m..<Suc n]" using assms by (auto simp: word_le_nat_alt unat_of_nat)
  then have "of_nat (unat i) \<in> (of_nat :: nat \<Rightarrow> u8) ` set [m..<Suc n]" by (rule imageI)
  then show ?thesis by simp
qed

lemma arity_table:
  "has_arity (INSTRUCTIONS STOP) 0 0"
  "has_arity (INSTRUCTIONS ADD) 2 1"
  "has_arity (INSTRUCTIONS SUB) 2 1"
  "has_arity (INSTRUCTIONS MUL) 2 1"
  "has_arity (INSTRUCTIONS DIV) 2 1"
  "has_arity (INSTRUCTIONS SDIV) 2 1"
  "has_arity (INSTRUCTIONS MOD) 2 1"
  "has_arity (INSTRUCTIONS SMOD) 2 1"
  "has_arity (INSTRUCTIONS EXP) 2 1"
  "has_arity (INSTRUCTIONS NOT_op) 1 1"
  "has_arity (INSTRUCTIONS LT) 2 1"
  "has_arity (INSTRUCTIONS GT) 2 1"
  "has_arity (INSTRUCTIONS SLT) 2 1"
  "has_arity (INSTRUCTIONS SGT) 2 1"
  "has_arity (INSTRUCTIONS EQ) 2 1"
  "has_arity (INSTRUCTIONS ISZERO) 1 1"
  "has_arity (INSTRUCTIONS AND_op) 2 1"
  "has_arity (INSTRUCTIONS OR_op) 2 1"
  "has_arity (INSTRUCTIONS XOR_op) 2 1"
  "has_arity (INSTRUCTIONS BYTE) 2 1"
  "has_arity (INSTRUCTIONS ADDMOD) 3 1"
  "has_arity (INSTRUCTIONS MULMOD) 3 1"
  "has_arity (INSTRUCTIONS SIGNEXTEND) 2 1"
  "has_arity (INSTRUCTIONS SHA3) 2 1"
  "has_arity (INSTRUCTIONS ADDRESS) 0 1"
  "has_arity (INSTRUCTIONS BALANCE) 1 1"
  "has_arity (INSTRUCTIONS ORIGIN) 0 1"
  "has_arity (INSTRUCTIONS CALLER) 0 1"
  "has_arity (INSTRUCTIONS CALLVALUE) 0 1"
  "has_arity (INSTRUCTIONS CALLDATALOAD) 1 1"
  "has_arity (INSTRUCTIONS CALLDATASIZE) 0 1"
  "has_arity (INSTRUCTIONS CALLDATACOPY) 3 0"
  "has_arity (INSTRUCTIONS CODESIZE) 0 1"
  "has_arity (INSTRUCTIONS CODECOPY) 3 0"
  "has_arity (INSTRUCTIONS GASPRICE) 0 1"
  "has_arity (INSTRUCTIONS EXTCODESIZE) 1 1"
  "has_arity (INSTRUCTIONS EXTCODECOPY) 4 0"
  "has_arity (INSTRUCTIONS BLOCKHASH) 1 1"
  "has_arity (INSTRUCTIONS COINBASE) 0 1"
  "has_arity (INSTRUCTIONS TIMESTAMP) 0 1"
  "has_arity (INSTRUCTIONS NUMBER) 0 1"
  "has_arity (INSTRUCTIONS DIFFICULTY) 0 1"
  "has_arity (INSTRUCTIONS GASLIMIT) 0 1"
  "has_arity (INSTRUCTIONS POP) 1 0"
  "has_arity (INSTRUCTIONS MLOAD) 1 1"
  "has_arity (INSTRUCTIONS MSTORE) 2 0"
  "has_arity (INSTRUCTIONS MSTORE8) 2 0"
  "has_arity (INSTRUCTIONS SLOAD) 1 1"
  "has_arity (INSTRUCTIONS SSTORE) 2 0"
  "has_arity (INSTRUCTIONS JUMP) 1 0"
  "has_arity (INSTRUCTIONS JUMPI) 2 0"
  "has_arity (INSTRUCTIONS PC) 0 1"
  "has_arity (INSTRUCTIONS MSIZE) 0 1"
  "has_arity (INSTRUCTIONS GAS) 0 1"
  "has_arity (INSTRUCTIONS JUMPDEST) 0 0"
  "has_arity (INSTRUCTIONS PUSH1) 0 1"
  "has_arity (INSTRUCTIONS PUSH2) 0 1"
  "has_arity (INSTRUCTIONS PUSH3) 0 1"
  "has_arity (INSTRUCTIONS PUSH4) 0 1"
  "has_arity (INSTRUCTIONS PUSH5) 0 1"
  "has_arity (INSTRUCTIONS PUSH6) 0 1"
  "has_arity (INSTRUCTIONS PUSH7) 0 1"
  "has_arity (INSTRUCTIONS PUSH8) 0 1"
  "has_arity (INSTRUCTIONS PUSH9) 0 1"
  "has_arity (INSTRUCTIONS PUSH10) 0 1"
  "has_arity (INSTRUCTIONS PUSH11) 0 1"
  "has_arity (INSTRUCTIONS PUSH12) 0 1"
  "has_arity (INSTRUCTIONS PUSH13) 0 1"
  "has_arity (INSTRUCTIONS PUSH14) 0 1"
  "has_arity (INSTRUCTIONS PUSH15) 0 1"
  "has_arity (INSTRUCTIONS PUSH16) 0 1"
  "has_arity (INSTRUCTIONS PUSH17) 0 1"
  "has_arity (INSTRUCTIONS PUSH18) 0 1"
  "has_arity (INSTRUCTIONS PUSH19) 0 1"
  "has_arity (INSTRUCTIONS PUSH20) 0 1"
  "has_arity (INSTRUCTIONS PUSH21) 0 1"
  "has_arity (INSTRUCTIONS PUSH22) 0 1"
  "has_arity (INSTRUCTIONS PUSH23) 0 1"
  "has_arity (INSTRUCTIONS PUSH24) 0 1"
  "has_arity (INSTRUCTIONS PUSH25) 0 1"
  "has_arity (INSTRUCTIONS PUSH26) 0 1"
  "has_arity (INSTRUCTIONS PUSH27) 0 1"
  "has_arity (INSTRUCTIONS PUSH28) 0 1"
  "has_arity (INSTRUCTIONS PUSH29) 0 1"
  "has_arity (INSTRUCTIONS PUSH30) 0 1"
  "has_arity (INSTRUCTIONS PUSH31) 0 1"
  "has_arity (INSTRUCTIONS PUSH32) 0 1"
  "has_arity (INSTRUCTIONS DUP1) 1 2"
  "has_arity (INSTRUCTIONS DUP2) 2 3"
  "has_arity (INSTRUCTIONS DUP3) 3 4"
  "has_arity (INSTRUCTIONS DUP4) 4 5"
  "has_arity (INSTRUCTIONS DUP5) 5 6"
  "has_arity (INSTRUCTIONS DUP6) 6 7"
  "has_arity (INSTRUCTIONS DUP7) 7 8"
  "has_arity (INSTRUCTIONS DUP8) 8 9"
  "has_arity (INSTRUCTIONS DUP9) 9 10"
  "has_arity (INSTRUCTIONS DUP10) 10 11"
  "has_arity (INSTRUCTIONS DUP11) 11 12"
  "has_arity (INSTRUCTIONS DUP12) 12 13"
  "has_arity (INSTRUCTIONS DUP13) 13 14"
  "has_arity (INSTRUCTIONS DUP14) 14 15"
  "has_arity (INSTRUCTIONS DUP15) 15 16"
  "has_arity (INSTRUCTIONS DUP16) 16 17"
  "has_arity (INSTRUCTIONS SWAP1) 2 2"
  "has_arity (INSTRUCTIONS SWAP2) 3 3"
  "has_arity (INSTRUCTIONS SWAP3) 4 4"
  "has_arity (INSTRUCTIONS SWAP4) 5 5"
  "has_arity (INSTRUCTIONS SWAP5) 6 6"
  "has_arity (INSTRUCTIONS SWAP6) 7 7"
  "has_arity (INSTRUCTIONS SWAP7) 8 8"
  "has_arity (INSTRUCTIONS SWAP8) 9 9"
  "has_arity (INSTRUCTIONS SWAP9) 10 10"
  "has_arity (INSTRUCTIONS SWAP10) 11 11"
  "has_arity (INSTRUCTIONS SWAP11) 12 12"
  "has_arity (INSTRUCTIONS SWAP12) 13 13"
  "has_arity (INSTRUCTIONS SWAP13) 14 14"
  "has_arity (INSTRUCTIONS SWAP14) 15 15"
  "has_arity (INSTRUCTIONS SWAP15) 16 16"
  "has_arity (INSTRUCTIONS SWAP16) 17 17"
  "has_arity (INSTRUCTIONS LOG0) 2 0"
  "has_arity (INSTRUCTIONS LOG1) 3 0"
  "has_arity (INSTRUCTIONS LOG2) 4 0"
  "has_arity (INSTRUCTIONS LOG3) 5 0"
  "has_arity (INSTRUCTIONS LOG4) 6 0"
  "has_arity (INSTRUCTIONS CREATE) 3 1"
  "has_arity (INSTRUCTIONS CALL) 7 1"
  "has_arity (INSTRUCTIONS CALLCODE) 7 1"
  "has_arity (INSTRUCTIONS RETURN) 2 0"
  "has_arity (INSTRUCTIONS DELEGATECALL) 6 1"
  "has_arity (INSTRUCTIONS SUICIDE) 1 0"
  by (simp_all add: INSTRUCTIONS_def)

lemmas arity_simps [simp] = arity_table [unfolded has_arity_def]

lemma push_arity:
  assumes "is_push i"
  shows "has_arity (INSTRUCTIONS i) 0 1"
proof -
  have "i \<in> set (map of_nat [0x60..<Suc 0x7f])"
    using assms by (intro byte_upto) (simp_all add: is_push_def)
  then have "i \<in> {0x60,0x61,0x62,0x63,0x64,0x65,0x66,0x67,0x68,0x69,0x6a,0x6b,0x6c,0x6d,0x6e,0x6f,
    0x70,0x71,0x72,0x73,0x74,0x75,0x76,0x77,0x78,0x79,0x7a,0x7b,0x7c,0x7d,0x7e,0x7f}"
    by (simp add: upt_rec)
  then show ?thesis by (elim insertE) (simp_all add: has_arity_def)
qed

text \<open>For the instructions with an encoded operand, the arity in the table is the one the operand
  asks for.\<close>

lemma dup_arity:
  assumes "get_dup_position i = Ok n"
  shows "has_arity (INSTRUCTIONS i) (Suc n) (Suc (Suc n))"
proof -
  have "i \<in> set (map of_nat [0x80..<Suc 0x8f])"
    using assms by (intro byte_upto) (simp_all add: get_dup_position_def split: if_splits)
  then have "i \<in> {0x80,0x81,0x82,0x83,0x84,0x85,0x86,0x87,0x88,0x89,0x8a,0x8b,0x8c,0x8d,0x8e,0x8f}"
    by (simp add: upt_rec)
  then show ?thesis using assms
    by (elim insertE) (auto simp: get_dup_position_def has_arity_def)
qed

lemma swap_arity:
  assumes "get_swap_position i = Ok n"
  shows "has_arity (INSTRUCTIONS i) (Suc n) (Suc n)"
proof -
  have "i \<in> set (map of_nat [0x90..<Suc 0x9f])"
    using assms by (intro byte_upto) (simp_all add: get_swap_position_def split: if_splits)
  then have "i \<in> {0x90,0x91,0x92,0x93,0x94,0x95,0x96,0x97,0x98,0x99,0x9a,0x9b,0x9c,0x9d,0x9e,0x9f}"
    by (simp add: upt_rec)
  then show ?thesis using assms
    by (elim insertE) (auto simp: get_swap_position_def has_arity_def)
qed

lemma log_arity:
  assumes "get_log_topics i = Ok n"
  shows "has_arity (INSTRUCTIONS i) (n + 2) 0" "n \<le> MAX_NO_OF_TOPICS"
proof -
  have "i \<in> set (map of_nat [0xa0..<Suc 0xa4])"
    using assms by (intro byte_upto) (simp_all add: get_log_topics_def split: if_splits)
  then have i: "i \<in> {0xa0,0xa1,0xa2,0xa3,0xa4}"
    by (simp add: upt_rec)
  then show "has_arity (INSTRUCTIONS i) (n + 2) 0" using assms
    by (elim insertE) (auto simp: get_log_topics_def has_arity_def)
  from i show "n \<le> MAX_NO_OF_TOPICS" using assms
    by (elim insertE) (simp_all add: get_log_topics_def MAX_NO_OF_TOPICS_def)
qed

end
