(* ===== verification/EVM_Schedule.thy ===== *)
theory EVM_Schedule
  imports EVM_Instructions
begin

text \<open>
  The cost schedule of the virtual machine (\<^verbatim>\<open>cita-executor/core/src/evm/schedule.rs\<close>): the record of
  prices and limits and its three constructors. Prices are \<open>usize\<close> constants, kept as naturals.
\<close>

record Schedule =
  exceptional_failed_code_deposit :: bool
  have_delegate_call :: bool
  stack_limit :: nat
  max_depth :: nat
  tier_step_gas :: "nat list"
  exp_gas :: nat
  exp_byte_gas :: nat
  sha3_gas :: nat
  sha3_word_gas :: nat
  sload_gas :: nat
  sstore_set_gas :: nat
  sstore_reset_gas :: nat
  sstore_refund_gas :: nat
  jumpdest_gas :: nat
  log_gas :: nat
  log_data_gas :: nat
  log_topic_gas :: nat
  create_gas :: nat
  call_gas :: nat
  call_stipend :: nat
  call_value_transfer_gas :: nat
  call_new_account_gas :: nat
  suicide_refund_gas :: nat
  memory_gas :: nat
  quad_coeff_div :: nat
  create_data_gas :: nat
  create_data_limit :: nat
  tx_gas :: nat
  tx_create_gas :: nat
  tx_data_zero_gas :: nat
  tx_data_non_zero_gas :: nat
  copy_gas :: nat
  extcodesize_gas :: nat
  extcodecopy_base_gas :: nat
  balance_gas :: nat
  suicide_gas :: nat
  suicide_to_new_account_cost :: nat
  sub_gas_cap_divisor :: "nat option"
  no_empty :: bool
  kill_empty :: bool

definition Schedule_new :: "bool \<Rightarrow> bool \<Rightarrow> nat \<Rightarrow> Schedule" where
  "Schedule_new efcd hdc tcg = \<lparr>
     exceptional_failed_code_deposit = efcd,
     have_delegate_call = hdc,
     stack_limit = 1024,
     max_depth = 1024,
     tier_step_gas = [0, 2, 3, 5, 8, 10, 20, 0],
     exp_gas = 10,
     exp_byte_gas = 10,
     sha3_gas = 30,
     sha3_word_gas = 6,
     sload_gas = 50,
     sstore_set_gas = 20000,
     sstore_reset_gas = 5000,
     sstore_refund_gas = 15000,
     jumpdest_gas = 1,
     log_gas = 375,
     log_data_gas = 8,
     log_topic_gas = 375,
     create_gas = 32000,
     call_gas = 40,
     call_stipend = 2300,
     call_value_transfer_gas = 9000,
     call_new_account_gas = 25000,
     suicide_refund_gas = 24000,
     memory_gas = 3,
     quad_coeff_div = 512,
     create_data_gas = 200,
     create_data_limit = 2 ^ 64 - 1,
     tx_gas = 21000,
     tx_create_gas = tcg,
     tx_data_zero_gas = 4,
     tx_data_non_zero_gas = 68,
     copy_gas = 3,
     extcodesize_gas = 20,
     extcodecopy_base_gas = 20,
     balance_gas = 20,
     suicide_gas = 0,
     suicide_to_new_account_cost = 0,
     sub_gas_cap_divisor = None,
     no_empty = False,
     kill_empty = False\<rparr>"

definition new_frontier :: Schedule where
  "new_frontier = Schedule_new False False 21000"

definition new_homestead :: Schedule where
  "new_homestead = Schedule_new True True 53000"

definition new_post_eip150 :: "nat \<Rightarrow> bool \<Rightarrow> bool \<Rightarrow> bool \<Rightarrow> Schedule" where
  "new_post_eip150 max_code_size fix_exp ne ke = \<lparr>
     exceptional_failed_code_deposit = True,
     have_delegate_call = True,
     stack_limit = 1024,
     max_depth = 1024,
     tier_step_gas = [0, 2, 3, 5, 8, 10, 20, 0],
     exp_gas = 10,
     exp_byte_gas = (if fix_exp then 50 else 10),
     sha3_gas = 30,
     sha3_word_gas = 6,
     sload_gas = 200,
     sstore_set_gas = 20000,
     sstore_reset_gas = 5000,
     sstore_refund_gas = 15000,
     jumpdest_gas = 1,
     log_gas = 375,
     log_data_gas = 8,
     log_topic_gas = 375,
     create_gas = 32000,
     call_gas = 700,
     call_stipend = 2300,
     call_value_transfer_gas = 9000,
     call_new_account_gas = 25000,
     suicide_refund_gas = 24000,
     memory_gas = 3,
     quad_coeff_div = 512,
     create_data_gas = 200,
     create_data_limit = max_code_size,
     tx_gas = 21000,
     tx_create_gas = 53000,
     tx_data_zero_gas = 4,
     tx_data_non_zero_gas = 68,
     copy_gas = 3,
     extcodesize_gas = 700,
     extcodecopy_base_gas = 700,
     balance_gas = 400,
     suicide_gas = 5000,
     suicide_to_new_account_cost = 25000,
     sub_gas_cap_divisor = Some 64,
     no_empty = ne,
     kill_empty = ke\<rparr>"

section \<open>What the interpreter relies on\<close>

text \<open>
  The interpreter and the gasometer are written for any schedule, but rest on relations between
  its constants: the quadratic coefficient is the 512 the memory formula shifts by, a value
  transfer costs more than the stipend it hands out, the stack limit leaves no room for an
  underflow, and every instruction that does not end the execution has a positive price.
\<close>

definition schedule_ok :: "Schedule \<Rightarrow> bool" where
  "schedule_ok s \<longleftrightarrow>
     quad_coeff_div s = 512 \<and>
     call_stipend s < call_value_transfer_gas s \<and>
     length (tier_step_gas s) = 8 \<and>
     (\<forall>i \<in> {1..6}. 0 < tier_step_gas s ! i) \<and>
     list_all (\<lambda>g. g < 2 ^ 32) (tier_step_gas s) \<and>
     list_all (\<lambda>g. 0 < g \<and> g < 2 ^ 32)
       [exp_gas s, sha3_gas s, sload_gas s, sstore_set_gas s, sstore_reset_gas s, log_gas s,
        create_gas s, call_gas s, extcodesize_gas s, extcodecopy_base_gas s, balance_gas s] \<and>
     list_all (\<lambda>g. g < 2 ^ 32)
       [exp_byte_gas s, log_topic_gas s, log_data_gas s, suicide_gas s, suicide_to_new_account_cost s,
        call_stipend s, call_value_transfer_gas s, call_new_account_gas s] \<and>
     sha3_word_gas s < 2 ^ 4 \<and> copy_gas s < 2 ^ 4 \<and> memory_gas s < 2 ^ 4 \<and>
     (case sub_gas_cap_divisor s of None \<Rightarrow> True | Some d \<Rightarrow> 0 < d \<and> d < 2 ^ 32)"

lemma ball_1_6: "(\<forall>i \<in> {1..6::nat}. P i) \<longleftrightarrow> P 1 \<and> P 2 \<and> P 3 \<and> P 4 \<and> P 5 \<and> P 6"
proof -
  have "{1..6::nat} = {1, 2, 3, 4, 5, 6}" by auto
  then show ?thesis by simp
qed

lemma schedule_ok_new [simp]: "schedule_ok (Schedule_new efcd hdc tcg)"
  unfolding schedule_ok_def ball_1_6 by (simp add: Schedule_new_def)

lemma schedule_ok_post_eip150 [simp]: "schedule_ok (new_post_eip150 m f n k)"
  unfolding schedule_ok_def ball_1_6 by (simp add: new_post_eip150_def)

lemma schedule_ok_constructors [simp]: "schedule_ok new_frontier" "schedule_ok new_homestead"
  by (simp_all add: new_frontier_def new_homestead_def)

end
