(* ===== verification/EVM_Cost.thy ===== *)
theory EVM_Cost
  imports EVM_Schedule
begin

text \<open>
  The error and result types of the virtual machine and its cost arithmetic
  (\<^verbatim>\<open>cita-executor/core/src/evm/evm.rs\<close>). The source implements the trait \<open>CostType\<close> for \<open>usize\<close> and
  for \<open>U256\<close>; the model states each method once, for a word of any width, and proves that the two
  implementations in the source are its instances at 64 and at 256 bits.
\<close>

section \<open>Errors and results\<close>

datatype evm_error =
  OutOfGas
| BadJumpDestination usize
| BadInstruction u8
| StackUnderflow string nat nat
| OutOfStack string nat nat
| Internal string

type_synonym 'a evm_result = "(evm_error, 'a) res"

datatype GasLeft = Known u256 | NeedsReturn u256 bytes

section \<open>The cost type\<close>

definition as_u256 :: "'c::len word \<Rightarrow> u256" where
  "as_u256 c = ucast c"

definition from_u256 :: "u256 \<Rightarrow> ('c::len word) evm_result" where
  "from_u256 v = (let r = ucast v in if (ucast r :: u256) \<noteq> v then Err OutOfGas else Ok r)"

definition as_usize :: "'c::len word \<Rightarrow> usize evm_result" where
  "as_usize c = (if unat c < 2 ^ 64 then Ok (ucast c) else Panic)"

definition overflow_add :: "'c::len word \<Rightarrow> 'c word \<Rightarrow> 'c word \<times> bool" where
  "overflow_add = overflowing_add"

definition overflow_mul :: "'c::len word \<Rightarrow> 'c word \<Rightarrow> 'c word \<times> bool" where
  "overflow_mul = overflowing_mul"

definition overflow_mul_shr :: "'c::len word \<Rightarrow> 'c word \<Rightarrow> nat \<Rightarrow> 'c word \<times> bool" where
  "overflow_mul_shr a b shr =
     (of_nat (unat a * unat b div 2 ^ shr), 2 ^ LENGTH('c) \<le> unat a * unat b)"

text \<open>\<open>Gas::from(usize)\<close>.\<close>

definition gas_from :: "nat \<Rightarrow> 'c::len word" where
  "gas_from n = of_nat n"

section \<open>The two implementations\<close>

definition u256_as_usize :: "u256 \<Rightarrow> usize evm_result" where
  "u256_as_usize c = (if c < 2 ^ 64 then Ok (low_u64 c) else Panic)"

definition u256_overflow_mul_shr :: "u256 \<Rightarrow> u256 \<Rightarrow> nat \<Rightarrow> u256 \<times> bool" where
  "u256_overflow_mul_shr self other shr =
     (let x = (ucast self :: u512) * ucast other;
          overflow = 0 < drop_bit 256 x;
          x' = drop_bit shr x
      in (ucast x', overflow))"

definition usize_from_u256 :: "u256 \<Rightarrow> usize evm_result" where
  "usize_from_u256 val =
     (let r = low_u64 val in if (ucast r :: u256) \<noteq> val then Err OutOfGas else Ok r)"

definition usize_overflow_mul_shr :: "usize \<Rightarrow> usize \<Rightarrow> nat \<Rightarrow> usize \<times> bool" where
  "usize_overflow_mul_shr self other shr =
     (let (c, o') = overflowing_mul (ucast self :: u128) (ucast other);
          overflow = (o' \<or> 0 < drop_bit 64 c);
          c' = drop_bit shr c;
          result = (ucast c' :: usize)
      in (result, overflow \<or> (ucast c' :: u64) > result))"

lemma from_u256_eq_Ok:
  "from_u256 v = Ok (c :: 'c::len word) \<longleftrightarrow> c = ucast v \<and> (ucast c :: u256) = v"
  by (auto simp: from_u256_def Let_def)

lemma from_u256_not_Panic [simp]: "from_u256 v \<noteq> Panic"
  by (simp add: from_u256_def Let_def)

lemma from_u256_at_256 [simp]: "from_u256 v = Ok (v :: u256)"
  by (simp add: from_u256_def)

lemma usize_from_u256_eq: "usize_from_u256 v = from_u256 v"
  by (simp add: usize_from_u256_def from_u256_def low_u64_def)

lemma as_usize_at_64 [simp]: "as_usize (c :: usize) = Ok c"
  using unsigned_less [of c] by (simp add: as_usize_def)

lemma u256_as_usize_eq: "u256_as_usize c = as_usize c"
proof -
  have "(c < 2 ^ 64) = (unat c < 2 ^ 64)" by (simp add: word_less_nat_alt)
  then show ?thesis by (simp add: u256_as_usize_def as_usize_def low_u64_def)
qed

lemma mul_no_double_overflow:
  fixes a b :: "'a::len word"
  shows "unat a * unat b < 2 ^ (2 * LENGTH('a))"
proof -
  have "unat a * unat b < 2 ^ LENGTH('a) * 2 ^ LENGTH('a)"
    by (rule mult_strict_mono) (simp_all add: unsigned_less)
  then show ?thesis by (simp add: mult_2 power_add)
qed

lemma unat_wide_mul:
  fixes a b :: "'a::len word"
  assumes "LENGTH('b::len) = 2 * LENGTH('a)"
  shows "unat ((ucast a :: 'b word) * ucast b) = unat a * unat b"
proof -
  have "unat (ucast x :: 'b word) = unat x" for x :: "'a word"
    by (rule unat_ucast_up) (use assms in simp)
  then show ?thesis using mul_no_double_overflow [of a b] assms by (simp add: unat_mult_small)
qed

lemma wide_mul_high_part:
  fixes x :: "'b::len word"
  shows "0 < drop_bit n x \<longleftrightarrow> 2 ^ n \<le> unat x"
  by (simp add: word_gt_0 unat_eq_zero [symmetric] unat_drop_bit div_eq_0_iff not_less)

lemma ucast_drop_bit_of_nat:
  fixes x :: "'b::len word"
  shows "(ucast (drop_bit n x) :: 'a::len word) = of_nat (unat x div 2 ^ n)"
  by (metis unat_drop_bit of_nat_unat)

lemma u256_overflow_mul_shr_eq: "u256_overflow_mul_shr a b n = overflow_mul_shr a b n"
  unfolding u256_overflow_mul_shr_def overflow_mul_shr_def Let_def wide_mul_high_part
    ucast_drop_bit_of_nat
  by (simp add: unat_wide_mul)

lemma usize_overflow_mul_shr_eq: "usize_overflow_mul_shr a b n = overflow_mul_shr a b n"
proof -
  have "\<not> 2 ^ 128 \<le> unat (ucast a :: u128) * unat (ucast b :: u128)"
    using mul_no_double_overflow [of a b] by (simp add: unat_ucast_up)
  then show ?thesis
    unfolding usize_overflow_mul_shr_def overflow_mul_shr_def overflowing_mul_def Let_def
      wide_mul_high_part ucast_drop_bit_of_nat prod.case
    by (simp add: unat_wide_mul)
qed

end
