(* ===== verification/EVM_Stack.thy ===== *)
theory EVM_Stack
  imports EVM_Cost
begin

text \<open>
  The operand stack (\<^verbatim>\<open>cita-executor/core/src/evm/interpreter/stack.rs\<close>). The vector grows at its
  end, so the top of the stack is the last element. The trait \<open>Stack\<close> is the locale
  \<open>evm_stack\<close>, whose laws speak of the elements from the top down; \<open>VecStack\<close> is its
  interpretation.
\<close>

section \<open>VecStack\<close>

record 'a VecStack =
  vs_stack :: "'a list"
  vs_logs :: "'a list"

definition with_capacity :: "'a \<Rightarrow> 'a VecStack" where
  "with_capacity zero = \<lparr>vs_stack = [], vs_logs = replicate MAX_NO_OF_TOPICS zero\<rparr>"

definition peek :: "'a VecStack \<Rightarrow> nat \<Rightarrow> ('e, 'a) res" where
  "peek s no_from_top =
     (let n = length (vs_stack s)
      in if no_from_top < n then Ok (vs_stack s ! (n - no_from_top - 1)) else Panic)"

definition swap_with_top :: "'a VecStack \<Rightarrow> nat \<Rightarrow> ('e, 'a VecStack) res" where
  "swap_with_top s no_from_top =
     (let xs = vs_stack s; n = length xs
      in if no_from_top < n
         then Ok (s\<lparr>vs_stack := xs[n - no_from_top - 1 := xs ! (n - 1),
                                  n - 1 := xs ! (n - no_from_top - 1)]\<rparr>)
         else Panic)"

definition has :: "'a VecStack \<Rightarrow> nat \<Rightarrow> bool" where
  "has s no_of_elems \<longleftrightarrow> no_of_elems \<le> length (vs_stack s)"

definition pop_back :: "'a VecStack \<Rightarrow> ('e, 'a \<times> 'a VecStack) res" where
  "pop_back s =
     (if vs_stack s = [] then Panic
      else Ok (last (vs_stack s), s\<lparr>vs_stack := butlast (vs_stack s)\<rparr>))"

text \<open>The loop of \<open>pop_n\<close>: \<open>for i in 0..no_of_elems\<close>, with the iterations left as first argument.\<close>

primrec pop_n_loop :: "nat \<Rightarrow> nat \<Rightarrow> 'a VecStack \<Rightarrow> ('e, 'a VecStack) res" where
  "pop_n_loop 0 i s = Ok s"
| "pop_n_loop (Suc k) i s =
     res_bind (pop_back s) (\<lambda>(x, s').
       if i < length (vs_logs s') then pop_n_loop k (Suc i) (s'\<lparr>vs_logs := (vs_logs s')[i := x]\<rparr>)
       else Panic)"

definition pop_n :: "'a VecStack \<Rightarrow> nat \<Rightarrow> ('e, 'a list \<times> 'a VecStack) res" where
  "pop_n s no_of_elems =
     res_bind (rust_assert (no_of_elems \<le> MAX_NO_OF_TOPICS)) (\<lambda>_.
     res_bind (pop_n_loop no_of_elems 0 s) (\<lambda>s'.
     res_bind (slice_of (vs_logs s') 0 no_of_elems) (\<lambda>topics. Ok (topics, s'))))"

definition push :: "'a VecStack \<Rightarrow> 'a \<Rightarrow> 'a VecStack" where
  "push s elem = s\<lparr>vs_stack := vs_stack s @ [elem]\<rparr>"

definition stack_size :: "'a VecStack \<Rightarrow> nat" where
  "stack_size s = length (vs_stack s)"

definition peek_top :: "'a VecStack \<Rightarrow> nat \<Rightarrow> ('e, 'a list) res" where
  "peek_top s no_from_top =
     (let n = length (vs_stack s)
      in res_bind (rust_assert (no_from_top \<le> n)) (\<lambda>_. slice_of (vs_stack s) (n - no_from_top) n))"

section \<open>The contract of the trait\<close>

lemma nth_update_0: "n < length xs \<Longrightarrow> xs[0 := xs ! n] ! 0 = xs ! n"
  by (cases xs) auto

text \<open>\<open>elems\<close> lists the elements from the top down; \<open>inv\<close> is what the implementation keeps of its
  scratch space.\<close>

locale evm_stack =
  fixes elems :: "'s \<Rightarrow> 'a list"
    and inv :: "'s \<Rightarrow> bool"
    and peek_op :: "'s \<Rightarrow> nat \<Rightarrow> ('e, 'a) res"
    and pop_op :: "'s \<Rightarrow> ('e, 'a \<times> 's) res"
    and push_op :: "'s \<Rightarrow> 'a \<Rightarrow> 's"
    and swap_op :: "'s \<Rightarrow> nat \<Rightarrow> ('e, 's) res"
    and pop_n_op :: "'s \<Rightarrow> nat \<Rightarrow> ('e, 'a list \<times> 's) res"
    and size_op :: "'s \<Rightarrow> nat"
  assumes size_law: "size_op s = length (elems s)"
    and peek_law: "peek_op s n = (if n < length (elems s) then Ok (elems s ! n) else Panic)"
    and pop_law: "elems s = x # xs \<Longrightarrow> inv s \<Longrightarrow> \<exists>s'. pop_op s = Ok (x, s') \<and> elems s' = xs \<and> inv s'"
    and pop_empty: "elems s = [] \<Longrightarrow> pop_op s = Panic"
    and push_law: "inv s \<Longrightarrow> elems (push_op s x) = x # elems s \<and> inv (push_op s x)"
    and swap_law: "n < length (elems s) \<Longrightarrow> inv s \<Longrightarrow>
          \<exists>s'. swap_op s n = Ok s' \<and> inv s' \<and>
               elems s' = (elems s)[0 := elems s ! n, n := elems s ! 0]"
    and pop_n_law: "n \<le> MAX_NO_OF_TOPICS \<Longrightarrow> n \<le> length (elems s) \<Longrightarrow> inv s \<Longrightarrow>
          \<exists>s'. pop_n_op s n = Ok (take n (elems s), s') \<and> elems s' = drop n (elems s) \<and> inv s'"
begin

lemma pop_after_push:
  assumes "inv s"
  shows "\<exists>s'. pop_op (push_op s x) = Ok (x, s') \<and> elems s' = elems s"
  using push_law [OF assms, of x] pop_law [of "push_op s x" x "elems s"] by auto

lemma peek_then_pop:
  assumes "inv s" "peek_op s 0 = Ok x"
  shows "\<exists>s'. pop_op s = Ok (x, s') \<and> size_op s' = size_op s - 1"
proof -
  from assms(2) obtain xs where "elems s = x # xs"
    by (cases "elems s") (auto simp: peek_law split: if_splits)
  then show ?thesis using pop_law [OF _ assms(1)] by (fastforce simp: size_law)
qed

lemma peek_after_pop:
  assumes "inv s" "pop_op s = Ok (x, s')"
  shows "peek_op s' n = peek_op s (Suc n)"
proof -
  have "elems s \<noteq> []" using assms pop_empty by auto
  then obtain y ys where ys: "elems s = y # ys" by (cases "elems s") auto
  then have "elems s' = ys" using pop_law [OF ys assms(1)] assms(2) by auto
  then show ?thesis by (simp add: peek_law ys)
qed

lemma pops_succeed:
  assumes "inv s" "0 < size_op s"
  shows "\<exists>x s'. pop_op s = Ok (x, s') \<and> Suc (size_op s') = size_op s \<and> inv s'"
proof -
  obtain x xs where xs: "elems s = x # xs" using assms(2) by (cases "elems s") (auto simp: size_law)
  then show ?thesis using pop_law [OF xs assms(1)] by (auto simp: size_law)
qed

lemma swap_twice:
  assumes "inv s" "n < size_op s"
  shows "\<exists>s' s''. swap_op s n = Ok s' \<and> swap_op s' n = Ok s'' \<and> elems s'' = elems s"
proof -
  obtain s' where s': "swap_op s n = Ok s'" "inv s'"
    "elems s' = (elems s)[0 := elems s ! n, n := elems s ! 0]"
    using swap_law [of n s] assms by (auto simp: size_law)
  then obtain s'' where "swap_op s' n = Ok s''"
    "elems s'' = (elems s')[0 := elems s' ! n, n := elems s' ! 0]"
    using swap_law [of n s'] assms by (auto simp: size_law)
  moreover have "(elems s')[0 := elems s' ! n, n := elems s' ! 0] = elems s"
    using assms s'(3) by (intro nth_equalityI) (auto simp: size_law nth_list_update nth_update_0)
  ultimately show ?thesis using s' by auto
qed

end

section \<open>VecStack satisfies it\<close>

text \<open>The normal form \<open>stk xs l\<close> of a stack: its elements from the top and its scratch space.\<close>

definition contents :: "'a VecStack \<Rightarrow> 'a list" where
  "contents s = rev (vs_stack s)"

definition vs_inv :: "'a VecStack \<Rightarrow> bool" where
  "vs_inv s \<longleftrightarrow> length (vs_logs s) = MAX_NO_OF_TOPICS"

definition stk :: "'a list \<Rightarrow> 'a list \<Rightarrow> 'a VecStack" where
  "stk xs l = \<lparr>vs_stack = rev xs, vs_logs = l\<rparr>"

lemma stk_contents: "stk (contents s) (vs_logs s) = s"
  by (simp add: stk_def contents_def)

lemma contents_stk [simp]: "contents (stk xs l) = xs"
  by (simp add: stk_def contents_def)

lemma vs_logs_stk [simp]: "vs_logs (stk xs l) = l"
  by (simp add: stk_def)

lemma stk_eq_iff [simp]: "stk xs l = stk ys l' \<longleftrightarrow> xs = ys \<and> l = l'"
  by (auto simp: stk_def)

lemma stack_exhaust:
  obtains xs l where "s = stk xs l"
  using stk_contents [of s] by metis

lemma vs_inv_stk [simp]: "vs_inv (stk xs l) \<longleftrightarrow> length l = MAX_NO_OF_TOPICS"
  by (simp add: vs_inv_def)

lemma stack_size_stk [simp]: "stack_size (stk xs l) = length xs"
  by (simp add: stack_size_def stk_def)

lemma has_stk [simp]: "has (stk xs l) n \<longleftrightarrow> n \<le> length xs"
  by (simp add: has_def stk_def)

lemma peek_stk: "peek (stk xs l) n = (if n < length xs then Ok (xs ! n) else Panic)"
  by (simp add: peek_def stk_def rev_nth)

lemma pop_back_Cons [simp]: "pop_back (stk (x # xs) l) = Ok (x, stk xs l)"
  by (simp add: pop_back_def stk_def)

lemma pop_back_Nil [simp]: "pop_back (stk [] l) = Panic"
  by (simp add: pop_back_def stk_def)

lemma push_stk [simp]: "push (stk xs l) x = stk (x # xs) l"
  by (simp add: push_def stk_def)

lemma peek_top_stk:
  "n \<le> length xs \<Longrightarrow> peek_top (stk xs l) n = Ok (rev (take n xs))"
  by (simp add: peek_top_def stk_def slice_of_def rev_take)

lemma swap_stk:
  assumes "n < length xs"
  shows "swap_with_top (stk xs l) n = Ok (stk (xs[0 := xs ! n, n := xs ! 0]) l)"
proof -
  have "(rev xs)[length xs - n - 1 := rev xs ! (length xs - 1),
                 length xs - 1 := rev xs ! (length xs - n - 1)] = rev (xs[0 := xs ! n, n := xs ! 0])"
    using assms by (intro nth_equalityI) (auto simp: rev_nth nth_list_update nth_update_0)
  then show ?thesis using assms by (simp add: swap_with_top_def stk_def Let_def)
qed

lemma pop_n_loop_stk:
  assumes "k \<le> length xs" "i + k \<le> length l"
  shows "pop_n_loop k i (stk xs l) = Ok (stk (drop k xs) (take i l @ take k xs @ drop (i + k) l))"
  using assms
proof (induction k arbitrary: i xs l)
  case (Suc k)
  then obtain x ys where xs: "xs = x # ys" by (cases xs) auto
  have "\<And>l'. stk ys l\<lparr>vs_logs := l'\<rparr> = stk ys l'" by (simp add: stk_def)
  moreover have "take (Suc i) (l[i := x]) @ take k ys @ drop (Suc i + k) (l[i := x]) =
      take i l @ (x # take k ys) @ drop (i + Suc k) l"
    using Suc.prems by (simp add: take_Suc_conv_app_nth)
  ultimately show ?case using Suc.IH [of ys "Suc i" "l[i := x]"] Suc.prems xs by simp
qed simp

lemma pop_n_stk:
  assumes "n \<le> length xs" "n \<le> MAX_NO_OF_TOPICS" "length l = MAX_NO_OF_TOPICS"
  shows "pop_n (stk xs l) n = Ok (take n xs, stk (drop n xs) (take n xs @ drop n l))"
  using assms by (simp add: pop_n_def pop_n_loop_stk slice_of_def)

interpretation vec_stack: evm_stack contents vs_inv peek pop_back push swap_with_top pop_n stack_size
proof (unfold_locales, goal_cases)
  case (1 s) show ?case by (simp add: stack_size_def contents_def)
next
  case (2 s n) show ?case by (metis peek_stk stk_contents)
next
  case (3 s x xs) then show ?case
    by (metis contents_stk pop_back_Cons stk_contents vs_inv_def vs_logs_stk)
next
  case (4 s) then show ?case by (metis pop_back_Nil stk_contents)
next
  case (5 s x) then show ?case by (simp add: contents_def push_def vs_inv_def)
next
  case (6 n s) then show ?case
    by (metis contents_stk stk_contents swap_stk vs_inv_def vs_logs_stk)
next
  case (7 n s)
  then have "pop_n (stk (contents s) (vs_logs s)) n =
      Ok (take n (contents s), stk (drop n (contents s)) (take n (contents s) @ drop n (vs_logs s)))"
    by (intro pop_n_stk) (auto simp: vs_inv_def)
  then show ?case using 7
    by (intro exI [of _ "stk (drop n (contents s)) (take n (contents s) @ drop n (vs_logs s))"])
      (simp add: stk_contents vs_inv_def)
qed

lemma vs_inv_with_capacity [simp]: "vs_inv (with_capacity z)"
  by (simp add: vs_inv_def with_capacity_def)

lemma with_capacity_stk: "with_capacity z = stk [] (replicate MAX_NO_OF_TOPICS z)"
  by (simp add: with_capacity_def stk_def)

end
