(* ===== verification/EVM_Memory.thy ===== *)
theory EVM_Memory
  imports EVM_Cost
begin

text \<open>
  The byte memory of a frame (\<^verbatim>\<open>cita-executor/core/src/evm/interpreter/memory.rs\<close>): the implementation
  of the trait \<open>Memory\<close> for \<open>Vec<u8>\<close>. Offsets and sizes arrive as 256-bit integers and are
  truncated to 64 bits; a slice out of range is a panic.
\<close>

section \<open>Operations\<close>

definition is_valid_range :: "usize \<Rightarrow> usize \<Rightarrow> bool" where
  "is_valid_range off sz =
     (let overflow = snd (overflowing_add off sz) in 0 < sz \<and> \<not> overflow)"

definition mem_size :: "bytes \<Rightarrow> nat" where
  "mem_size mem = length mem"

definition read_slice :: "bytes \<Rightarrow> u256 \<Rightarrow> u256 \<Rightarrow> ('e, bytes) res" where
  "read_slice mem init_off_u init_size_u =
     (let off = low_u64 init_off_u; sz = low_u64 init_size_u
      in if \<not> is_valid_range off sz then slice_of mem 0 0
         else slice_of mem (unat off) (unat off + unat sz))"

definition mem_read :: "bytes \<Rightarrow> u256 \<Rightarrow> ('e, u256) res" where
  "mem_read mem offset =
     (let off = unat (low_u64 offset) in res_map u256_from_be (slice_of mem off (off + 32)))"

text \<open>The mutable slice \<open>&mut self[off..off + s]\<close> is the pair of its start and its length.\<close>

definition writeable_slice :: "bytes \<Rightarrow> u256 \<Rightarrow> u256 \<Rightarrow> ('e, nat \<times> nat) res" where
  "writeable_slice mem offset sz =
     (let off = low_u64 offset; s = low_u64 sz
      in if \<not> is_valid_range off s then Ok (0, 0)
         else if unat off + unat s \<le> length mem then Ok (unat off, unat s) else Panic)"

definition write_slice :: "bytes \<Rightarrow> u256 \<Rightarrow> bytes \<Rightarrow> ('e, bytes) res" where
  "write_slice mem offset src =
     (if src \<noteq> [] then write_range mem (unat (low_u64 offset)) src else Ok mem)"

definition mem_write :: "bytes \<Rightarrow> u256 \<Rightarrow> u256 \<Rightarrow> ('e, bytes) res" where
  "mem_write mem offset value = write_range mem (unat (low_u64 offset)) (u256_to_be value)"

definition write_byte :: "bytes \<Rightarrow> u256 \<Rightarrow> u256 \<Rightarrow> ('e, bytes) res" where
  "write_byte mem offset value =
     (let off = unat (low_u64 offset); val = low_u64 value
      in if off < length mem then Ok (mem[off := ucast val]) else Panic)"

definition mem_resize :: "bytes \<Rightarrow> nat \<Rightarrow> bytes" where
  "mem_resize mem new_size = take new_size mem @ replicate (new_size - length mem) 0"

definition expand :: "bytes \<Rightarrow> nat \<Rightarrow> bytes" where
  "expand mem sz = (if length mem < sz then mem_resize mem sz else mem)"

section \<open>Lemmas\<close>

lemma length_mem_resize [simp]: "length (mem_resize mem n) = n"
  by (simp add: mem_resize_def)

lemma length_expand [simp]: "length (expand mem n) = max (length mem) n"
  by (simp add: expand_def)

lemma expand_nth:
  "i < length (expand mem n) \<Longrightarrow> expand mem n ! i = (if i < length mem then mem ! i else 0)"
  by (auto simp: expand_def mem_resize_def nth_append)

lemma is_valid_range_iff:
  "is_valid_range off s \<longleftrightarrow> 0 < unat s \<and> unat off + unat s < 2 ^ 64"
  by (auto simp: is_valid_range_def overflowing_add_def word_gt_0 unat_gt_0)

text \<open>An access is in range as soon as the memory reaches its end, as 256-bit arithmetic sees it;
  an access of size zero is always in range, wherever it points.\<close>

definition in_mem :: "bytes \<Rightarrow> u256 \<Rightarrow> u256 \<Rightarrow> bool" where
  "in_mem mem off sz \<longleftrightarrow> sz = 0 \<or> unat off + unat sz \<le> length mem \<and> length mem < 2 ^ 64"

lemma in_mem_low:
  assumes "in_mem mem off sz" "sz \<noteq> 0"
  shows "unat (low_u64 off) = unat off" "unat (low_u64 sz) = unat sz"
    "unat off + unat sz \<le> length mem" "length mem < 2 ^ 64" "is_valid_range (low_u64 off) (low_u64 sz)"
proof -
  show *: "unat off + unat sz \<le> length mem" "length mem < 2 ^ 64"
    using assms by (auto simp: in_mem_def)
  then show "unat (low_u64 off) = unat off" "unat (low_u64 sz) = unat sz"
    by (simp_all add: low_u64_small)
  with * show "is_valid_range (low_u64 off) (low_u64 sz)"
    using assms(2) by (simp add: is_valid_range_iff unat_gt_0)
qed

lemma low_u64_0 [simp]: "low_u64 0 = 0"
  by (simp add: low_u64_def)

lemma read_slice_in_mem:
  assumes "in_mem mem off sz"
  shows "read_slice mem off sz =
      Ok (if sz = 0 then [] else take (unat sz) (drop (unat off) mem))"
proof (cases "sz = 0")
  case True
  then show ?thesis by (simp add: read_slice_def is_valid_range_iff slice_of_def)
next
  case False
  note * = in_mem_low [OF assms False]
  show ?thesis using * False by (simp add: read_slice_def slice_of_def)
qed

lemma writeable_slice_in_mem:
  assumes "in_mem mem off sz"
  shows "writeable_slice mem off sz = Ok (if sz = 0 then (0, 0) else (unat off, unat sz))"
proof (cases "sz = 0")
  case True
  then show ?thesis by (simp add: writeable_slice_def is_valid_range_iff)
next
  case False
  note * = in_mem_low [OF assms False]
  show ?thesis using * False by (simp add: writeable_slice_def)
qed

lemma writeable_slice_bounds:
  "writeable_slice mem off sz = Ok (i, n) \<Longrightarrow> i + n \<le> length mem"
  by (auto simp: writeable_slice_def Let_def split: if_splits)

lemma mem_read_ok:
  assumes "in_mem mem off 32"
  shows "mem_read mem off = Ok (u256_from_be (take 32 (drop (unat off) mem)))"
proof -
  have "(32::u256) \<noteq> 0" by simp
  note * = in_mem_low [OF assms this]
  show ?thesis using * by (simp add: mem_read_def slice_of_def)
qed

lemma mem_write_ok:
  assumes "in_mem mem off 32"
  shows "\<exists>mem'. mem_write mem off v = Ok mem' \<and> length mem' = length mem"
proof -
  have "(32::u256) \<noteq> 0" by simp
  note * = in_mem_low [OF assms this]
  show ?thesis using * by (simp add: mem_write_def write_range_def)
qed

lemma write_byte_ok:
  assumes "in_mem mem off 1"
  shows "\<exists>mem'. write_byte mem off v = Ok mem' \<and> length mem' = length mem"
proof -
  have "(1::u256) \<noteq> 0" by simp
  note * = in_mem_low [OF assms this]
  show ?thesis using * by (simp add: write_byte_def)
qed

lemma write_slice_ok:
  assumes "unat off + length xs \<le> length mem" "length mem < 2 ^ 64"
  shows "write_slice mem off xs = Ok (take (unat off) mem @ xs @ drop (unat off + length xs) mem)"
proof -
  have "unat (low_u64 off) = unat off" using assms by (simp add: low_u64_small)
  then show ?thesis using assms by (simp add: write_slice_def write_range_def)
qed

lemma mem_write_read:
  assumes "mem_write mem off v = Ok mem'"
  shows "mem_read mem' off = Ok v"
  by (simp add: mem_read_def Let_def slice_write_range [OF assms [unfolded mem_write_def], simplified])

end
