(* ===== verification/EVM_Arith.thy ===== *)
theory EVM_Arith
  imports EVM_Stack EVM_Memory "HOL-Library.Signed_Division"
begin

text \<open>
  The instructions that only touch the operand stack (\<open>exec_stack_instruction\<close> of
  \<^verbatim>\<open>cita-executor/core/src/evm/interpreter/mod.rs\<close>): one definition per arithmetic operation, then the
  dispatcher, then their agreement with the integer operations they stand for.
\<close>

section \<open>Constants\<close>

text \<open>\<open>U256([a, b, c, d])\<close>: the little-endian limbs of a constant.\<close>

definition u256_limbs :: "nat \<Rightarrow> nat \<Rightarrow> nat \<Rightarrow> nat \<Rightarrow> u256" where
  "u256_limbs a b c d = of_nat (a + b * 2 ^ 64 + c * 2 ^ 128 + d * 2 ^ 192)"

definition ONE :: u256 where "ONE = u256_limbs 1 0 0 0"
definition TWO :: u256 where "TWO = u256_limbs 2 0 0 0"
definition TWO_POW_5 :: u256 where "TWO_POW_5 = u256_limbs 0x20 0 0 0"
definition TWO_POW_8 :: u256 where "TWO_POW_8 = u256_limbs 0x100 0 0 0"
definition TWO_POW_16 :: u256 where "TWO_POW_16 = u256_limbs 0x10000 0 0 0"
definition TWO_POW_24 :: u256 where "TWO_POW_24 = u256_limbs 0x1000000 0 0 0"
definition TWO_POW_64 :: u256 where "TWO_POW_64 = u256_limbs 0 0x1 0 0"
definition TWO_POW_96 :: u256 where "TWO_POW_96 = u256_limbs 0 0x100000000 0 0"
definition TWO_POW_224 :: u256 where "TWO_POW_224 = u256_limbs 0 0 0 0x100000000"
definition TWO_POW_248 :: u256 where "TWO_POW_248 = u256_limbs 0 0 0 0x100000000000000"

section \<open>Operations\<close>

definition bool_to_u256 :: "bool \<Rightarrow> u256" where
  "bool_to_u256 v = (if v then 1 else 0)"

definition set_sign :: "u256 \<Rightarrow> bool \<Rightarrow> u256" where
  "set_sign v sign = (if sign then fst (overflowing_add (not 0 XOR v) 1) else v)"

definition get_and_reset_sign :: "u256 \<Rightarrow> u256 \<times> bool" where
  "get_and_reset_sign v = (let sign = bit v 255 in (set_sign v sign, sign))"

definition evm_div :: "u256 \<Rightarrow> u256 \<Rightarrow> u256" where
  "evm_div a b =
     (if b \<noteq> 0 then
        if b = ONE then a
        else if b = TWO then drop_bit 1 a
        else if b = TWO_POW_5 then drop_bit 5 a
        else if b = TWO_POW_8 then drop_bit 8 a
        else if b = TWO_POW_16 then drop_bit 16 a
        else if b = TWO_POW_24 then drop_bit 24 a
        else if b = TWO_POW_64 then drop_bit 64 a
        else if b = TWO_POW_96 then drop_bit 96 a
        else if b = TWO_POW_224 then drop_bit 224 a
        else if b = TWO_POW_248 then drop_bit 248 a
        else a div b
      else 0)"

definition evm_mod :: "u256 \<Rightarrow> u256 \<Rightarrow> u256" where
  "evm_mod a b = (if b \<noteq> 0 then a mod b else 0)"

definition evm_sdiv :: "u256 \<Rightarrow> u256 \<Rightarrow> u256" where
  "evm_sdiv x y =
     (let (a, sign_a) = get_and_reset_sign x;
          (b, sign_b) = get_and_reset_sign y;
          min' = push_bit 255 1 - 1
      in if b = 0 then 0
         else if a = min' \<and> b = not 0 then min'
         else set_sign (a div b) (sign_a \<noteq> sign_b))"

definition evm_smod :: "u256 \<Rightarrow> u256 \<Rightarrow> u256" where
  "evm_smod ua ub =
     (let (a, sign_a) = get_and_reset_sign ua;
          b = fst (get_and_reset_sign ub)
      in if b \<noteq> 0 then set_sign (a mod b) sign_a else 0)"

definition evm_exp :: "u256 \<Rightarrow> u256 \<Rightarrow> u256" where
  "evm_exp base expon = base ^ unat expon"

definition evm_slt :: "u256 \<Rightarrow> u256 \<Rightarrow> u256" where
  "evm_slt x y =
     (let (a, neg_a) = get_and_reset_sign x;
          (b, neg_b) = get_and_reset_sign y;
          is_positive_lt = (a < b \<and> \<not> (neg_a \<or> neg_b));
          is_negative_lt = (a > b \<and> (neg_a \<and> neg_b));
          has_different_signs = (neg_a \<and> \<not> neg_b)
      in bool_to_u256 (is_positive_lt \<or> is_negative_lt \<or> has_different_signs))"

definition evm_sgt :: "u256 \<Rightarrow> u256 \<Rightarrow> u256" where
  "evm_sgt x y =
     (let (a, neg_a) = get_and_reset_sign x;
          (b, neg_b) = get_and_reset_sign y;
          is_positive_gt = (a > b \<and> \<not> (neg_a \<or> neg_b));
          is_negative_gt = (a < b \<and> (neg_a \<and> neg_b));
          has_different_signs = (\<not> neg_a \<and> neg_b)
      in bool_to_u256 (is_positive_gt \<or> is_negative_gt \<or> has_different_signs))"

definition evm_byte :: "u256 \<Rightarrow> u256 \<Rightarrow> u256" where
  "evm_byte word' val =
     (if word' < 32 then drop_bit (8 * (31 - unat (low_u64 word'))) val AND 0xff else 0)"

text \<open>\<open>U256::from(U512)\<close> panics on a value that does not fit.\<close>

definition u256_from_u512 :: "u512 \<Rightarrow> ('e, u256) res" where
  "u256_from_u512 x = (if unat x < 2 ^ 256 then Ok (ucast x) else Panic)"

definition evm_addmod :: "u256 \<Rightarrow> u256 \<Rightarrow> u256 \<Rightarrow> ('e, u256) res" where
  "evm_addmod a b c =
     (if c \<noteq> 0 then
        let a5 = (ucast a :: u512);
            r = fst (overflowing_add a5 (ucast b));
            x = r mod ucast c
        in u256_from_u512 x
      else Ok 0)"

definition evm_mulmod :: "u256 \<Rightarrow> u256 \<Rightarrow> u256 \<Rightarrow> ('e, u256) res" where
  "evm_mulmod a b c =
     (if c \<noteq> 0 then
        let a5 = (ucast a :: u512);
            r = fst (overflowing_mul a5 (ucast b));
            x = r mod ucast c
        in u256_from_u512 x
      else Ok 0)"

definition evm_signextend :: "u256 \<Rightarrow> u256 \<Rightarrow> u256" where
  "evm_signextend b number =
     (let bit_position = unat (low_u64 b) * 8 + 7;
          mask = push_bit bit_position 1 - 1
      in if bit number bit_position then number OR not mask else number AND mask)"

section \<open>The dispatcher\<close>

definition un_op :: "(u256 \<Rightarrow> u256) \<Rightarrow> u256 VecStack \<Rightarrow> u256 VecStack evm_result" where
  "un_op f s = res_bind (pop_back s) (\<lambda>(a, s1). Ok (push s1 (f a)))"

definition bin_op :: "(u256 \<Rightarrow> u256 \<Rightarrow> u256) \<Rightarrow> u256 VecStack \<Rightarrow> u256 VecStack evm_result" where
  "bin_op f s =
     res_bind (pop_back s) (\<lambda>(a, s1).
     res_bind (pop_back s1) (\<lambda>(b, s2). Ok (push s2 (f a b))))"

definition tern_op ::
  "(u256 \<Rightarrow> u256 \<Rightarrow> u256 \<Rightarrow> u256 evm_result) \<Rightarrow> u256 VecStack \<Rightarrow> u256 VecStack evm_result" where
  "tern_op f s =
     res_bind (pop_back s) (\<lambda>(a, s1).
     res_bind (pop_back s1) (\<lambda>(b, s2).
     res_bind (pop_back s2) (\<lambda>(c, s3).
     res_bind (f a b c) (\<lambda>v. Ok (push s3 v)))))"

definition exec_DUP :: "Instruction \<Rightarrow> u256 VecStack \<Rightarrow> u256 VecStack evm_result" where
  "exec_DUP i s =
     res_bind (get_dup_position i) (\<lambda>position.
     res_bind (peek s position) (\<lambda>v. Ok (push s v)))"

definition exec_SWAP :: "Instruction \<Rightarrow> u256 VecStack \<Rightarrow> u256 VecStack evm_result" where
  "exec_SWAP i s = res_bind (get_swap_position i) (\<lambda>position. swap_with_top s position)"

definition exec_POP :: "u256 VecStack \<Rightarrow> u256 VecStack evm_result" where
  "exec_POP s = res_bind (pop_back s) (\<lambda>(_, s1). Ok s1)"

text \<open>With a byte number of 32 or more the operand stays on the stack as it is.\<close>

definition exec_SIGNEXTEND :: "u256 VecStack \<Rightarrow> u256 VecStack evm_result" where
  "exec_SIGNEXTEND s =
     res_bind (pop_back s) (\<lambda>(b, s1).
     if b < 32 then
       res_bind (pop_back s1) (\<lambda>(number, s2). Ok (push s2 (evm_signextend b number)))
     else Ok s1)"

definition exec_stack_instruction :: "Instruction \<Rightarrow> u256 VecStack \<Rightarrow> u256 VecStack evm_result" where
  "exec_stack_instruction i s =
     (if DUP1 \<le> i \<and> i \<le> DUP16 then exec_DUP i s
      else if SWAP1 \<le> i \<and> i \<le> SWAP16 then exec_SWAP i s
      else if i = POP then exec_POP s
      else if i = ADD then bin_op (\<lambda>a b. fst (overflowing_add a b)) s
      else if i = MUL then bin_op (\<lambda>a b. fst (overflowing_mul a b)) s
      else if i = SUB then bin_op (\<lambda>a b. fst (overflowing_sub a b)) s
      else if i = DIV then bin_op evm_div s
      else if i = MOD then bin_op evm_mod s
      else if i = SDIV then bin_op evm_sdiv s
      else if i = SMOD then bin_op evm_smod s
      else if i = EXP then bin_op evm_exp s
      else if i = NOT_op then un_op not s
      else if i = LT then bin_op (\<lambda>a b. bool_to_u256 (a < b)) s
      else if i = SLT then bin_op evm_slt s
      else if i = GT then bin_op (\<lambda>a b. bool_to_u256 (a > b)) s
      else if i = SGT then bin_op evm_sgt s
      else if i = EQ then bin_op (\<lambda>a b. bool_to_u256 (a = b)) s
      else if i = ISZERO then un_op (\<lambda>a. bool_to_u256 (a = 0)) s
      else if i = AND_op then bin_op (AND) s
      else if i = OR_op then bin_op (OR) s
      else if i = XOR_op then bin_op (XOR) s
      else if i = BYTE then bin_op evm_byte s
      else if i = ADDMOD then tern_op evm_addmod s
      else if i = MULMOD then tern_op evm_mulmod s
      else if i = SIGNEXTEND then exec_SIGNEXTEND s
      else Err (BadInstruction i))"

section \<open>What the operations compute\<close>

lemma evm_div_eq: "evm_div a b = a div b"
proof -
  have d: "drop_bit n a = a div 2 ^ n" for n
    by (rule drop_bit_eq_div)
  show ?thesis
    by (simp add: evm_div_def d ONE_def TWO_def TWO_POW_5_def TWO_POW_8_def TWO_POW_16_def
        TWO_POW_24_def TWO_POW_64_def TWO_POW_96_def TWO_POW_224_def TWO_POW_248_def u256_limbs_def)
qed

lemma set_sign_eq: "set_sign v s = (if s then - v else v)"
proof -
  have "not 0 XOR v = not v" by simp
  moreover have "not v + 1 = - v" by (rule minus_eq_not_plus_1 [symmetric])
  ultimately show ?thesis by (simp only: set_sign_def overflowing_add_def fst_conv)
qed

lemma sign_bit: "bit (v :: u256) 255 \<longleftrightarrow> sint v < 0"
  by (simp add: bit_last_iff [of v, simplified])

lemma get_and_reset_sign_eq: "get_and_reset_sign v = (word_of_int \<bar>sint v\<bar>, sint v < 0)"
  by (simp add: get_and_reset_sign_def Let_def sign_bit set_sign_eq abs_if)

lemma sint_bounds: "- (2 ^ 255) \<le> sint (v :: u256)" "sint v < 2 ^ 255"
  using sint_range_size [of v] by (simp_all add: word_size)

lemma uint_abs: "uint (word_of_int \<bar>sint v\<bar> :: u256) = \<bar>sint (v :: u256)\<bar>"
  using sint_bounds [of v] by (simp add: uint_word_of_int)

lemma abs_word_less: "(word_of_int \<bar>sint x\<bar> :: u256) < word_of_int \<bar>sint y\<bar> \<longleftrightarrow> \<bar>sint (x :: u256)\<bar> < \<bar>sint (y :: u256)\<bar>"
  by (simp add: word_less_def uint_abs)

lemma evm_slt_eq: "evm_slt x y = bool_to_u256 (sint x < sint y)"
  unfolding evm_slt_def get_and_reset_sign_eq Let_def prod.case abs_word_less
  by (rule arg_cong [where f = bool_to_u256]) auto

lemma evm_sgt_eq: "evm_sgt x y = bool_to_u256 (sint x > sint y)"
  unfolding evm_sgt_def get_and_reset_sign_eq Let_def prod.case abs_word_less
  by (rule arg_cong [where f = bool_to_u256]) auto

lemma abs_word_div:
  "(word_of_int \<bar>sint (x :: u256)\<bar> :: u256) div word_of_int \<bar>sint (y :: u256)\<bar> = word_of_int (\<bar>sint x\<bar> div \<bar>sint y\<bar>)"
  by (rule word_uint_eqI) (metis uint_abs uint_div word_of_int_uint)

lemma abs_word_mod:
  "(word_of_int \<bar>sint (x :: u256)\<bar> :: u256) mod word_of_int \<bar>sint (y :: u256)\<bar> = word_of_int (\<bar>sint x\<bar> mod \<bar>sint y\<bar>)"
  by (rule word_uint_eqI) (metis uint_abs uint_mod word_of_int_uint)

lemma abs_word_zero: "(word_of_int \<bar>sint (x :: u256)\<bar> :: u256) = 0 \<longleftrightarrow> sint x = 0"
  by (metis abs_eq_0 uint_abs unsigned_0 word_of_int_0)

lemma abs_not_max: "(word_of_int \<bar>sint (x :: u256)\<bar> :: u256) \<noteq> not 0"
proof
  assume "(word_of_int \<bar>sint x\<bar> :: u256) = not 0"
  then have "\<bar>sint x\<bar> = uint (- 1 :: u256)" by (metis uint_abs bit.compl_zero)
  then show False using sint_bounds [of x] by (auto simp: unsigned_minus_1_eq_mask mask_eq_exp_minus_1 abs_if split: if_splits)
qed

lemma evm_sdiv_eq: "evm_sdiv x y = word_of_int (sint x sdiv sint y)"
  by (auto simp: evm_sdiv_def get_and_reset_sign_eq abs_word_zero abs_word_div abs_not_max set_sign_eq
      signed_divide_int_def sgn_if)

lemma evm_smod_eq: "evm_smod x y = word_of_int (if sint y = 0 then 0 else sint x smod sint y)"
proof -
  have "sint x smod sint y = (if sint x < 0 then - (\<bar>sint x\<bar> mod \<bar>sint y\<bar>) else \<bar>sint x\<bar> mod \<bar>sint y\<bar>)" if "sint y \<noteq> 0"
    using that by (auto simp: signed_modulo_int_def signed_divide_int_def minus_div_mult_eq_mod [symmetric] sgn_if abs_if)
  then show ?thesis
    by (auto simp: evm_smod_def get_and_reset_sign_eq abs_word_zero abs_word_mod set_sign_eq)
qed

lemma unat_u256: "unat (w :: u256) < 2 ^ 256"
  using unsigned_less [of w] by simp

lemma unat_u512 [simp]: "unat (ucast (a :: u256) :: u512) = unat a"
  by (simp add: unat_ucast_up)

lemma u256_from_u512_mod:
  assumes "c \<noteq> (0 :: u256)"
  shows "u256_from_u512 (r mod ucast c) = Ok (of_nat (unat r mod unat c))"
proof -
  have "unat (r mod ucast c) = unat r mod unat c" by (simp add: unat_mod)
  moreover have "unat r mod unat c < 2 ^ 256"
    using assms unsigned_less [of c] by (intro less_trans [OF mod_less_divisor]) (auto simp: unat_gt_0)
  moreover have "(ucast (r mod ucast c) :: u256) = of_nat (unat (r mod ucast c))"
    by (simp only: of_nat_unat)
  ultimately show ?thesis by (simp only: u256_from_u512_def if_True)
qed

lemma evm_addmod_eq:
  "evm_addmod a b c = Ok (if c = 0 then 0 else of_nat ((unat a + unat b) mod unat c))"
proof -
  have "unat (ucast a + ucast b :: u512) = unat a + unat b"
    using unat_u256 [of a] unat_u256 [of b] by (subst unat_add_small) auto
  then show ?thesis
    by (simp add: evm_addmod_def overflowing_add_def u256_from_u512_mod)
qed

lemma evm_mulmod_eq:
  "evm_mulmod a b c = Ok (if c = 0 then 0 else of_nat ((unat a * unat b) mod unat c))"
proof -
  have "unat (ucast a * ucast b :: u512) = unat a * unat b"
    by (rule unat_wide_mul) simp
  then show ?thesis
    by (simp add: evm_mulmod_def overflowing_mul_def u256_from_u512_mod)
qed

lemma evm_byte_eq:
  "evm_byte n v = (if n < 32 then ucast (u256_to_be v ! unat n) else 0)"
proof (cases "n < 32")
  case True
  then have n: "unat n < 32" by (simp add: word_less_nat_alt)
  have l: "unat (low_u64 n) = unat n" using n by (simp add: low_u64_small)
  have m: "(0xff :: u256) = mask 8" by (simp add: mask_eq_exp_minus_1)
  have p: "(256::nat) ^ (31 - unat n) = 2 ^ (8 * (31 - unat n))" by (simp add: power_mult)
  have "unat (evm_byte n v) = unat v div 2 ^ (8 * (31 - unat n)) mod 256"
    unfolding evm_byte_def if_P [OF True] l m take_bit_eq_mask [symmetric]
    by (simp add: unsigned_take_bit_eq unat_drop_bit take_bit_eq_mod unat_mod)
  moreover have "unat (ucast (u256_to_be v ! unat n) :: u256) = unat v div 256 ^ (31 - unat n) mod 256"
    using n by (simp add: u256_to_be_def nat_be_nth unat_ucast_up unat_byte_of_nat)
  ultimately show ?thesis using True by (simp add: p word_unat_eq_iff)
qed (simp add: evm_byte_def)

lemma evm_signextend_eq:
  assumes "b < 32"
  shows "evm_signextend b number = signed_take_bit (8 * unat b + 7) number"
proof -
  have b: "unat (low_u64 b) = unat b" using assms by (simp add: low_u64_small word_less_nat_alt)
  have m: "push_bit n 1 - 1 = (mask n :: u256)" for n by (simp add: mask_eq_decr_exp push_bit_eq_mult)
  show ?thesis
    unfolding evm_signextend_def Let_def b m
    by (rule bit_word_eqI) (auto simp: bit_simps min_def mult.commute not_less_eq le_less_Suc_eq)
qed

section \<open>Stack discipline\<close>

text \<open>An operation that meets its arity returns, and leaves the stack with as many elements as the
  instruction table says.\<close>

definition stack_ok :: "Instruction \<Rightarrow> u256 list \<Rightarrow> u256 list \<Rightarrow> u256 VecStack evm_result \<Rightarrow> bool" where
  "stack_ok i xs l r \<longleftrightarrow>
     (\<exists>ys. r = Ok (stk ys l) \<and>
        length ys + info_args (INSTRUCTIONS i) = length xs + info_ret (INSTRUCTIONS i))"

lemma list_len_1: "Suc 0 \<le> length xs \<longleftrightarrow> (\<exists>a ys. xs = a # ys)"
  by (cases xs) auto

lemma list_len_2: "2 \<le> length xs \<longleftrightarrow> (\<exists>a b ys. xs = a # b # ys)"
  by (cases xs; cases "tl xs") auto

lemma list_len_3: "3 \<le> length xs \<longleftrightarrow> (\<exists>a b c ys. xs = a # b # c # ys)"
  by (cases xs; cases "tl xs"; cases "tl (tl xs)") auto

lemma un_op_ok:
  "has_arity (INSTRUCTIONS i) 1 1 \<Longrightarrow> 1 \<le> length xs \<Longrightarrow> stack_ok i xs l (un_op f (stk xs l))"
  by (auto simp: stack_ok_def un_op_def has_arity_def list_len_1)

lemma bin_op_ok:
  "has_arity (INSTRUCTIONS i) 2 1 \<Longrightarrow> 2 \<le> length xs \<Longrightarrow> stack_ok i xs l (bin_op f (stk xs l))"
  by (auto simp: stack_ok_def bin_op_def has_arity_def list_len_2)

lemma tern_op_ok:
  assumes "has_arity (INSTRUCTIONS i) 3 1" "3 \<le> length xs" "\<And>a b c. \<exists>v. f a b c = Ok v"
  shows "stack_ok i xs l (tern_op f (stk xs l))"
proof -
  obtain a b c ys where xs: "xs = a # b # c # ys" using assms(2) by (auto simp: list_len_3)
  obtain v where "f a b c = Ok v" using assms(3) by blast
  then show ?thesis using assms(1) by (auto simp: stack_ok_def tern_op_def has_arity_def xs)
qed

lemma DUP_ok:
  assumes "DUP1 \<le> i \<and> i \<le> DUP16" "info_args (INSTRUCTIONS i) \<le> length xs"
  shows "stack_ok i xs l (exec_DUP i (stk xs l))"
proof -
  obtain n where n: "get_dup_position i = (Ok n :: nat evm_result)"
    using assms(1) by (auto simp: get_dup_position_def)
  then show ?thesis using dup_arity [OF n] assms(2)
    by (auto simp: stack_ok_def exec_DUP_def has_arity_def peek_stk)
qed

lemma SWAP_ok:
  assumes "SWAP1 \<le> i \<and> i \<le> SWAP16" "info_args (INSTRUCTIONS i) \<le> length xs"
  shows "stack_ok i xs l (exec_SWAP i (stk xs l))"
proof -
  obtain n where n: "get_swap_position i = (Ok n :: nat evm_result)"
    using assms(1) by (auto simp: get_swap_position_def)
  then show ?thesis using swap_arity [OF n] assms(2)
    by (auto simp: stack_ok_def exec_SWAP_def has_arity_def swap_stk)
qed

lemma POP_ok: "1 \<le> length xs \<Longrightarrow> stack_ok POP xs l (exec_POP (stk xs l))"
  by (auto simp: stack_ok_def exec_POP_def list_len_1)

lemma SIGNEXTEND_ok:
  assumes "2 \<le> length xs"
  shows "stack_ok SIGNEXTEND xs l (exec_SIGNEXTEND (stk xs l))"
proof -
  obtain a b ys where "xs = a # b # ys" using assms by (auto simp: list_len_2)
  then show ?thesis by (auto simp: stack_ok_def exec_SIGNEXTEND_def simp del: res_bind_eq_Ok)
qed

lemma stack_ok_ifI:
  "(c \<Longrightarrow> stack_ok i xs l a) \<Longrightarrow> (\<not> c \<Longrightarrow> stack_ok i xs l b) \<Longrightarrow> stack_ok i xs l (if c then a else b)"
  by simp

text \<open>The instructions the dispatcher knows.\<close>

definition is_stack_instruction :: "Instruction \<Rightarrow> bool" where
  "is_stack_instruction i \<longleftrightarrow> DUP1 \<le> i \<and> i \<le> DUP16 \<or> SWAP1 \<le> i \<and> i \<le> SWAP16 \<or>
     i \<in> {POP, ADD, MUL, SUB, DIV, MOD, SDIV, SMOD, EXP, NOT_op, LT, SLT, GT, SGT, EQ, ISZERO,
           AND_op, OR_op, XOR_op, BYTE, ADDMOD, MULMOD, SIGNEXTEND}"

lemma exec_stack_instruction_ok:
  assumes "is_stack_instruction i" "info_args (INSTRUCTIONS i) \<le> length xs"
  shows "stack_ok i xs l (exec_stack_instruction i (stk xs l))"
proof -
  have am: "\<exists>v. evm_addmod a b c = Ok v" "\<exists>v. evm_mulmod a b c = Ok v" for a b c
    by (simp_all add: evm_addmod_eq evm_mulmod_eq)
  show ?thesis
    unfolding exec_stack_instruction_def
    apply (intro stack_ok_ifI)
    subgoal using assms(2) by (rule DUP_ok [rotated])
    subgoal using assms(2) by (rule SWAP_ok [rotated])
    subgoal using assms(2) by (simp add: POP_ok)
    subgoal premises p using assms(2) unfolding p by (intro bin_op_ok) (simp_all add: has_arity_def)
    subgoal premises p using assms(2) unfolding p by (intro bin_op_ok) (simp_all add: has_arity_def)
    subgoal premises p using assms(2) unfolding p by (intro bin_op_ok) (simp_all add: has_arity_def)
    subgoal premises p using assms(2) unfolding p by (intro bin_op_ok) (simp_all add: has_arity_def)
    subgoal premises p using assms(2) unfolding p by (intro bin_op_ok) (simp_all add: has_arity_def)
    subgoal premises p using assms(2) unfolding p by (intro bin_op_ok) (simp_all add: has_arity_def)
    subgoal premises p using assms(2) unfolding p by (intro bin_op_ok) (simp_all add: has_arity_def)
    subgoal premises p using assms(2) unfolding p by (intro bin_op_ok) (simp_all add: has_arity_def)
    subgoal premises p using assms(2) unfolding p by (intro un_op_ok) (simp_all add: has_arity_def)
    subgoal premises p using assms(2) unfolding p by (intro bin_op_ok) (simp_all add: has_arity_def)
    subgoal premises p using assms(2) unfolding p by (intro bin_op_ok) (simp_all add: has_arity_def)
    subgoal premises p using assms(2) unfolding p by (intro bin_op_ok) (simp_all add: has_arity_def)
    subgoal premises p using assms(2) unfolding p by (intro bin_op_ok) (simp_all add: has_arity_def)
    subgoal premises p using assms(2) unfolding p by (intro bin_op_ok) (simp_all add: has_arity_def)
    subgoal premises p using assms(2) unfolding p by (intro un_op_ok) (simp_all add: has_arity_def)
    subgoal premises p using assms(2) unfolding p by (intro bin_op_ok) (simp_all add: has_arity_def)
    subgoal premises p using assms(2) unfolding p by (intro bin_op_ok) (simp_all add: has_arity_def)
    subgoal premises p using assms(2) unfolding p by (intro bin_op_ok) (simp_all add: has_arity_def)
    subgoal premises p using assms(2) unfolding p by (intro bin_op_ok) (simp_all add: has_arity_def)
    subgoal premises p using assms(2) unfolding p by (intro tern_op_ok am) (simp_all add: has_arity_def)
    subgoal premises p using assms(2) unfolding p by (intro tern_op_ok am) (simp_all add: has_arity_def)
    subgoal premises p using assms(2) unfolding p by (intro SIGNEXTEND_ok) simp
    subgoal using assms(1) by (auto simp: is_stack_instruction_def)
    done
qed

end
