(* ===== verification/State_Error.thy ===== *)
theory State_Error
  imports Cita_Prelude
begin

text \<open>
  Computations over a mutable state that may fail: the shape of every \<open>&mut self\<close> method that
  returns a \<open>Result\<close>. The state survives an error, as it does in the source. \<open>wp m Q E s\<close> says
  that \<open>m\<close> started in \<open>s\<close> returns, with \<open>Q\<close> on success and \<open>E\<close> on an error; its equations are
  the verification-condition generator of the component proofs.
\<close>

named_theorems wp_rules

type_synonym ('s, 'x, 'a) sm = "'s \<Rightarrow> ('x, 'a) res \<times> 's"

text \<open>A trie error is carried by its message.\<close>

type_synonym 'a trie_result = "(string, 'a) res"

definition sm_ret :: "'a \<Rightarrow> ('s, 'x, 'a) sm" where
  "sm_ret a = (\<lambda>s. (Ok a, s))"

definition sm_err :: "'x \<Rightarrow> ('s, 'x, 'a) sm" where
  "sm_err e = (\<lambda>s. (Err e, s))"

definition sm_bind :: "('s, 'x, 'a) sm \<Rightarrow> ('a \<Rightarrow> ('s, 'x, 'b) sm) \<Rightarrow> ('s, 'x, 'b) sm" where
  "sm_bind m f = (\<lambda>s. case m s of
     (Ok a, s') \<Rightarrow> f a s'
   | (Err e, s') \<Rightarrow> (Err e, s')
   | (Panic, s') \<Rightarrow> (Panic, s')
   | (Diverge, s') \<Rightarrow> (Diverge, s'))"

definition sm_lift :: "('x, 'a) res \<Rightarrow> ('s, 'x, 'a) sm" where
  "sm_lift r = (\<lambda>s. (r, s))"

definition sm_get :: "('s \<Rightarrow> 'a) \<Rightarrow> ('s, 'x, 'a) sm" where
  "sm_get f = (\<lambda>s. (Ok (f s), s))"

definition sm_modify :: "('s \<Rightarrow> 's) \<Rightarrow> ('s, 'x, unit) sm" where
  "sm_modify f = (\<lambda>s. (Ok (), f s))"

definition wp :: "('s, 'x, 'a) sm \<Rightarrow> ('a \<Rightarrow> 's \<Rightarrow> bool) \<Rightarrow> ('x \<Rightarrow> 's \<Rightarrow> bool) \<Rightarrow> 's \<Rightarrow> bool" where
  "wp m Q E s = (case m s of
     (Ok a, s') \<Rightarrow> Q a s'
   | (Err e, s') \<Rightarrow> E e s'
   | (Panic, s') \<Rightarrow> False
   | (Diverge, s') \<Rightarrow> False)"

lemma wp_ret [wp_rules]: "wp (sm_ret a) Q E s = Q a s"
  by (simp add: wp_def sm_ret_def)

lemma wp_err [wp_rules]: "wp (sm_err e) Q E s = E e s"
  by (simp add: wp_def sm_err_def)

lemma wp_bind [wp_rules]: "wp (sm_bind m f) Q E s = wp m (\<lambda>a. wp (f a) Q E) E s"
  by (auto simp: wp_def sm_bind_def split: prod.splits res.splits)

lemma wp_lift [wp_rules]:
  "wp (sm_lift r) Q E s = (case r of Ok a \<Rightarrow> Q a s | Err e \<Rightarrow> E e s | Panic \<Rightarrow> False | Diverge \<Rightarrow> False)"
  by (simp add: wp_def sm_lift_def)

lemma wp_get [wp_rules]: "wp (sm_get f) Q E s = Q (f s) s"
  by (simp add: wp_def sm_get_def)

lemma wp_modify [wp_rules]: "wp (sm_modify f) Q E s = Q () (f s)"
  by (simp add: wp_def sm_modify_def)

lemma wp_if: "wp (if b then m else n) Q E s = (if b then wp m Q E s else wp n Q E s)"
  by simp

lemma wp_mono:
  assumes "wp m Q E s" "\<And>a s'. Q a s' \<Longrightarrow> Q' a s'" "\<And>e s'. E e s' \<Longrightarrow> E' e s'"
  shows "wp m Q' E' s"
  using assms by (auto simp: wp_def split: prod.splits res.splits)

lemma wp_conj:
  "wp m Q E s \<Longrightarrow> wp m Q' E' s \<Longrightarrow> wp m (\<lambda>a s. Q a s \<and> Q' a s) (\<lambda>e s. E e s \<and> E' e s) s"
  by (auto simp: wp_def split: prod.splits res.splits)

lemma wp_liftI:
  assumes "r \<noteq> Panic" "r \<noteq> Diverge" "\<And>a. r = Ok a \<Longrightarrow> Q a s" "\<And>e. r = Err e \<Longrightarrow> E e s"
  shows "wp (sm_lift r) Q E s"
  using assms by (cases r) (auto simp: wp_lift)

lemma sm_bind_ret [simp]: "sm_bind (sm_ret a) f = f a"
  by (simp add: sm_bind_def sm_ret_def)

lemma sm_bind_assoc: "sm_bind (sm_bind m f) g = sm_bind m (\<lambda>x. sm_bind (f x) g)"
  by (auto simp: sm_bind_def fun_eq_iff split: prod.splits res.splits)

text \<open>Evaluation of a computation at a concrete state.\<close>

lemmas sm_run = sm_ret_def sm_err_def sm_bind_def sm_lift_def sm_get_def sm_modify_def

end
