(* ===== verification/EVM_Ext.thy ===== *)
theory EVM_Ext
  imports EVM_Stack EVM_Memory State_Error
begin

text \<open>
  What a frame of execution sees of the outside: its parameters (\<^verbatim>\<open>action_params.rs\<close>), the block
  environment (\<^verbatim>\<open>env_info.rs\<close>), the kinds of call (\<^verbatim>\<open>executed.rs\<close>) and the trait \<open>Ext\<close>
  (\<^verbatim>\<open>evm/ext.rs\<close>). The trait is a record of operations over a state \<open>'e\<close>; a method that takes
  \<open>&self\<close> still returns a state, since the implementation fills caches behind shared references.
  The locale \<open>ext_contract\<close> is what the interpreter relies on.
\<close>

section \<open>Call types\<close>

datatype CallType = CT_None | CT_Call | CT_CallCode | CT_DelegateCall

text \<open>The integer the RLP encoding carries, and the decoder on that integer.\<close>

primrec CallType_rlp_append :: "CallType \<Rightarrow> u32" where
  "CallType_rlp_append CT_None = 0"
| "CallType_rlp_append CT_Call = 1"
| "CallType_rlp_append CT_CallCode = 2"
| "CallType_rlp_append CT_DelegateCall = 3"

definition CallType_decode :: "u8 \<Rightarrow> (string, CallType) res" where
  "CallType_decode v =
     (if v = 0 then Ok CT_None
      else if v = 1 then Ok CT_Call
      else if v = 2 then Ok CT_CallCode
      else if v = 3 then Ok CT_DelegateCall
      else Err ''Invalid value of CallType item'')"

lemma CallType_decode_append: "CallType_decode (ucast (CallType_rlp_append t)) = Ok t"
  by (cases t) (simp_all add: CallType_decode_def)

lemma CallType_append_decode:
  "CallType_decode v = Ok t \<Longrightarrow> CallType_rlp_append t = ucast v"
  by (auto simp: CallType_decode_def split: if_splits)

section \<open>Parameters and environment\<close>

datatype ActionValue = Transfer u256 | Apparent u256

primrec action_value :: "ActionValue \<Rightarrow> u256" where
  "action_value (Transfer x) = x"
| "action_value (Apparent x) = x"

record ActionParams =
  ap_code_address :: address
  ap_code_hash :: h256
  ap_address :: address
  ap_sender :: address
  ap_origin :: address
  ap_gas :: u256
  ap_gas_price :: u256
  ap_value :: ActionValue
  ap_code :: "bytes option"
  ap_data :: "bytes option"
  ap_call_type :: CallType

text \<open>\<open>HASH_EMPTY\<close> is a constant of the \<open>util\<close> crate.\<close>

definition ActionParams_default :: "h256 \<Rightarrow> ActionParams" where
  "ActionParams_default HASH_EMPTY = \<lparr>
     ap_code_address = 0, ap_code_hash = HASH_EMPTY, ap_address = 0, ap_sender = 0, ap_origin = 0,
     ap_gas = 0, ap_gas_price = 0, ap_value = Transfer 0, ap_code = None, ap_data = None,
     ap_call_type = CT_None\<rparr>"

record EnvInfo =
  ei_number :: u64
  ei_author :: address
  ei_timestamp :: u64
  ei_difficulty :: u256
  ei_gas_limit :: u256
  ei_last_hashes :: "h256 list"
  ei_gas_used :: u256
  ei_account_gas_limit :: u256

definition EnvInfo_default :: EnvInfo where
  "EnvInfo_default = \<lparr>
     ei_number = 0, ei_author = 0, ei_timestamp = 0, ei_difficulty = 0,
     ei_gas_limit = ucast (- 1 :: u64), ei_last_hashes = [], ei_gas_used = 0,
     ei_account_gas_limit = 0\<rparr>"

section \<open>The trait\<close>

datatype ContractCreateResult = Created address u256 | Create_Failed

datatype MessageCallResult = Success u256 | Call_Failed

record 'e Ext =
  ext_storage_at :: "h256 \<Rightarrow> 'e \<Rightarrow> h256 trie_result \<times> 'e"
  ext_set_storage :: "h256 \<Rightarrow> h256 \<Rightarrow> 'e \<Rightarrow> unit trie_result \<times> 'e"
  ext_exists :: "address \<Rightarrow> 'e \<Rightarrow> bool trie_result \<times> 'e"
  ext_exists_and_not_null :: "address \<Rightarrow> 'e \<Rightarrow> bool trie_result \<times> 'e"
  ext_origin_balance :: "'e \<Rightarrow> u256 trie_result \<times> 'e"
  ext_balance :: "address \<Rightarrow> 'e \<Rightarrow> u256 trie_result \<times> 'e"
  ext_blockhash :: "u256 \<Rightarrow> 'e \<Rightarrow> h256 evm_result \<times> 'e"
  ext_create :: "u256 \<Rightarrow> u256 \<Rightarrow> bytes \<Rightarrow> 'e \<Rightarrow> ContractCreateResult evm_result \<times> 'e"
  ext_call :: "u256 \<Rightarrow> address \<Rightarrow> address \<Rightarrow> u256 option \<Rightarrow> bytes \<Rightarrow> address \<Rightarrow> bytes \<Rightarrow> CallType \<Rightarrow>
               'e \<Rightarrow> (MessageCallResult \<times> bytes) evm_result \<times> 'e"
  ext_extcode :: "address \<Rightarrow> 'e \<Rightarrow> bytes trie_result \<times> 'e"
  ext_extcodesize :: "address \<Rightarrow> 'e \<Rightarrow> nat trie_result \<times> 'e"
  ext_log :: "h256 list \<Rightarrow> bytes \<Rightarrow> 'e \<Rightarrow> unit evm_result \<times> 'e"
  ext_suicide :: "address \<Rightarrow> 'e \<Rightarrow> unit trie_result \<times> 'e"
  ext_schedule :: Schedule
  ext_env_info :: EnvInfo
  ext_depth :: nat
  ext_inc_sstore_clears :: "'e \<Rightarrow> unit evm_result \<times> 'e"
  ext_trace_prepare_execute :: "nat \<Rightarrow> u8 \<Rightarrow> u256 \<Rightarrow> 'e \<Rightarrow> bool evm_result \<times> 'e"
  ext_trace_executed :: "u256 \<Rightarrow> u256 list \<Rightarrow> (nat \<times> bytes) option \<Rightarrow> (u256 \<times> u256) option \<Rightarrow>
                         'e \<Rightarrow> unit evm_result \<times> 'e"

text \<open>\<open>impl From<Box<TrieError>> for Error\<close>: the conversion the operator \<open>?\<close> applies.\<close>

primrec from_trie :: "'a trie_result \<Rightarrow> 'a evm_result" where
  "from_trie (Ok a) = Ok a"
| "from_trie (Err e) = Err (Internal (''Internal error: '' @ e))"
| "from_trie Panic = Panic"
| "from_trie Diverge = Diverge"

section \<open>The contract the interpreter relies on\<close>

lemma returns_from_trie [simp]: "returns (from_trie r) \<longleftrightarrow> returns r"
  by (cases r) auto

text \<open>An operation keeps the invariant of the state and the number of storage clears, whatever it
  returns, and it does return.\<close>

definition keeps :: "('s \<Rightarrow> bool) \<Rightarrow> ('s \<Rightarrow> nat) \<Rightarrow> ('s \<Rightarrow> ('x, 'a) res \<times> 's) \<Rightarrow> bool" where
  "keeps good clears f \<longleftrightarrow>
     (\<forall>s. good s \<longrightarrow> returns (fst (f s)) \<and> good (snd (f s)) \<and> clears (snd (f s)) \<le> clears s)"

text \<open>Gas only goes down, and every storage clear is paid for: what a nested call adds to the count
  of clears is at most the gas it spends.\<close>

locale ext_contract =
  fixes X :: "'e Ext" and good :: "'e \<Rightarrow> bool" and clears :: "'e \<Rightarrow> nat"
  assumes sched: "schedule_ok (ext_schedule X)"
    and storage_at: "keeps good clears (ext_storage_at X k)"
    and set_storage: "keeps good clears (ext_set_storage X k v)"
    and exists: "keeps good clears (ext_exists X a)"
    and exists_and_not_null: "keeps good clears (ext_exists_and_not_null X a)"
    and origin_balance: "keeps good clears (ext_origin_balance X)"
    and balance: "keeps good clears (ext_balance X a)"
    and blockhash: "keeps good clears (ext_blockhash X n)"
    and extcode: "keeps good clears (ext_extcode X a)"
    and extcode_size: "good e \<Longrightarrow> ext_extcode X a e = (Ok c, e') \<Longrightarrow> length c < 2 ^ 64"
    and extcodesize: "keeps good clears (ext_extcodesize X a)"
    and log: "keeps good clears (ext_log X ts d)"
    and suicide: "keeps good clears (ext_suicide X a)"
    and inc_sstore_clears: "good e \<Longrightarrow> clears e < 2 ^ 256 - 1 \<Longrightarrow>
          \<exists>e'. ext_inc_sstore_clears X e = (Ok (), e') \<and> good e' \<and> clears e' = Suc (clears e)"
    and create: "good e \<Longrightarrow> ext_depth X < max_depth (ext_schedule X) \<Longrightarrow> unat g < 2 ^ 64 \<Longrightarrow>
          Suc (clears e + unat g) < 2 ^ 128 \<Longrightarrow> length c < 2 ^ 64 \<Longrightarrow>
          (\<exists>a gl e'. ext_create X g v c e = (Ok (Created a gl), e') \<and> good e' \<and>
             unat gl \<le> unat g \<and> clears e' + unat gl \<le> Suc (clears e + unat g)) \<or>
          (\<exists>e'. ext_create X g v c e = (Ok Create_Failed, e') \<and> good e' \<and>
             clears e' \<le> Suc (clears e + unat g))"
    and call: "good e \<Longrightarrow> ext_depth X < max_depth (ext_schedule X) \<Longrightarrow> unat g < 2 ^ 64 \<Longrightarrow>
          clears e + unat g < 2 ^ 128 \<Longrightarrow> length d < 2 ^ 64 \<Longrightarrow>
          (\<exists>gl out' e'. ext_call X g s r ov d ca out t e = (Ok (Success gl, out'), e') \<and> good e' \<and>
             length out' = length out \<and> unat gl \<le> unat g \<and>
             clears e' + unat gl \<le> clears e + unat g) \<or>
          (\<exists>out' e'. ext_call X g s r ov d ca out t e = (Ok (Call_Failed, out'), e') \<and> good e' \<and>
             length out' = length out \<and> clears e' \<le> clears e + unat g)"
    and no_trace: "good e \<Longrightarrow>
          \<exists>e'. ext_trace_prepare_execute X pc i gc e = (Ok False, e') \<and> good e' \<and> clears e' \<le> clears e"

end
