(* ===== verification/EVM_Gasometer.thy ===== *)
theory EVM_Gasometer
  imports EVM_Ext
begin

text \<open>
  The gasometer (\<^verbatim>\<open>cita-executor/core/src/evm/interpreter/gasometer.rs\<close>): how much gas and memory an
  instruction needs, given the stack and the size of the memory, for a cost type of any width.
\<close>

section \<open>Data\<close>

datatype 'g Request =
  Req_Gas 'g
| GasMem 'g 'g
| GasMemProvide 'g 'g "u256 option"
| GasMemCopy 'g 'g 'g

record 'g InstructionRequirements =
  gas_cost :: 'g
  provide_gas :: "'g option"
  memory_total_gas :: 'g
  memory_required_size :: nat

record 'g Gasometer =
  current_gas :: 'g
  current_mem_gas :: 'g

definition Gasometer_new :: "'c::len word \<Rightarrow> 'c word Gasometer" where
  "Gasometer_new g = \<lparr>current_gas = g, current_mem_gas = gas_from 0\<rparr>"

text \<open>The macro \<open>overflowing!\<close>.\<close>

definition overflowing :: "'a \<times> bool \<Rightarrow> 'a evm_result" where
  "overflowing x = (case x of (v, overflow) \<Rightarrow> if overflow then Err OutOfGas else Ok v)"

definition verify_gas :: "'c::len word Gasometer \<Rightarrow> 'c word \<Rightarrow> unit evm_result" where
  "verify_gas G cost = (if current_gas G < cost then Err OutOfGas else Ok ())"

section \<open>Gas provided to a nested call\<close>

definition gas_provided ::
  "'c::len word Gasometer \<Rightarrow> Schedule \<Rightarrow> 'c word \<Rightarrow> u256 option \<Rightarrow> 'c word evm_result" where
  "gas_provided G schedule needed requested =
     (let requested = map_option from_u256 requested;
          uncapped = (case requested of
              Some r \<Rightarrow> r
            | None \<Rightarrow> if needed \<le> current_gas G then Ok (current_gas G - needed) else Ok (gas_from 0))
      in case sub_gas_cap_divisor schedule of
           Some cap_divisor \<Rightarrow>
             if needed \<le> current_gas G then
               let gas_remaining = current_gas G - needed in
               res_bind
                 (if cap_divisor = 64 then minus_chk gas_remaining (drop_bit 6 gas_remaining)
                  else if (gas_from cap_divisor :: 'c word) = 0 then Panic
                  else minus_chk gas_remaining (gas_remaining div gas_from cap_divisor))
                 (\<lambda>max_gas_provided.
                    case requested of
                      Some (Ok r) \<Rightarrow> Ok (min r max_gas_provided)
                    | _ \<Rightarrow> Ok max_gas_provided)
             else uncapped
         | None \<Rightarrow> uncapped)"

section \<open>Memory\<close>

definition gas_for_mem :: "Schedule \<Rightarrow> 'c::len word \<Rightarrow> 'c word evm_result" where
  "gas_for_mem schedule mem_sz =
     (let s = drop_bit 5 mem_sz in
      res_bind (overflowing (overflow_mul s (gas_from (memory_gas schedule)))) (\<lambda>a.
      res_bind (rust_assert (quad_coeff_div schedule = 512)) (\<lambda>_.
      res_bind (overflowing (overflow_mul_shr s s 9)) (\<lambda>b.
      overflowing (overflow_add a b)))))"

definition mem_gas_cost ::
  "'c::len word Gasometer \<Rightarrow> Schedule \<Rightarrow> nat \<Rightarrow> 'c word \<Rightarrow> ('c word \<times> 'c word \<times> nat) evm_result" where
  "mem_gas_cost G schedule current_mem_size mem_sz =
     (let current = gas_from current_mem_size in
      res_bind (overflowing (overflow_add mem_sz (gas_from 31))) (\<lambda>t.
      let req_mem_size_rounded = push_bit 5 (drop_bit 5 t) in
      res_bind
        (if req_mem_size_rounded > current then
           res_bind (gas_for_mem schedule req_mem_size_rounded) (\<lambda>new_mem_gas.
           res_bind (minus_chk new_mem_gas (current_mem_gas G)) (\<lambda>cost. Ok (cost, new_mem_gas)))
         else Ok (gas_from 0, current_mem_gas G))
        (\<lambda>(cost, new_mem_gas).
      res_bind (as_usize req_mem_size_rounded) (\<lambda>sz. Ok (cost, new_mem_gas, unat sz)))))"

definition mem_needed_const :: "u256 \<Rightarrow> nat \<Rightarrow> 'c::len word evm_result" where
  "mem_needed_const mem add = res_bind (overflowing (overflowing_add mem (of_nat add))) from_u256"

definition mem_needed :: "u256 \<Rightarrow> u256 \<Rightarrow> 'c::len word evm_result" where
  "mem_needed offset sz =
     (if sz = 0 then Ok (gas_from 0)
      else res_bind (overflowing (overflowing_add offset sz)) from_u256)"

definition add_gas_usize :: "'c::len word \<Rightarrow> nat \<Rightarrow> 'c word \<times> bool" where
  "add_gas_usize v num = overflow_add v (gas_from num)"

section \<open>What an instruction requests\<close>

text \<open>\<open>U256::bits\<close>: the position of the highest bit set, counted from one.\<close>

fun nat_bits :: "nat \<Rightarrow> nat" where
  "nat_bits n = (if n = 0 then 0 else Suc (nat_bits (n div 2)))"

declare nat_bits.simps [simp del]

definition bits :: "u256 \<Rightarrow> nat" where
  "bits w = nat_bits (unat w)"

definition u256_to_address :: "u256 \<Rightarrow> address" where
  "u256_to_address v = ucast v"

definition address_to_u256 :: "address \<Rightarrow> u256" where
  "address_to_u256 a = ucast a"

text \<open>An operation of the externalities under the operator \<open>?\<close>.\<close>

definition try_trie :: "('e \<Rightarrow> 'a trie_result \<times> 'e) \<Rightarrow> ('e, evm_error, 'a) sm" where
  "try_trie f = (\<lambda>e. case f e of (r, e') \<Rightarrow> (from_trie r, e'))"

type_synonym ('e, 'c) request_m = "('e, evm_error, 'c word Request) sm"

definition req_SSTORE :: "'e Ext \<Rightarrow> u256 VecStack \<Rightarrow> ('e, 'c::len) request_m" where
  "req_SSTORE X stack =
     sm_bind (sm_lift (peek stack 0)) (\<lambda>address.
     sm_bind (sm_lift (peek stack 1)) (\<lambda>newval.
     sm_bind (try_trie (ext_storage_at X address)) (\<lambda>val.
     let gas = if val = 0 \<and> newval \<noteq> 0 then sstore_set_gas (ext_schedule X)
               else sstore_reset_gas (ext_schedule X)
     in sm_ret (Req_Gas (gas_from gas)))))"

text \<open>The condition under which a transfer to \<open>address\<close> pays for a new account; the operands of
  \<open>||\<close> and \<open>&&\<close> are evaluated only as far as needed.\<close>

definition pays_new_account ::
  "'e Ext \<Rightarrow> bool \<Rightarrow> address \<Rightarrow> ('e, evm_error, bool) sm" where
  "pays_new_account X is_value_transfer a =
     (if \<not> no_empty (ext_schedule X) then
        sm_bind (try_trie (ext_exists X a)) (\<lambda>b. sm_ret (\<not> b))
      else if is_value_transfer then
        sm_bind (try_trie (ext_exists_and_not_null X a)) (\<lambda>b. sm_ret (\<not> b))
      else sm_ret False)"

definition req_SUICIDE :: "'e Ext \<Rightarrow> u256 VecStack \<Rightarrow> ('e, 'c::len) request_m" where
  "req_SUICIDE X stack =
     (let gas = gas_from (suicide_gas (ext_schedule X)) in
      sm_bind (try_trie (ext_origin_balance X)) (\<lambda>bal.
      sm_bind (sm_lift (peek stack 0)) (\<lambda>v.
      sm_bind (pays_new_account X (bal \<noteq> 0) (u256_to_address v)) (\<lambda>new.
      if new then
        sm_bind (sm_lift (overflowing (overflow_add gas
            (gas_from (suicide_to_new_account_cost (ext_schedule X)))))) (\<lambda>gas'.
        sm_ret (Req_Gas gas'))
      else sm_ret (Req_Gas gas)))))"

definition req_mem :: "'c::len word \<Rightarrow> 'c word evm_result \<Rightarrow> ('e, 'c) request_m" where
  "req_mem gas mem = sm_bind (sm_lift mem) (\<lambda>m. sm_ret (GasMem gas m))"

definition req_SHA3 :: "'e Ext \<Rightarrow> u256 VecStack \<Rightarrow> ('e, 'c::len) request_m" where
  "req_SHA3 X stack =
     sm_bind (sm_lift (peek stack 1)) (\<lambda>sz.
     sm_bind (sm_lift (from_u256 sz)) (\<lambda>n.
     sm_bind (sm_lift (overflowing (add_gas_usize n 31))) (\<lambda>w.
     let words = drop_bit 5 w in
     sm_bind (sm_lift (times_chk (gas_from (sha3_word_gas (ext_schedule X))) words)) (\<lambda>wg.
     sm_bind (sm_lift (plus_chk (gas_from (sha3_gas (ext_schedule X))) wg)) (\<lambda>gas.
     sm_bind (sm_lift (peek stack 0)) (\<lambda>off.
     req_mem gas (mem_needed off sz)))))))"

definition req_copy :: "'c::len word \<Rightarrow> u256 \<Rightarrow> u256 \<Rightarrow> ('e, 'c) request_m" where
  "req_copy gas off sz =
     sm_bind (sm_lift (mem_needed off sz)) (\<lambda>m.
     sm_bind (sm_lift (from_u256 sz)) (\<lambda>c. sm_ret (GasMemCopy gas m c)))"

definition req_LOG :: "'e Ext \<Rightarrow> Instruction \<Rightarrow> u256 VecStack \<Rightarrow> ('e, 'c::len) request_m" where
  "req_LOG X i stack =
     sm_bind (sm_lift (get_log_topics i)) (\<lambda>no_of_topics.
     let log_g = log_gas (ext_schedule X) + log_topic_gas (ext_schedule X) * no_of_topics in
     sm_bind (sm_lift (peek stack 1)) (\<lambda>sz.
     sm_bind (sm_lift (from_u256 sz)) (\<lambda>n.
     sm_bind (sm_lift (overflowing (overflow_mul n (gas_from (log_data_gas (ext_schedule X)))))) (\<lambda>dg.
     sm_bind (sm_lift (overflowing (overflow_add dg (gas_from log_g)))) (\<lambda>gas.
     sm_bind (sm_lift (peek stack 0)) (\<lambda>off.
     req_mem gas (mem_needed off sz)))))))"

text \<open>The memory of a call: the larger of the output and the input range.\<close>

definition call_mem :: "u256 VecStack \<Rightarrow> nat \<Rightarrow> ('e, evm_error, 'c::len word) sm" where
  "call_mem stack k =
     sm_bind (sm_lift (peek stack (k + 2))) (\<lambda>out_off.
     sm_bind (sm_lift (peek stack (k + 3))) (\<lambda>out_sz.
     sm_bind (sm_lift (mem_needed out_off out_sz)) (\<lambda>m1.
     sm_bind (sm_lift (peek stack k)) (\<lambda>in_off.
     sm_bind (sm_lift (peek stack (k + 1))) (\<lambda>in_sz.
     sm_bind (sm_lift (mem_needed in_off in_sz)) (\<lambda>m2.
     sm_ret (max m1 m2)))))))"

definition req_CALL :: "'e Ext \<Rightarrow> Instruction \<Rightarrow> u256 VecStack \<Rightarrow> ('e, 'c::len) request_m" where
  "req_CALL X i stack =
     (let schedule = ext_schedule X; gas = gas_from (call_gas schedule) in
      sm_bind (call_mem stack 3) (\<lambda>mem.
      sm_bind (sm_lift (peek stack 1)) (\<lambda>a.
      sm_bind (sm_lift (peek stack 2)) (\<lambda>v.
      let is_value_transfer = v \<noteq> 0 in
      sm_bind (if i = CALL then pays_new_account X is_value_transfer (u256_to_address a)
               else sm_ret False) (\<lambda>new.
      sm_bind (if new then sm_lift (overflowing (overflow_add gas (gas_from (call_new_account_gas schedule))))
               else sm_ret gas) (\<lambda>gas'.
      sm_bind (if is_value_transfer
               then sm_lift (overflowing (overflow_add gas' (gas_from (call_value_transfer_gas schedule))))
               else sm_ret gas') (\<lambda>gas''.
      sm_bind (sm_lift (peek stack 0)) (\<lambda>requested.
      sm_ret (GasMemProvide gas'' mem (Some requested))))))))))"

definition req_DELEGATECALL :: "'e Ext \<Rightarrow> u256 VecStack \<Rightarrow> ('e, 'c::len) request_m" where
  "req_DELEGATECALL X stack =
     sm_bind (call_mem stack 2) (\<lambda>mem.
     sm_bind (sm_lift (peek stack 0)) (\<lambda>requested.
     sm_ret (GasMemProvide (gas_from (call_gas (ext_schedule X))) mem (Some requested))))"

definition req_CREATE :: "'e Ext \<Rightarrow> u256 VecStack \<Rightarrow> ('e, 'c::len) request_m" where
  "req_CREATE X stack =
     sm_bind (sm_lift (peek stack 1)) (\<lambda>off.
     sm_bind (sm_lift (peek stack 2)) (\<lambda>sz.
     sm_bind (sm_lift (mem_needed off sz)) (\<lambda>mem.
     sm_ret (GasMemProvide (gas_from (create_gas (ext_schedule X))) mem None))))"

definition req_EXP :: "'e Ext \<Rightarrow> u256 VecStack \<Rightarrow> ('e, 'c::len) request_m" where
  "req_EXP X stack =
     sm_bind (sm_lift (peek stack 1)) (\<lambda>expon.
     let n = (bits expon + 7) div 8 in
     sm_ret (Req_Gas (gas_from (exp_gas (ext_schedule X) + exp_byte_gas (ext_schedule X) * n))))"

text \<open>The tier of an invalid instruction has no index; \<open>verify_instruction\<close> rejects those before the
  gasometer sees them.\<close>

definition default_gas :: "Schedule \<Rightarrow> InstructionInfo \<Rightarrow> 'c::len word evm_result" where
  "default_gas schedule info =
     (let t = get_tier_idx (info_tier info)
      in if t < length (tier_step_gas schedule) then Ok (gas_from (tier_step_gas schedule ! t)) else Panic)"

definition instruction_request ::
  "'e Ext \<Rightarrow> Instruction \<Rightarrow> InstructionInfo \<Rightarrow> u256 VecStack \<Rightarrow> ('e, 'c::len) request_m" where
  "instruction_request X i info stack =
     (let schedule = ext_schedule X in
      sm_bind (sm_lift (default_gas schedule info)) (\<lambda>dflt.
      if i = JUMPDEST then sm_ret (Req_Gas (gas_from 1))
      else if i = SSTORE then req_SSTORE X stack
      else if i = SLOAD then sm_ret (Req_Gas (gas_from (sload_gas schedule)))
      else if i = BALANCE then sm_ret (Req_Gas (gas_from (balance_gas schedule)))
      else if i = EXTCODESIZE then sm_ret (Req_Gas (gas_from (extcodesize_gas schedule)))
      else if i = SUICIDE then req_SUICIDE X stack
      else if i = MSTORE \<or> i = MLOAD then
        sm_bind (sm_lift (peek stack 0)) (\<lambda>off. req_mem dflt (mem_needed_const off 32))
      else if i = MSTORE8 then
        sm_bind (sm_lift (peek stack 0)) (\<lambda>off. req_mem dflt (mem_needed_const off 1))
      else if i = RETURN then
        sm_bind (sm_lift (peek stack 0)) (\<lambda>off.
        sm_bind (sm_lift (peek stack 1)) (\<lambda>sz. req_mem dflt (mem_needed off sz)))
      else if i = SHA3 then req_SHA3 X stack
      else if i = CALLDATACOPY \<or> i = CODECOPY then
        sm_bind (sm_lift (peek stack 0)) (\<lambda>off.
        sm_bind (sm_lift (peek stack 2)) (\<lambda>sz. req_copy dflt off sz))
      else if i = EXTCODECOPY then
        sm_bind (sm_lift (peek stack 1)) (\<lambda>off.
        sm_bind (sm_lift (peek stack 3)) (\<lambda>sz.
        req_copy (gas_from (extcodecopy_base_gas schedule)) off sz))
      else if LOG0 \<le> i \<and> i \<le> LOG4 then req_LOG X i stack
      else if i = CALL \<or> i = CALLCODE then req_CALL X i stack
      else if i = DELEGATECALL then req_DELEGATECALL X stack
      else if i = CREATE then req_CREATE X stack
      else if i = EXP then req_EXP X stack
      else sm_ret (Req_Gas dflt)))"

section \<open>The requirements\<close>

definition request_requirements ::
  "'c::len word Gasometer \<Rightarrow> Schedule \<Rightarrow> nat \<Rightarrow> 'c word Request \<Rightarrow>
   'c word InstructionRequirements evm_result" where
  "request_requirements G schedule current_mem_size cost =
     (case cost of
        Req_Gas gas \<Rightarrow>
          Ok \<lparr>gas_cost = gas, provide_gas = None,
              memory_total_gas = current_mem_gas G, memory_required_size = 0\<rparr>
      | GasMem gas mem_sz \<Rightarrow>
          res_bind (mem_gas_cost G schedule current_mem_size mem_sz) (\<lambda>(mem_cost, new_mem_gas, new_mem_size).
          res_bind (overflowing (overflow_add gas mem_cost)) (\<lambda>gas'.
          Ok \<lparr>gas_cost = gas', provide_gas = None,
              memory_total_gas = new_mem_gas, memory_required_size = new_mem_size\<rparr>))
      | GasMemProvide gas mem_sz requested \<Rightarrow>
          res_bind (mem_gas_cost G schedule current_mem_size mem_sz) (\<lambda>(mem_cost, new_mem_gas, new_mem_size).
          res_bind (overflowing (overflow_add gas mem_cost)) (\<lambda>gas'.
          res_bind (gas_provided G schedule gas' requested) (\<lambda>provided.
          res_bind (overflowing (overflow_add gas' provided)) (\<lambda>total_gas.
          Ok \<lparr>gas_cost = total_gas, provide_gas = Some provided,
              memory_total_gas = new_mem_gas, memory_required_size = new_mem_size\<rparr>))))
      | GasMemCopy gas mem_sz copy \<Rightarrow>
          res_bind (mem_gas_cost G schedule current_mem_size mem_sz) (\<lambda>(mem_cost, new_mem_gas, new_mem_size).
          res_bind (overflowing (add_gas_usize copy 31)) (\<lambda>c.
          res_bind (times_chk (gas_from (copy_gas schedule)) (drop_bit 5 c)) (\<lambda>copy_g.
          res_bind (overflowing (overflow_add gas copy_g)) (\<lambda>gas'.
          res_bind (overflowing (overflow_add gas' mem_cost)) (\<lambda>gas''.
          Ok \<lparr>gas_cost = gas'', provide_gas = None,
              memory_total_gas = new_mem_gas, memory_required_size = new_mem_size\<rparr>))))))"

definition requirements ::
  "'c::len word Gasometer \<Rightarrow> 'e Ext \<Rightarrow> Instruction \<Rightarrow> InstructionInfo \<Rightarrow> u256 VecStack \<Rightarrow> nat \<Rightarrow>
   ('e, evm_error, 'c word InstructionRequirements) sm" where
  "requirements G X i info stack current_mem_size =
     sm_bind (instruction_request X i info stack) (\<lambda>cost.
     sm_lift (request_requirements G (ext_schedule X) current_mem_size cost))"

section \<open>Memory gas\<close>

text \<open>The price of a memory of \<open>n\<close> bytes: linear in its words plus a quadratic term. The gasometer
  keeps the price of the current memory and charges the difference. The lemmas are for the cost
  type \<open>usize\<close>, the one every transaction with less than \<open>2 ^ 64\<close> gas runs with.\<close>

definition mem_gas_spec :: "Schedule \<Rightarrow> nat \<Rightarrow> nat" where
  "mem_gas_spec s n = n div 32 * memory_gas s + (n div 32) * (n div 32) div 512"

lemma overflowing_simps [simp]:
  "overflowing (v, o') = Ok a \<longleftrightarrow> \<not> o' \<and> a = v"
  "overflowing (v, o') = Err e \<longleftrightarrow> o' \<and> e = OutOfGas"
  "overflowing x \<noteq> Panic" "overflowing x \<noteq> Diverge"
  by (auto simp: overflowing_def split: prod.splits)

lemma overflow_add_Ok:
  fixes a b :: "'c::len word"
  shows "overflowing (overflow_add a b) = Ok c \<longleftrightarrow> unat a + unat b < 2 ^ LENGTH('c) \<and> c = a + b"
  by (auto simp: overflow_add_def overflowing_add_def)

lemma overflow_mul_Ok:
  fixes a b :: "'c::len word"
  shows "overflowing (overflow_mul a b) = Ok c \<longleftrightarrow> unat a * unat b < 2 ^ LENGTH('c) \<and> c = a * b"
  by (auto simp: overflow_mul_def overflowing_mul_def)

lemma overflow_add_Ok_unat:
  fixes a b :: "'c::len word"
  shows "overflowing (overflow_add a b) = Ok c \<Longrightarrow> unat c = unat a + unat b"
  by (auto simp: overflow_add_Ok unat_add_small)

lemma overflow_mul_Ok_unat:
  fixes a b :: "'c::len word"
  shows "overflowing (overflow_mul a b) = Ok c \<Longrightarrow> unat c = unat a * unat b"
  by (auto simp: overflow_mul_Ok unat_mult_small)

lemma overflow_mul_shr_Ok_unat:
  fixes a b :: "'c::len word"
  assumes "overflowing (overflow_mul_shr a b n) = Ok c"
  shows "unat c = unat a * unat b div 2 ^ n"
proof -
  from assms have *: "unat a * unat b < 2 ^ LENGTH('c)" "c = of_nat (unat a * unat b div 2 ^ n)"
    by (auto simp: overflow_mul_shr_def)
  then have "unat a * unat b div 2 ^ n < 2 ^ LENGTH('c)" by (meson div_le_dividend le_less_trans)
  with * show ?thesis by (simp add: unat_of_nat_small)
qed

lemma unat_gas_from: "n < 2 ^ LENGTH('c) \<Longrightarrow> unat (gas_from n :: 'c::len word) = n"
  by (simp add: gas_from_def unat_of_nat_small)

lemma usize_gas_from [simp]: "n < 2 ^ 64 \<Longrightarrow> unat (gas_from n :: usize) = n"
  by (simp add: unat_gas_from)

lemma gas_from_0 [simp]: "gas_from 0 = 0"
  by (simp add: gas_from_def)

lemma gas_for_mem_no_panic:
  assumes "schedule_ok s"
  shows "gas_for_mem s w \<noteq> Panic" "gas_for_mem s w \<noteq> Diverge"
  using assms by (auto simp: gas_for_mem_def Let_def schedule_ok_def rust_assert_def)

lemma gas_for_mem_Ok:
  fixes w :: usize
  assumes "gas_for_mem s w = Ok g" "schedule_ok s"
  shows "unat g = mem_gas_spec s (unat w)"
proof -
  have mg: "unat (gas_from (memory_gas s) :: usize) = memory_gas s"
    using assms(2) by (simp add: schedule_ok_def)
  from assms(1) obtain a b where
    "overflowing (overflow_mul (drop_bit 5 w) (gas_from (memory_gas s))) = Ok a"
    "overflowing (overflow_mul_shr (drop_bit 5 w) (drop_bit 5 w) 9) = Ok b"
    "overflowing (overflow_add a b) = Ok g"
    by (auto simp: gas_for_mem_def Let_def)
  from overflow_mul_Ok_unat [OF this(1)] overflow_mul_shr_Ok_unat [OF this(2)]
    overflow_add_Ok_unat [OF this(3)]
  show ?thesis by (simp add: mem_gas_spec_def unat_drop_bit mg)
qed

lemma mem_gas_spec_mono: "a \<le> b \<Longrightarrow> mem_gas_spec s a \<le> mem_gas_spec s b"
  unfolding mem_gas_spec_def by (intro add_mono mult_le_mono div_le_mono) auto

lemma unat_usize: "unat (t :: usize) < 2 ^ 64"
  using unsigned_less [of t] by simp

lemma unat_round32:
  fixes t :: usize
  shows "unat (push_bit 5 (drop_bit 5 t)) = unat t div 32 * 32"
proof -
  have "unat (drop_bit 5 t) = unat t div 32" by (simp add: unat_drop_bit)
  moreover have "unat (push_bit 5 (drop_bit 5 t)) = unat (drop_bit 5 t) * 32 mod 2 ^ 64"
    by (simp add: push_bit_eq_mult unat_word_ariths)
  moreover have "unat t div 32 * 32 < 2 ^ 64"
    using unat_usize [of t] by (meson div_times_less_eq_dividend le_less_trans)
  ultimately show ?thesis by simp
qed

definition mem_gas_inv :: "usize Gasometer \<Rightarrow> Schedule \<Rightarrow> nat \<Rightarrow> bool" where
  "mem_gas_inv G s cur \<longleftrightarrow>
     unat (current_mem_gas G) = mem_gas_spec s cur \<and> cur mod 32 = 0 \<and> cur < 2 ^ 64"

lemma mem_gas_cost_Ok:
  fixes m :: usize
  assumes "mem_gas_cost G s cur m = Ok (c, n, sz)" "schedule_ok s" "mem_gas_inv G s cur"
  shows "sz mod 32 = 0" "unat m \<le> sz" "sz < unat m + 32" "sz < 2 ^ 64"
    "unat n = mem_gas_spec s (max cur sz)"
    "unat c + mem_gas_spec s cur = mem_gas_spec s (max cur sz)"
proof -
  from assms(1) obtain t where t: "overflowing (overflow_add m (gas_from 31)) = Ok t"
    and sz: "sz = unat (push_bit 5 (drop_bit 5 t))"
    and cn: "(if push_bit 5 (drop_bit 5 t) > gas_from cur then
           res_bind (gas_for_mem s (push_bit 5 (drop_bit 5 t))) (\<lambda>new_mem_gas.
           res_bind (minus_chk new_mem_gas (current_mem_gas G)) (\<lambda>cost. Ok (cost, new_mem_gas)))
         else Ok (gas_from 0, current_mem_gas G)) = Ok (c, n)"
    by (auto simp: mem_gas_cost_def Let_def)
  have ut: "unat t = unat m + 31" using overflow_add_Ok_unat [OF t] by simp
  have s32: "sz = unat t div 32 * 32" by (simp add: sz unat_round32)
  then show "sz mod 32 = 0" by simp
  show "unat m \<le> sz" "sz < unat m + 32" unfolding s32 ut by linarith+
  show s64: "sz < 2 ^ 64" using unsigned_less [of "push_bit 5 (drop_bit 5 t)"] sz by simp
  have lt: "(gas_from cur < push_bit 5 (drop_bit 5 t)) = (cur < sz)"
    using assms(3) by (simp add: word_less_nat_alt sz mem_gas_inv_def)
  have "unat n = mem_gas_spec s (max cur sz) \<and> unat c + mem_gas_spec s cur = mem_gas_spec s (max cur sz)"
  proof (cases "cur < sz")
    case True
    with cn lt obtain "gas_for_mem s (push_bit 5 (drop_bit 5 t)) = Ok n"
      "current_mem_gas G \<le> n" "c = n - current_mem_gas G"
      by (auto simp: minus_chk_eq_Ok)
    with gas_for_mem_Ok [OF this(1) assms(2)] True assms(3) show ?thesis
      by (simp add: sz [symmetric] unat_minus_le word_le_nat_alt mem_gas_inv_def)
  next
    case False
    with cn lt assms(3) show ?thesis by (simp add: mem_gas_inv_def)
  qed
  then show "unat n = mem_gas_spec s (max cur sz)"
    "unat c + mem_gas_spec s cur = mem_gas_spec s (max cur sz)" by auto
qed

lemma mem_gas_cost_returns:
  fixes m :: usize
  assumes "schedule_ok s" "mem_gas_inv G s cur"
  shows "mem_gas_cost G s cur m \<noteq> Panic" "mem_gas_cost G s cur m \<noteq> Diverge"
proof -
  have "current_mem_gas G \<le> n"
    if "gas_for_mem s w = Ok n" "gas_from cur < w" for n w
    using gas_for_mem_Ok [OF that(1) assms(1)] mem_gas_spec_mono [of cur "unat w" s] that(2) assms(2)
    by (simp add: word_le_nat_alt word_less_nat_alt mem_gas_inv_def)
  then show "mem_gas_cost G s cur m \<noteq> Panic" "mem_gas_cost G s cur m \<noteq> Diverge"
    using gas_for_mem_no_panic [OF assms(1)]
    by (auto simp: mem_gas_cost_def Let_def minus_chk_def)
qed

section \<open>What a request covers\<close>

definition is_call :: "Instruction \<Rightarrow> bool" where
  "is_call i \<longleftrightarrow> i = CREATE \<or> i = CALL \<or> i = CALLCODE \<or> i = DELEGATECALL"

definition halts :: "Instruction \<Rightarrow> bool" where
  "halts i \<longleftrightarrow> i = STOP \<or> i = RETURN \<or> i = SUICIDE"

definition mem_accesses :: "Instruction \<Rightarrow> u256 list \<Rightarrow> (u256 \<times> u256) list" where
  "mem_accesses i xs =
     (if i = MSTORE \<or> i = MLOAD then [(xs ! 0, 32)]
      else if i = MSTORE8 then [(xs ! 0, 1)]
      else if i = RETURN \<or> i = SHA3 then [(xs ! 0, xs ! 1)]
      else if i = CALLDATACOPY \<or> i = CODECOPY then [(xs ! 0, xs ! 2)]
      else if i = EXTCODECOPY then [(xs ! 1, xs ! 3)]
      else if LOG0 \<le> i \<and> i \<le> LOG4 then [(xs ! 0, xs ! 1)]
      else if i = CALL \<or> i = CALLCODE then [(xs ! 3, xs ! 4), (xs ! 5, xs ! 6)]
      else if i = DELEGATECALL then [(xs ! 2, xs ! 3), (xs ! 4, xs ! 5)]
      else if i = CREATE then [(xs ! 1, xs ! 2)]
      else [])"

definition covered :: "(u256 \<times> u256) list \<Rightarrow> nat \<Rightarrow> bool" where
  "covered accs n \<longleftrightarrow> list_all (\<lambda>(off, sz). sz = 0 \<or> unat off + unat sz \<le> n) accs"

definition value_charge :: "Schedule \<Rightarrow> Instruction \<Rightarrow> u256 list \<Rightarrow> nat" where
  "value_charge s i xs =
     (if (i = CALL \<or> i = CALLCODE) \<and> xs ! 2 \<noteq> 0 then call_value_transfer_gas s else 0)"

lemma covered_simps [simp]:
  "covered [] n"
  "covered ((off, sz) # accs) n \<longleftrightarrow> (sz = 0 \<or> unat off + unat sz \<le> n) \<and> covered accs n"
  by (simp_all add: covered_def)

lemma covered_mono: "covered accs n \<Longrightarrow> n \<le> m \<Longrightarrow> covered accs m"
  by (auto simp: covered_def list_all_iff)

primrec request_ok :: "Schedule \<Rightarrow> Instruction \<Rightarrow> u256 list \<Rightarrow> usize Request \<Rightarrow> bool" where
  "request_ok s i xs (Req_Gas g) \<longleftrightarrow>
     \<not> is_call i \<and> mem_accesses i xs = [] \<and> (halts i \<or> 0 < unat g)"
| "request_ok s i xs (GasMem g m) \<longleftrightarrow>
     \<not> is_call i \<and> covered (mem_accesses i xs) (unat m) \<and> (halts i \<or> 0 < unat g)"
| "request_ok s i xs (GasMemProvide g m r) \<longleftrightarrow>
     is_call i \<and> covered (mem_accesses i xs) (unat m) \<and> value_charge s i xs < unat g"
| "request_ok s i xs (GasMemCopy g m c) \<longleftrightarrow>
     \<not> is_call i \<and> covered (mem_accesses i xs) (unat m) \<and> 0 < unat g"

lemma unat_u256_of_usize [simp]: "unat (ucast (m :: usize) :: u256) = unat m"
  by (simp add: unat_ucast_up)

lemma from_u256_usize_unat: "from_u256 v = Ok (c :: usize) \<Longrightarrow> unat c = unat v"
  by (metis from_u256_eq_Ok unat_u256_of_usize)

lemma mem_needed_Ok:
  assumes "mem_needed off sz = Ok (m :: usize)"
  shows "sz = 0 \<or> unat off + unat sz \<le> unat m"
proof (cases "sz = 0")
  case False
  with assms have ov: "unat off + unat sz < 2 ^ 256" and "(ucast m :: u256) = off + sz"
    by (auto simp: mem_needed_def overflowing_add_def from_u256_eq_Ok)
  then have "unat m = unat (off + sz)"
    by (metis unat_u256_of_usize)
  with ov show ?thesis by (simp add: unat_add_small)
qed simp

lemma mem_needed_returns [simp]: "mem_needed off sz \<noteq> Panic" "mem_needed off sz \<noteq> Diverge"
  by (auto simp: mem_needed_def from_u256_def Let_def)


lemma mem_needed_const_Ok:
  assumes "mem_needed_const off n = Ok (m :: usize)" "n < 2 ^ 64"
  shows "unat off + n \<le> unat m"
proof -
  have n: "unat (of_nat n :: u256) = n" using assms(2) by (simp add: unat_of_nat_small)
  from assms(1) obtain v where v: "overflowing (overflowing_add off (of_nat n)) = Ok v"
    "from_u256 v = Ok m"
    by (auto simp: mem_needed_const_def)
  then have "unat off + n < 2 ^ 256" "v = off + of_nat n"
    by (auto simp: overflowing_add_def n)
  then have "unat v = unat off + n" using n by (simp add: unat_add_small)
  with from_u256_usize_unat [OF v(2)] show ?thesis by simp
qed

lemma mem_needed_const_returns [simp]:
  "mem_needed_const off n \<noteq> Panic" "mem_needed_const off n \<noteq> Diverge"
  by (auto simp: mem_needed_const_def from_u256_def Let_def)

lemma from_u256_returns [simp]: "from_u256 v \<noteq> Diverge"
  by (simp add: from_u256_def Let_def)

lemma gas_provided_returns:
  assumes "schedule_ok s"
  shows "gas_provided (G :: usize Gasometer) s g r \<noteq> Panic" "gas_provided G s g r \<noteq> Diverge"
proof -
  have le: "drop_bit 6 w \<le> w" "w div v \<le> w" for w v :: usize
    by (simp_all add: word_le_nat_alt unat_drop_bit unat_div)
  have z: "(gas_from d :: usize) \<noteq> 0" if "sub_gas_cap_divisor s = Some d" for d
  proof -
    have "0 < d" "d < 2 ^ 64" using assms that by (auto simp: schedule_ok_def)
    then have "unat (gas_from d :: usize) \<noteq> 0" by simp
    then show ?thesis by (metis unat_0)
  qed
  show "gas_provided G s g r \<noteq> Panic" "gas_provided G s g r \<noteq> Diverge"
    using z le by (auto simp: gas_provided_def minus_chk_def Let_def split: option.splits res.splits)
qed

definition reqs_ok ::
  "Schedule \<Rightarrow> Instruction \<Rightarrow> u256 list \<Rightarrow> nat \<Rightarrow> usize InstructionRequirements \<Rightarrow> bool" where
  "reqs_ok s i xs cur r \<longleftrightarrow>
     (halts i \<or> 0 < unat (gas_cost r)) \<and>
     covered (mem_accesses i xs) (memory_required_size r) \<and>
     memory_required_size r mod 32 = 0 \<and> memory_required_size r < 2 ^ 64 \<and>
     unat (memory_total_gas r) = mem_gas_spec s (max cur (memory_required_size r)) \<and>
     mem_gas_spec s (max cur (memory_required_size r)) \<le> unat (gas_cost r) + mem_gas_spec s cur \<and>
     (provide_gas r = None \<longleftrightarrow> \<not> is_call i) \<and>
     (\<forall>p. provide_gas r = Some p \<longrightarrow>
        mem_gas_spec s (max cur (memory_required_size r)) + value_charge s i xs + unat p
          < unat (gas_cost r) + mem_gas_spec s cur)"

lemma request_requirements_ok:
  assumes "request_ok s i xs q" "schedule_ok s" "mem_gas_inv G s cur"
    "request_requirements G s cur q = Ok r"
  shows "reqs_ok s i xs cur r"
proof (cases q)
  case (Req_Gas g)
  then show ?thesis using assms by (auto simp: request_requirements_def reqs_ok_def mem_gas_inv_def)
next
  case (GasMem g m)
  with assms obtain c n sz g' where mc: "mem_gas_cost G s cur m = Ok (c, n, sz)"
    and g': "overflowing (overflow_add g c) = Ok g'"
    and r: "r = \<lparr>gas_cost = g', provide_gas = None, memory_total_gas = n, memory_required_size = sz\<rparr>"
    by (auto simp: request_requirements_def)
  note * = mem_gas_cost_Ok [OF mc assms(2,3)] overflow_add_Ok_unat [OF g']
  show ?thesis using assms(1) GasMem r * covered_mono [OF _ *(2)] by (auto simp: reqs_ok_def)
next
  case (GasMemProvide g m rq)
  with assms obtain c n sz g' p t where mc: "mem_gas_cost G s cur m = Ok (c, n, sz)"
    and g': "overflowing (overflow_add g c) = Ok g'"
    and t: "overflowing (overflow_add g' p) = Ok t"
    and r: "r = \<lparr>gas_cost = t, provide_gas = Some p, memory_total_gas = n, memory_required_size = sz\<rparr>"
    by (auto simp: request_requirements_def)
  note * = mem_gas_cost_Ok [OF mc assms(2,3)] overflow_add_Ok_unat [OF g'] overflow_add_Ok_unat [OF t]
  show ?thesis using assms(1) GasMemProvide r * covered_mono [OF _ *(2)] by (auto simp: reqs_ok_def)
next
  case (GasMemCopy g m cp)
  with assms obtain c n sz w g' g'' where mc: "mem_gas_cost G s cur m = Ok (c, n, sz)"
    and g': "overflowing (overflow_add g w) = Ok g'"
    and g'': "overflowing (overflow_add g' c) = Ok g''"
    and r: "r = \<lparr>gas_cost = g'', provide_gas = None, memory_total_gas = n, memory_required_size = sz\<rparr>"
    by (auto simp: request_requirements_def)
  note * = mem_gas_cost_Ok [OF mc assms(2,3)] overflow_add_Ok_unat [OF g'] overflow_add_Ok_unat [OF g'']
  show ?thesis using assms(1) GasMemCopy r * covered_mono [OF _ *(2)] by (auto simp: reqs_ok_def)
qed

lemma small_times_words_returns:
  fixes w :: usize
  assumes "k < 2 ^ 4"
  shows "unat (gas_from k :: usize) * unat (drop_bit 5 w) < 2 ^ 63"
proof -
  have w: "unat (drop_bit 5 w) < 2 ^ 59" using unat_usize [of w] by (simp add: unat_drop_bit)
  have "k * unat (drop_bit 5 w) \<le> 15 * unat (drop_bit 5 w)"
    using assms by (intro mult_le_mono1) simp
  also have "\<dots> < 2 ^ 63" using w by simp
  finally show ?thesis using assms by simp
qed

lemma request_requirements_returns:
  assumes "schedule_ok s" "mem_gas_inv G s cur"
  shows "returns (request_requirements G s cur q)"
proof -
  have cg: "times_chk (gas_from (copy_gas s)) (drop_bit 5 c) \<noteq> (Panic :: usize evm_result)"
    "times_chk (gas_from (copy_gas s)) (drop_bit 5 c) \<noteq> (Diverge :: usize evm_result)" for c
    using small_times_words_returns [of "copy_gas s" c] assms(1)
    by (auto simp: times_chk_def schedule_ok_def)
  show ?thesis
    using mem_gas_cost_returns [OF assms] gas_provided_returns [OF assms(1)] cg
    by (auto simp: returns_def request_requirements_def split: Request.splits)
qed

section \<open>The requests are sound\<close>

definition kept :: "('e \<Rightarrow> bool) \<Rightarrow> ('e \<Rightarrow> nat) \<Rightarrow> 'e \<Rightarrow> 'e \<Rightarrow> bool" where
  "kept good clears e e' \<longleftrightarrow> good e' \<and> clears e' \<le> clears e"

lemma keeps_run:
  assumes "keeps good clears f" "good e" "f e = (r, e')"
  shows "returns r" "kept good clears e e'"
proof -
  have "returns (fst (f e)) \<and> good (snd (f e)) \<and> clears (snd (f e)) \<le> clears e"
    using assms(1,2) unfolding keeps_def by blast
  then show "returns r" "kept good clears e e'" using assms(3) by (simp_all add: kept_def)
qed

lemma wp_try_trie:
  assumes "keeps good clears f" "good e"
    "\<And>a e'. kept good clears e e' \<Longrightarrow> Q a e'" "\<And>x e'. kept good clears e e' \<Longrightarrow> E x e'"
  shows "wp (try_trie f) Q E e"
proof -
  obtain r e' where f: "f e = (r, e')" by fastforce
  note k = keeps_run [OF assms(1,2) f]
  show ?thesis using k assms(3,4) [OF k(2)] f by (cases r) (simp_all add: wp_def try_trie_def)
qed

lemma kept_trans: "kept good clears e e' \<Longrightarrow> kept good clears e' e'' \<Longrightarrow> kept good clears e e''"
  by (simp add: kept_def)

lemma kept_good: "kept good clears e e' \<Longrightarrow> good e'"
  by (simp add: kept_def)

text \<open>The postcondition of a request: it is sound, and the externalities are as before.\<close>

abbreviation request_wp where
  "request_wp good clears s i xs e m \<equiv>
     wp m (\<lambda>q e'. request_ok s i xs q \<and> kept good clears e e') (\<lambda>_ e'. kept good clears e e') e"

lemma request_wp_weaken:
  "request_wp good clears s i xs e' m \<Longrightarrow> kept good clears e e' \<Longrightarrow>
   wp m (\<lambda>q e''. request_ok s i xs q \<and> kept good clears e e'') (\<lambda>_ e''. kept good clears e e'') e'"
  by (auto elim!: wp_mono intro: kept_trans)

lemma kept_refl [simp]: "good e \<Longrightarrow> kept good clears e e"
  by (simp add: kept_def)

lemmas schedule_bounds = schedule_ok_def ball_1_6

lemma wp_bindI: "wp m (\<lambda>a. wp (f a) Q E) E s \<Longrightarrow> wp (sm_bind m f) Q E s"
  by (simp add: wp_bind)

lemma wp_ifI:
  "(b \<Longrightarrow> wp m Q E s) \<Longrightarrow> (\<not> b \<Longrightarrow> wp n Q E s) \<Longrightarrow> wp (if b then m else n) Q E s"
  by simp

lemma wp_retI: "Q a s \<Longrightarrow> wp (sm_ret a) Q E s"
  by (simp add: wp_ret)

lemma wp_someI:
  assumes "\<exists>a. r = Ok a \<and> P a" "\<And>a. r = Ok a \<Longrightarrow> P a \<Longrightarrow> Q a s"
  shows "wp (sm_lift r) Q E s"
  using assms by (auto simp: wp_lift)

lemma wp_peekI: "n < length xs \<Longrightarrow> Q (xs ! n) s \<Longrightarrow> wp (sm_lift (peek (stk xs l) n)) Q E s"
  by (simp add: wp_lift peek_stk)

lemma wp_overflowingI:
  assumes "\<And>a. overflowing x = Ok a \<Longrightarrow> Q a s" "E OutOfGas s"
  shows "wp (sm_lift (overflowing x)) Q E s"
  using assms by (intro wp_liftI) (auto simp: overflowing_def split: prod.splits if_splits)

lemma wp_from_u256I:
  assumes "\<And>a. from_u256 v = Ok a \<Longrightarrow> Q a s" "E OutOfGas s"
  shows "wp (sm_lift (from_u256 v)) Q E s"
  using assms by (intro wp_liftI) (auto simp: from_u256_def Let_def split: if_splits)

lemma wp_mem_neededI:
  assumes "\<And>a. sz = 0 \<or> unat off + unat sz \<le> unat a \<Longrightarrow> Q a s" "\<And>x. E x s"
  shows "wp (sm_lift (mem_needed off sz :: usize evm_result)) Q E s"
  using assms mem_needed_Ok [of off sz] by (intro wp_liftI) auto

lemmas wp_intros = wp_bindI wp_retI wp_peekI wp_overflowingI wp_from_u256I wp_mem_neededI

lemma req_mem_wp:
  assumes "good e" "\<not> is_call i" "halts i \<or> 0 < unat g" "m \<noteq> Panic" "m \<noteq> Diverge"
    "\<And>v. m = Ok v \<Longrightarrow> covered (mem_accesses i xs) (unat v)"
  shows "request_wp good clears s i xs e (req_mem (g :: usize) m)"
  using assms by (auto simp: req_mem_def wp_rules split: res.splits)

lemma req_copy_wp:
  assumes "good e" "\<not> is_call i" "0 < unat g" "mem_accesses i xs = [(off, sz)]"
  shows "request_wp good clears s i xs e (req_copy (g :: usize) off sz)"
  unfolding req_copy_def wp_rules using assms
  by (auto simp: wp_rules dest: mem_needed_Ok split: res.splits)

lemma plus_chk_returns:
  fixes a b :: usize
  assumes "unat a < 2 ^ 32" "unat b < 2 ^ 63"
  shows "\<exists>c. plus_chk a b = Ok c \<and> unat c = unat a + unat b"
  using assms by (simp add: plus_chk_def unat_add_small)

lemma req_SHA3_wp:
  assumes "good e" "schedule_ok (ext_schedule X)" "2 \<le> length xs"
  shows "request_wp good clears s SHA3 xs e (req_SHA3 X (stk xs l) :: ('e, 64) request_m)"
proof -
  let ?S = "ext_schedule X"
  have S: "sha3_word_gas ?S < 2 ^ 4" "0 < sha3_gas ?S" "sha3_gas ?S < 2 ^ 32"
    using assms(2) by (auto simp: schedule_ok_def)
  have t: "\<exists>v. times_chk (gas_from (sha3_word_gas ?S)) (drop_bit 5 w) = Ok v \<and> unat v < 2 ^ 63"
    for w :: usize
    using small_times_words_returns [OF S(1), of w] by (simp add: times_chk_def unat_mult_small)
  have p: "\<exists>c. plus_chk (gas_from (sha3_gas ?S)) v = Ok c \<and> 0 < unat c"
    if "unat v < 2 ^ 63" for v :: usize
    using plus_chk_returns [of "gas_from (sha3_gas ?S)" v] S that by auto
  show ?thesis
    unfolding req_SHA3_def Let_def
    by (intro wp_intros wp_someI [OF t] wp_someI [OF p] req_mem_wp)
      (use assms in \<open>auto simp: is_call_def mem_accesses_def dest: mem_needed_Ok\<close>)
qed


lemma small_sum:
  fixes a b n :: nat
  assumes "a < 2 ^ 32" "b < 2 ^ 32" "n \<le> 32"
  shows "a + b * n < 2 ^ 64"
proof -
  have "b * n \<le> b * 32" using assms(3) by (rule mult_le_mono2)
  moreover have "a < 4294967296" "b < 4294967296" using assms by simp_all
  ultimately have "a + b * n < 18446744073709551616" by linarith
  then show ?thesis by simp
qed

lemma log_instr:
  assumes "LOG0 \<le> i \<and> i \<le> LOG4"
  shows "i = LOG0 \<or> i = LOG1 \<or> i = LOG2 \<or> i = LOG3 \<or> i = LOG4"
proof -
  have "i \<in> set (map of_nat [0xa0..<Suc 0xa4])" using assms by (intro byte_upto) simp_all
  then show ?thesis by (simp add: upt_rec)
qed

lemma req_LOG_wp:
  assumes "good e" "schedule_ok (ext_schedule X)" "LOG0 \<le> i \<and> i \<le> LOG4"
    "info_args (INSTRUCTIONS i) \<le> length xs"
  shows "request_wp good clears s i xs e (req_LOG X i (stk xs l) :: ('e, 64) request_m)"
proof -
  let ?S = "ext_schedule X"
  obtain n where n: "get_log_topics i = (Ok n :: nat evm_result)"
    using assms(3) by (auto simp: get_log_topics_def)
  note la = log_arity [OF n]
  have len: "n + 2 \<le> length xs" using la(1) assms(4) by (simp add: has_arity_def)
  have n4: "n \<le> 4" using la(2) by (simp add: MAX_NO_OF_TOPICS_def)
  have S: "0 < log_gas ?S" "log_gas ?S < 2 ^ 32" "log_topic_gas ?S < 2 ^ 32"
    using assms(2) by (auto simp: schedule_ok_def)
  have "log_gas ?S + log_topic_gas ?S * n < 2 ^ 64" using S n4 by (intro small_sum) auto
  then have lg: "unat (gas_from (log_gas ?S + log_topic_gas ?S * n) :: usize) =
      log_gas ?S + log_topic_gas ?S * n" by (rule usize_gas_from)
  have ni: "\<not> is_call i" "mem_accesses i xs = [(xs ! 0, xs ! 1)]"
    using log_instr [OF assms(3)] by (auto simp: is_call_def mem_accesses_def)
  have pos: "0 < unat g" if "overflowing (overflow_add d (gas_from (log_gas ?S + log_topic_gas ?S * n))) = Ok g"
    for d g :: usize
    using overflow_add_Ok_unat [OF that] lg S by simp
  show ?thesis
    unfolding req_LOG_def Let_def
    by (intro wp_intros wp_someI [of "get_log_topics i" "\<lambda>k. k = n"] req_mem_wp)
      (use assms len n ni pos in \<open>auto dest: mem_needed_Ok\<close>)
qed


lemma call_mem_wp:
  fixes Q :: "usize \<Rightarrow> 'e \<Rightarrow> bool"
  assumes "k + 3 < length xs"
    "\<And>m. covered [(xs ! k, xs ! (k + 1)), (xs ! (k + 2), xs ! (k + 3))] (unat m) \<Longrightarrow> Q m e"
    "\<And>x. E x e"
  shows "wp (call_mem (stk xs l) k) Q E e"
  unfolding call_mem_def
  by (intro wp_intros assms(2,3)) (use assms(1) in \<open>auto simp: max_def word_le_nat_alt\<close>)

lemma req_CREATE_wp:
  assumes "good e" "schedule_ok (ext_schedule X)" "3 \<le> length xs"
  shows "request_wp good clears s CREATE xs e (req_CREATE X (stk xs l) :: ('e, 64) request_m)"
proof -
  have "0 < unat (gas_from (create_gas (ext_schedule X)) :: usize)"
    using assms(2) by (simp add: schedule_ok_def)
  then show ?thesis
    unfolding req_CREATE_def
    by (intro wp_intros) (use assms in \<open>auto simp: is_call_def mem_accesses_def value_charge_def\<close>)
qed

lemma req_DELEGATECALL_wp:
  assumes "good e" "schedule_ok (ext_schedule X)" "6 \<le> length xs"
  shows "request_wp good clears s DELEGATECALL xs e (req_DELEGATECALL X (stk xs l) :: ('e, 64) request_m)"
proof -
  have "0 < unat (gas_from (call_gas (ext_schedule X)) :: usize)"
    using assms(2) by (simp add: schedule_ok_def)
  then show ?thesis
    unfolding req_DELEGATECALL_def
    by (intro wp_intros call_mem_wp)
      (use assms in \<open>auto simp: is_call_def mem_accesses_def value_charge_def\<close>)
qed

lemma nat_bits_le: "n < 2 ^ k \<Longrightarrow> nat_bits n \<le> k"
proof (induction k arbitrary: n)
  case (Suc k)
  then have "n div 2 < 2 ^ k" by simp
  then show ?case using Suc.IH [of "n div 2"] by (subst nat_bits.simps) simp
qed (simp add: nat_bits.simps)

lemma bits_le: "bits w \<le> 256"
  using unsigned_less [of w] by (auto simp: bits_def intro!: nat_bits_le)

lemma req_EXP_wp:
  assumes "good e" "schedule_ok (ext_schedule X)" "2 \<le> length xs"
  shows "request_wp good clears s EXP xs e (req_EXP X (stk xs l) :: ('e, 64) request_m)"
proof -
  let ?S = "ext_schedule X"
  have S: "0 < exp_gas ?S" "exp_gas ?S < 2 ^ 32" "exp_byte_gas ?S < 2 ^ 32"
    using assms(2) by (auto simp: schedule_ok_def)
  have "(bits w + 7) div 8 \<le> 32" for w using bits_le [of w] by simp
  then have "exp_gas ?S + exp_byte_gas ?S * ((bits w + 7) div 8) < 2 ^ 64" for w
    using S by (intro small_sum) auto
  then have "0 < unat (gas_from (exp_gas ?S + exp_byte_gas ?S * ((bits w + 7) div 8)) :: usize)" for w
    using S(1) usize_gas_from by simp
  then show ?thesis
    unfolding req_EXP_def Let_def
    by (intro wp_intros) (use assms in \<open>auto simp: is_call_def mem_accesses_def\<close>)
qed


lemma pays_new_account_wp:
  assumes "keeps good clears (ext_exists X a)" "keeps good clears (ext_exists_and_not_null X a)"
    "good e" "\<And>b e'. kept good clears e e' \<Longrightarrow> Q b e'" "\<And>x e'. kept good clears e e' \<Longrightarrow> E x e'"
  shows "wp (pays_new_account X v a) Q E e"
proof -
  have "wp (sm_bind (try_trie f) (\<lambda>b. sm_ret (\<not> b))) Q E e" if "keeps good clears f" for f
    by (intro wp_bindI wp_try_trie [OF that assms(3)] wp_retI assms(4,5))
  then show ?thesis using assms by (simp add: pays_new_account_def wp_ret)
qed

lemma wp_gas_addI:
  fixes g :: usize
  assumes "\<And>h. unat g \<le> unat h \<Longrightarrow> (b \<longrightarrow> unat h = unat g + unat g') \<Longrightarrow> Q h s" "E OutOfGas s"
  shows "wp (if b then sm_lift (overflowing (overflow_add g g')) else sm_ret g) Q E s"
  using assms(1) [of g] assms
  by (cases b) (auto simp: wp_ret dest: overflow_add_Ok_unat intro!: wp_overflowingI)

context ext_contract
begin

lemma req_SSTORE_wp:
  assumes "good e" "2 \<le> length xs"
  shows "request_wp good clears s SSTORE xs e (req_SSTORE X (stk xs l) :: ('e, 64) request_m)"
proof -
  have S: "0 < sstore_set_gas (ext_schedule X)" "sstore_set_gas (ext_schedule X) < 2 ^ 32"
    "0 < sstore_reset_gas (ext_schedule X)" "sstore_reset_gas (ext_schedule X) < 2 ^ 32"
    using sched by (auto simp: schedule_ok_def)
  show ?thesis
    unfolding req_SSTORE_def Let_def
    by (intro wp_intros wp_try_trie [OF storage_at])
      (use assms S in \<open>auto simp: is_call_def mem_accesses_def\<close>)
qed

lemma req_SUICIDE_wp:
  assumes "good e" "1 \<le> length xs"
  shows "request_wp good clears s SUICIDE xs e (req_SUICIDE X (stk xs l) :: ('e, 64) request_m)"
  unfolding req_SUICIDE_def Let_def
  by (intro wp_bindI wp_try_trie [OF origin_balance assms(1)] wp_peekI
      pays_new_account_wp [OF exists exists_and_not_null])
    (use assms in \<open>auto simp: is_call_def halts_def mem_accesses_def wp_bind wp_ret kept_def intro!: wp_overflowingI\<close>)

lemma req_CALL_wp:
  assumes "good e" "7 \<le> length xs" "i = CALL \<or> i = CALLCODE"
  shows "request_wp good clears (ext_schedule X) i xs e (req_CALL X i (stk xs l) :: ('e, 64) request_m)"
proof -
  let ?S = "ext_schedule X"
  have S: "unat (gas_from (call_gas ?S) :: usize) = call_gas ?S" "0 < call_gas ?S"
    "unat (gas_from (call_value_transfer_gas ?S) :: usize) = call_value_transfer_gas ?S"
    using sched by (auto simp: schedule_ok_def)
  have new: "wp (if i = CALL then pays_new_account X v a else sm_ret False) Q E e"
    if "\<And>b e'. kept good clears e e' \<Longrightarrow> Q b e'" "\<And>x e'. kept good clears e e' \<Longrightarrow> E x e'" for v a Q E
    using pays_new_account_wp [OF exists exists_and_not_null assms(1) that] that(1) [of e False] assms(1)
    by (simp add: wp_ret)
  have i: "is_call i" "mem_accesses i xs = [(xs ! 3, xs ! (3 + 1)), (xs ! (3 + 2), xs ! (3 + 3))]"
    "value_charge ?S i xs = (if xs ! 2 \<noteq> 0 then call_value_transfer_gas ?S else 0)"
    using assms(3) by (elim disjE; simp add: is_call_def mem_accesses_def value_charge_def)+
  show ?thesis
    unfolding req_CALL_def Let_def
    by (intro wp_bindI call_mem_wp wp_peekI new wp_gas_addI wp_retI)
      (use assms(1,2) S in \<open>simp_all only: request_ok.simps i S, auto\<close>)
qed

lemma default_gas_Ok:
  assumes "info_tier info \<noteq> Tier_Invalid"
  shows "\<exists>g. default_gas (ext_schedule X) info = (Ok g :: usize evm_result) \<and>
      (info_tier info \<noteq> Tier_Zero \<longrightarrow> info_tier info \<noteq> Tier_Special \<longrightarrow> 0 < unat g)"
proof -
  have S: "length (tier_step_gas (ext_schedule X)) = 8"
    "\<And>i. i < 8 \<Longrightarrow> tier_step_gas (ext_schedule X) ! i < 2 ^ 32"
    "\<forall>i \<in> {1..6}. 0 < tier_step_gas (ext_schedule X) ! i"
    using sched by (auto simp: schedule_ok_def list_all_length)
  let ?t = "get_tier_idx (info_tier info)"
  have t: "?t < 8" using get_tier_idx_less [OF assms] .
  have "info_tier info \<noteq> Tier_Zero \<Longrightarrow> info_tier info \<noteq> Tier_Special \<Longrightarrow> ?t \<in> {1..6}"
    using assms by (cases "info_tier info") auto
  moreover have "unat (gas_from (tier_step_gas (ext_schedule X) ! ?t) :: usize) = tier_step_gas (ext_schedule X) ! ?t"
    using S(2) [OF t] by simp
  ultimately show ?thesis using S t by (auto simp: default_gas_def Let_def)
qed

lemma req_flat_wp:
  assumes "good e" "i = JUMPDEST \<or> i = SLOAD \<or> i = BALANCE \<or> i = EXTCODESIZE" "0 < unat g"
  shows "request_wp good clears s i xs e (sm_ret (Req_Gas g) :: ('e, 64) request_m)"
  using assms(2) by (elim disjE) (simp_all add: wp_ret is_call_def mem_accesses_def assms)

lemma req_word_wp:
  fixes g :: usize
  assumes "good e" "i = MSTORE \<or> i = MLOAD" "info_args (INSTRUCTIONS i) \<le> length xs" "0 < unat g"
  shows "request_wp good clears s i xs e
    (sm_bind (sm_lift (peek (stk xs l) 0)) (\<lambda>off. req_mem g (mem_needed_const off 32)))"
proof -
  have "xs \<noteq> []" "\<not> is_call i" "mem_accesses i xs = [(xs ! 0, 32)]"
    using assms(2,3) by (elim disjE; simp add: is_call_def mem_accesses_def; fastforce)+
  then show ?thesis using assms(1,4)
    by (intro wp_bindI wp_peekI req_mem_wp) (auto dest: mem_needed_const_Ok)
qed

lemma req_byte_wp:
  fixes g :: usize
  assumes "good e" "info_args (INSTRUCTIONS MSTORE8) \<le> length xs" "0 < unat g"
  shows "request_wp good clears s MSTORE8 xs e
    (sm_bind (sm_lift (peek (stk xs l) 0)) (\<lambda>off. req_mem g (mem_needed_const off 1)))"
proof -
  have "xs \<noteq> []" using assms(2) by auto
  then show ?thesis using assms(1,3)
    by (intro wp_bindI wp_peekI req_mem_wp)
      (auto simp: is_call_def mem_accesses_def dest: mem_needed_const_Ok)
qed

lemma req_RETURN_wp:
  fixes g :: usize
  assumes "good e" "info_args (INSTRUCTIONS RETURN) \<le> length xs"
  shows "request_wp good clears s RETURN xs e
    (sm_bind (sm_lift (peek (stk xs l) 0)) (\<lambda>off.
     sm_bind (sm_lift (peek (stk xs l) 1)) (\<lambda>sz. req_mem g (mem_needed off sz))))"
proof -
  have "2 \<le> length xs" using assms(2) by simp
  then show ?thesis using assms(1)
    by (intro wp_bindI wp_peekI req_mem_wp)
      (auto simp: is_call_def halts_def mem_accesses_def dest: mem_needed_Ok)
qed

lemma req_data_copy_wp:
  fixes g :: usize
  assumes "good e" "i = CALLDATACOPY \<or> i = CODECOPY" "info_args (INSTRUCTIONS i) \<le> length xs" "0 < unat g"
  shows "request_wp good clears s i xs e
    (sm_bind (sm_lift (peek (stk xs l) 0)) (\<lambda>off.
     sm_bind (sm_lift (peek (stk xs l) 2)) (\<lambda>sz. req_copy g off sz)))"
proof -
  have "3 \<le> length xs" "\<not> is_call i" "mem_accesses i xs = [(xs ! 0, xs ! 2)]"
    using assms(2,3) by (elim disjE; simp add: is_call_def mem_accesses_def)+
  then show ?thesis using assms(1,4)
    by (intro wp_bindI wp_peekI req_copy_wp) auto
qed

lemma req_ext_copy_wp:
  fixes g :: usize
  assumes "good e" "info_args (INSTRUCTIONS EXTCODECOPY) \<le> length xs" "0 < unat g"
  shows "request_wp good clears s EXTCODECOPY xs e
    (sm_bind (sm_lift (peek (stk xs l) 1)) (\<lambda>off.
     sm_bind (sm_lift (peek (stk xs l) 3)) (\<lambda>sz. req_copy g off sz)))"
proof -
  have "4 \<le> length xs" using assms(2) by simp
  then show ?thesis using assms(1,3)
    by (intro wp_bindI wp_peekI req_copy_wp) (auto simp: is_call_def mem_accesses_def)
qed

lemma req_default_wp:
  assumes "good e" "info_tier (INSTRUCTIONS i) \<noteq> Tier_Special"
    "info_tier (INSTRUCTIONS i) \<noteq> Tier_Zero \<longrightarrow> info_tier (INSTRUCTIONS i) \<noteq> Tier_Special \<longrightarrow> 0 < unat g"
    "\<not> is_call i" "mem_accesses i xs = []"
  shows "request_wp good clears s i xs e (sm_ret (Req_Gas g) :: ('e, 64) request_m)"
  using assms tier_Zero [of i] by (auto simp: wp_ret halts_def)

lemma instruction_request_wp:
  assumes "good e" "info_args (INSTRUCTIONS i) \<le> length xs" "info_tier (INSTRUCTIONS i) \<noteq> Tier_Invalid"
  shows "request_wp good clears (ext_schedule X) i xs e
    (instruction_request X i (INSTRUCTIONS i) (stk xs l) :: ('e, 64) request_m)"
proof -
  have S: "0 < unat (gas_from (sload_gas (ext_schedule X)) :: usize)"
    "0 < unat (gas_from (balance_gas (ext_schedule X)) :: usize)"
    "0 < unat (gas_from (extcodesize_gas (ext_schedule X)) :: usize)"
    "0 < unat (gas_from (extcodecopy_base_gas (ext_schedule X)) :: usize)" "0 < unat (gas_from 1 :: usize)"
    using sched by (auto simp: schedule_ok_def)
  have tier: "info_tier (INSTRUCTIONS MSTORE) = Tier_VeryLow" "info_tier (INSTRUCTIONS MLOAD) = Tier_VeryLow"
    "info_tier (INSTRUCTIONS MSTORE8) = Tier_VeryLow" "info_tier (INSTRUCTIONS CALLDATACOPY) = Tier_VeryLow"
    "info_tier (INSTRUCTIONS CODECOPY) = Tier_VeryLow"
    by (simp_all add: INSTRUCTIONS_def)
  note len = assms(2)
  show ?thesis
    unfolding instruction_request_def Let_def
    apply (rule wp_bindI, rule wp_someI [OF default_gas_Ok [OF assms(3)]], intro wp_ifI)
    subgoal by (intro req_flat_wp assms(1) S) simp
    subgoal premises p using len unfolding p by (intro req_SSTORE_wp assms(1)) simp
    subgoal by (intro req_flat_wp assms(1) S) simp
    subgoal by (intro req_flat_wp assms(1) S) simp
    subgoal by (intro req_flat_wp assms(1) S) simp
    subgoal premises p using len unfolding p by (intro req_SUICIDE_wp assms(1)) simp
    subgoal premises p using p(2,9) tier by (intro req_word_wp assms(1,2) p(9)) auto
    subgoal premises p using len p(2) tier unfolding p(10) by (intro req_byte_wp assms(1)) auto
    subgoal premises p using len unfolding p(11) by (intro req_RETURN_wp assms(1)) auto
    subgoal premises p using len unfolding p(12) by (intro req_SHA3_wp assms(1) sched) simp
    subgoal premises p using p(2,13) tier by (intro req_data_copy_wp assms(1,2) p(13)) auto
    subgoal premises p using len unfolding p(14) by (intro req_ext_copy_wp assms(1) S) auto
    subgoal premises p by (intro req_LOG_wp assms(1,2) p(15) sched)
    subgoal premises p using len p(16) by (intro req_CALL_wp assms(1) p(16)) auto
    subgoal premises p using len unfolding p(17) by (intro req_DELEGATECALL_wp assms(1) sched) simp
    subgoal premises p using len unfolding p(18) by (intro req_CREATE_wp assms(1) sched) simp
    subgoal premises p using len unfolding p(19) by (intro req_EXP_wp assms(1) sched) simp
    subgoal premises p
    proof (rule req_default_wp [OF assms(1)])
    show "info_tier (INSTRUCTIONS i) \<noteq> Tier_Special" using p(3-) by (intro tier_Special) auto
    show "\<not> is_call i" using p(3-) by (simp add: is_call_def)
    show "mem_accesses i xs = []" using p(3-) by (simp add: mem_accesses_def)
    qed (use p in auto)
    done
qed

theorem requirements_wp:
  fixes G :: "usize Gasometer"
  assumes "good e" "info_args (INSTRUCTIONS i) \<le> length xs" "info_tier (INSTRUCTIONS i) \<noteq> Tier_Invalid"
    "mem_gas_inv G (ext_schedule X) cur"
  shows "wp (requirements G X i (INSTRUCTIONS i) (stk xs l) cur)
    (\<lambda>r e'. reqs_ok (ext_schedule X) i xs cur r \<and> kept good clears e e') (\<lambda>_ e'. kept good clears e e') e"
proof -
  have "wp (sm_lift (request_requirements G (ext_schedule X) cur q))
      (\<lambda>r e'. reqs_ok (ext_schedule X) i xs cur r \<and> kept good clears e e') (\<lambda>_ e'. kept good clears e e') e'"
    if "request_ok (ext_schedule X) i xs q" "kept good clears e e'" for q e'
    using request_requirements_returns [OF sched assms(4), of q] that
      request_requirements_ok [OF that(1) sched assms(4)]
    by (intro wp_liftI) (auto simp: returns_def)
  then show ?thesis
    unfolding requirements_def wp_bind
    by (intro wp_mono [OF instruction_request_wp [OF assms(1-3)]]) auto
qed

end

end
