(* ===== verification/EVM_Jumps.thy ===== *)
theory EVM_Jumps
  imports EVM_Cost
begin

text \<open>
  Jump destinations (\<^verbatim>\<open>cita-executor/core/src/evm/interpreter/shared_cache.rs\<close> and \<open>verify_jump\<close> of
  \<^verbatim>\<open>evm/interpreter/mod.rs\<close>): the scan of the code that skips the operands of the push instructions,
  and the cache of its results by code hash. The bit set is the set of its positions; the LRU
  cache of the \<open>util\<close> crate is a parameter.
\<close>

section \<open>The scan\<close>

text \<open>The loop, with the position and the set built so far. A push operand is skipped; a push at the
  end of the code may skip past it.\<close>

function find_jump_destinations_loop :: "bytes \<Rightarrow> nat \<Rightarrow> nat set \<Rightarrow> ('e, nat set) res" where
  "find_jump_destinations_loop code position jump_dests =
     (if position < length code then
        let instruction = code ! position in
        if instruction = JUMPDEST then
          find_jump_destinations_loop code (position + 1) (insert position jump_dests)
        else if is_push instruction then
          (case get_push_bytes instruction of
             Ok n \<Rightarrow> find_jump_destinations_loop code (position + n + 1) jump_dests
           | Err e \<Rightarrow> Err e | Panic \<Rightarrow> Panic | Diverge \<Rightarrow> Diverge)
        else find_jump_destinations_loop code (position + 1) jump_dests
      else Ok jump_dests)"
  by pat_completeness auto
termination by (relation "measure (\<lambda>(code, position, _). length code - position)") auto

declare find_jump_destinations_loop.simps [simp del]

definition find_jump_destinations :: "bytes \<Rightarrow> ('e, nat set) res" where
  "find_jump_destinations code = find_jump_destinations_loop code 0 {}"

section \<open>The cache\<close>

text \<open>The cache \<open>MemoryLruCache\<close> of the \<open>util\<close> crate: a lookup may touch the entry, an insertion may
  evict others.\<close>

record 'l lru_ops =
  lru_get_mut :: "'l \<Rightarrow> h256 \<Rightarrow> nat set option \<times> 'l"
  lru_insert :: "'l \<Rightarrow> h256 \<Rightarrow> nat set \<Rightarrow> 'l"

definition jump_destinations ::
  "'l lru_ops \<Rightarrow> h256 \<Rightarrow> 'l \<Rightarrow> h256 \<Rightarrow> bytes \<Rightarrow> ('e, nat set) res \<times> 'l" where
  "jump_destinations L HASH_EMPTY cache code_hash code =
     (if code_hash = HASH_EMPTY then (find_jump_destinations code, cache)
      else case lru_get_mut L cache code_hash of
        (Some d, cache') \<Rightarrow> (Ok d, cache')
      | (None, cache') \<Rightarrow>
          (case find_jump_destinations code of
             Ok d \<Rightarrow> (Ok d, lru_insert L cache' code_hash d)
           | r \<Rightarrow> (r, cache')))"

definition verify_jump :: "u256 \<Rightarrow> nat set \<Rightarrow> nat evm_result" where
  "verify_jump jump_u valid_jump_destinations =
     (let jump = low_u64 jump_u in
      if unat jump \<in> valid_jump_destinations \<and> (ucast jump :: u256) = jump_u then Ok (unat jump)
      else Err (BadJumpDestination jump))"

section \<open>The specification\<close>

text \<open>The positions at which an instruction starts: zero, and after each instruction the position
  behind it and its operand.\<close>

definition instr_len :: "u8 \<Rightarrow> nat" where
  "instr_len i = (if is_push i then unat i - 0x5f + 1 else 1)"

inductive instr_start :: "bytes \<Rightarrow> nat \<Rightarrow> bool" for code where
  start: "instr_start code 0"
| next_instr: "instr_start code p \<Longrightarrow> p < length code \<Longrightarrow> instr_start code (p + instr_len (code ! p))"

definition valid_dest :: "bytes \<Rightarrow> nat \<Rightarrow> bool" where
  "valid_dest code p \<longleftrightarrow> instr_start code p \<and> p < length code \<and> code ! p = JUMPDEST"

inductive_cases instr_startE: "instr_start code p"

section \<open>The scan finds exactly the valid destinations\<close>

lemma get_push_bytes_len: "is_push i \<Longrightarrow> get_push_bytes i = Ok (instr_len i - 1)"
proof -
  assume p: "is_push i"
  then have le: "0x60 \<le> unat i" "unat i \<le> 0x7f" by (auto simp: is_push_def word_le_nat_alt)
  have "PUSH1 \<le> i" using p by (simp add: is_push_def)
  then have "unat (i - PUSH1) = unat i - 0x60" by (simp add: unat_sub)
  then have "unat (i - PUSH1 + 1) = unat i - 0x5f" using le by (subst unat_add_small) auto
  then show ?thesis using p by (simp add: get_push_bytes_def instr_len_def)
qed

lemma instr_len_pos: "0 < instr_len i"
  by (simp add: instr_len_def)

lemma scan_unfold:
  "find_jump_destinations_loop code p D =
     (if p < length code then
        find_jump_destinations_loop code (p + instr_len (code ! p))
          (if code ! p = JUMPDEST then insert p D else D)
      else Ok D)"
proof -
  have "instr_len JUMPDEST = 1" by (simp add: instr_len_def is_push_def)
  then show ?thesis
    using instr_len_pos [of "code ! p"]
    by (subst find_jump_destinations_loop.simps)
      (auto simp: Let_def get_push_bytes_len instr_len_def)
qed

text \<open>Two instruction starts are never inside one another: every start from \<open>p\<close> on is reached from
  \<open>p\<close>.\<close>

inductive reaches :: "bytes \<Rightarrow> nat \<Rightarrow> nat \<Rightarrow> bool" for code where
  here: "reaches code p p"
| further: "p < length code \<Longrightarrow> reaches code (p + instr_len (code ! p)) q \<Longrightarrow> reaches code p q"

inductive_cases reachesE: "reaches code p q"

lemma reaches_ge: "reaches code p q \<Longrightarrow> p \<le> q"
  by (induction rule: reaches.induct) auto

lemma reaches_snoc:
  "reaches code p q \<Longrightarrow> q < length code \<Longrightarrow> reaches code p (q + instr_len (code ! q))"
  by (induction rule: reaches.induct) (auto intro: reaches.intros)

lemma instr_start_reaches: "instr_start code q \<Longrightarrow> reaches code 0 q"
  by (induction rule: instr_start.induct) (auto intro: reaches.here reaches_snoc)

lemma reaches_instr_start: "reaches code p q \<Longrightarrow> instr_start code p \<Longrightarrow> instr_start code q"
  by (induction rule: reaches.induct) (auto intro: instr_start.next_instr)

lemma scan_result:
  "(find_jump_destinations_loop code p D :: ('e, nat set) res) =
     Ok (D \<union> {q. reaches code p q \<and> q < length code \<and> code ! q = JUMPDEST})"
proof (induction "length code - p" arbitrary: p D rule: less_induct)
  case less
  show ?case
  proof (cases "p < length code")
    case True
    let ?p' = "p + instr_len (code ! p)" and ?D' = "if code ! p = JUMPDEST then insert p D else D"
    have "(find_jump_destinations_loop code p D :: ('e, nat set) res) = find_jump_destinations_loop code ?p' ?D'"
      using True by (simp add: scan_unfold [of code p])
    also have "\<dots> = Ok (?D' \<union> {q. reaches code ?p' q \<and> q < length code \<and> code ! q = JUMPDEST})"
      using True instr_len_pos [of "code ! p"] by (intro less.hyps) linarith
    also have "?D' \<union> {q. reaches code ?p' q \<and> q < length code \<and> code ! q = JUMPDEST} =
        D \<union> {q. reaches code p q \<and> q < length code \<and> code ! q = JUMPDEST}"
      using True by (auto intro: reaches.intros elim: reachesE [of code p])
    finally show ?thesis .
  next
    case False
    then have "\<not> (reaches code p q \<and> q < length code)" for q using reaches_ge [of code p q] by auto
    with False show ?thesis by (auto simp: scan_unfold [of code p])
  qed
qed

lemma find_jump_destinations_eq: "find_jump_destinations code = Ok {p. valid_dest code p}"
proof -
  have "reaches code 0 q \<longleftrightarrow> instr_start code q" for q
    using instr_start_reaches reaches_instr_start [OF _ instr_start.start] by blast
  then show ?thesis by (simp add: find_jump_destinations_def scan_result valid_dest_def)
qed

lemma verify_jump_Ok:
  "verify_jump j D = Ok p \<longleftrightarrow> p = unat j \<and> p \<in> D \<and> unat j < 2 ^ 64"
proof -
  have "(ucast (low_u64 j) :: u256) = j \<longleftrightarrow> unat j < 2 ^ 64"
  proof
    assume "(ucast (low_u64 j) :: u256) = j"
    then have "unat j = unat (low_u64 j)" using unat_ucast_up [of "low_u64 j", where 'b = 256] by simp
    then show "unat j < 2 ^ 64" using unsigned_less [of "low_u64 j"] by simp
  next
    assume "unat j < 2 ^ 64"
    then have "unat (ucast (low_u64 j) :: u256) = unat j" by (simp add: unat_ucast_up low_u64_small)
    then show "(ucast (low_u64 j) :: u256) = j" by (simp only: word_unat_eq_iff)
  qed
  then show ?thesis by (auto simp: verify_jump_def Let_def low_u64_small)
qed

lemma verify_jump_returns [simp]: "verify_jump j D \<noteq> Panic" "verify_jump j D \<noteq> Diverge"
  by (simp_all add: verify_jump_def Let_def)

end
