(* ===== verification/EVM_Interpreter.thy ===== *)
theory EVM_Interpreter
  imports EVM_Arith EVM_Gasometer EVM_Jumps
begin

text \<open>
  The interpreter (\<^verbatim>\<open>cita-executor/core/src/evm/interpreter/mod.rs\<close>): the code reader, one definition per
  arm of \<open>exec_instruction\<close>, the loop \<open>exec\<close>, and the choice of cost type in \<^verbatim>\<open>evm/factory.rs\<close>. A
  frame's memory, stack and position are a record together with the state of the externalities;
  \<open>sha3\<close> and the lookup of jump destinations are parameters. The loop takes fuel, one unit per
  instruction; \<open>EVM_Safety\<close> shows that the gas plus one is enough.
\<close>

section \<open>The state of a frame\<close>

record 'e machine =
  m_mem :: bytes
  m_stack :: "u256 VecStack"
  m_pos :: nat
  m_ext :: 'e

type_synonym ('e, 'a) evm = "('e machine, evm_error, 'a) sm"

datatype 'g InstructionResult =
  IR_Ok
| UnusedGas 'g
| JumpToPosition u256
| StopExecutionNeedsReturn 'g u256 u256
| StopExecution

definition on_stack :: "(u256 VecStack \<Rightarrow> ('a \<times> u256 VecStack) evm_result) \<Rightarrow> ('e, 'a) evm" where
  "on_stack f = (\<lambda>m. case f (m_stack m) of
     Ok (a, s) \<Rightarrow> (Ok a, m\<lparr>m_stack := s\<rparr>)
   | Err x \<Rightarrow> (Err x, m) | Panic \<Rightarrow> (Panic, m) | Diverge \<Rightarrow> (Diverge, m))"

definition pop_m :: "('e, u256) evm" where
  "pop_m = on_stack pop_back"

definition push_m :: "u256 \<Rightarrow> ('e, unit) evm" where
  "push_m v = sm_modify (\<lambda>m. m\<lparr>m_stack := push (m_stack m) v\<rparr>)"

definition on_mem :: "(bytes \<Rightarrow> bytes evm_result) \<Rightarrow> ('e, unit) evm" where
  "on_mem f = (\<lambda>m. case f (m_mem m) of
     Ok mem \<Rightarrow> (Ok (), m\<lparr>m_mem := mem\<rparr>)
   | Err x \<Rightarrow> (Err x, m) | Panic \<Rightarrow> (Panic, m) | Diverge \<Rightarrow> (Diverge, m))"

definition get_mem :: "(bytes \<Rightarrow> 'a evm_result) \<Rightarrow> ('e, 'a) evm" where
  "get_mem f = (\<lambda>m. (f (m_mem m), m))"

definition on_ext :: "('e, evm_error, 'a) sm \<Rightarrow> ('e, 'a) evm" where
  "on_ext f = (\<lambda>m. case f (m_ext m) of (r, e) \<Rightarrow> (r, m\<lparr>m_ext := e\<rparr>))"

text \<open>The end of an arm that falls through to \<open>Ok(InstructionResult::Ok)\<close>.\<close>

definition done_m :: "('e, 'g InstructionResult) evm" where
  "done_m = sm_ret IR_Ok"

definition push_done :: "u256 \<Rightarrow> ('e, 'g InstructionResult) evm" where
  "push_done v = sm_bind (push_m v) (\<lambda>_. done_m)"

section \<open>The code reader\<close>

definition code_read :: "bytes \<Rightarrow> nat \<Rightarrow> ('e, u256) evm" where
  "code_read code no_of_bytes =
     sm_bind (sm_get m_pos) (\<lambda>pos.
     sm_bind (sm_modify (\<lambda>m. m\<lparr>m_pos := pos + no_of_bytes\<rparr>)) (\<lambda>_.
     let max' = min (pos + no_of_bytes) (length code) in
     sm_bind (sm_lift (slice_of code pos max')) (\<lambda>bs. sm_ret (u256_from_be bs))))"

section \<open>Control flow\<close>

definition exec_JUMP :: "('e, 'g InstructionResult) evm" where
  "exec_JUMP = sm_bind pop_m (\<lambda>jump. sm_ret (JumpToPosition jump))"

definition exec_JUMPI :: "('e, 'g InstructionResult) evm" where
  "exec_JUMPI =
     sm_bind pop_m (\<lambda>jump. sm_bind pop_m (\<lambda>condition.
     if condition \<noteq> 0 then sm_ret (JumpToPosition jump) else done_m))"

definition exec_RETURN :: "'g \<Rightarrow> ('e, 'g InstructionResult) evm" where
  "exec_RETURN gas =
     sm_bind pop_m (\<lambda>init_off. sm_bind pop_m (\<lambda>init_size.
     sm_ret (StopExecutionNeedsReturn gas init_off init_size)))"

definition exec_SUICIDE :: "'e Ext \<Rightarrow> ('e, 'g InstructionResult) evm" where
  "exec_SUICIDE X =
     sm_bind pop_m (\<lambda>a.
     sm_bind (on_ext (try_trie (ext_suicide X (u256_to_address a)))) (\<lambda>_. sm_ret StopExecution))"

section \<open>Nested frames\<close>

definition exec_CREATE ::
  "'e Ext \<Rightarrow> ActionParams \<Rightarrow> 'c::len word option \<Rightarrow> ('e, 'c word InstructionResult) evm" where
  "exec_CREATE X params provided =
     sm_bind pop_m (\<lambda>endowment. sm_bind pop_m (\<lambda>init_off. sm_bind pop_m (\<lambda>init_size.
     sm_bind (sm_lift (expect provided)) (\<lambda>create_g.
     sm_bind (get_mem (\<lambda>mem. read_slice mem init_off init_size)) (\<lambda>contract_code.
     sm_bind (on_ext (try_trie (ext_balance X (ap_address params)))) (\<lambda>bal.
     let can_create = (endowment \<le> bal \<and> ext_depth X < max_depth (ext_schedule X)) in
     if \<not> can_create then sm_bind (push_m 0) (\<lambda>_. sm_ret (UnusedGas create_g))
     else
       sm_bind (on_ext (ext_create X (as_u256 create_g) endowment contract_code)) (\<lambda>create_result.
       case create_result of
         Created a gas_left \<Rightarrow>
           sm_bind (push_m (address_to_u256 a)) (\<lambda>_.
           sm_bind (sm_lift (case from_u256 gas_left of Ok g \<Rightarrow> Ok g | _ \<Rightarrow> Panic)) (\<lambda>g.
           sm_ret (UnusedGas g)))
       | Create_Failed \<Rightarrow> push_done 0)))))))"

text \<open>Sender, receiver, whether the balance is enough, and the kind of call.\<close>

definition call_addresses ::
  "'e Ext \<Rightarrow> ActionParams \<Rightarrow> Instruction \<Rightarrow> address \<Rightarrow> u256 option \<Rightarrow>
   ('e, address \<times> address \<times> bool \<times> CallType) evm" where
  "call_addresses X params i code_address v =
     (if i = CALL then
        sm_bind (on_ext (try_trie (ext_balance X (ap_address params)))) (\<lambda>bal.
        sm_bind (sm_lift (expect v)) (\<lambda>val.
        sm_ret (ap_address params, code_address, val \<le> bal, CT_Call)))
      else if i = CALLCODE then
        sm_bind (on_ext (try_trie (ext_balance X (ap_address params)))) (\<lambda>bal.
        sm_bind (sm_lift (expect v)) (\<lambda>val.
        sm_ret (ap_address params, ap_address params, val \<le> bal, CT_CallCode)))
      else if i = DELEGATECALL then sm_ret (ap_sender params, ap_address params, True, CT_DelegateCall)
      else sm_lift Panic)"

definition call_value :: "Instruction \<Rightarrow> ('e, u256 option) evm" where
  "call_value i = (if i = DELEGATECALL then sm_ret None else sm_bind pop_m (\<lambda>v. sm_ret (Some v)))"

text \<open>The stipend a call with a value hands to the callee.\<close>

definition stipend :: "Schedule \<Rightarrow> u256 option \<Rightarrow> 'c::len word" where
  "stipend s v = (case v of
     None \<Rightarrow> gas_from 0
   | Some val \<Rightarrow> if val = 0 then gas_from 0 else gas_from (call_stipend s))"

text \<open>The input is a view of the memory; the output is a mutable view of it, which the callee fills
  after it has read its input.\<close>

definition do_call ::
  "'e Ext \<Rightarrow> 'c::len word \<Rightarrow> address \<Rightarrow> address \<Rightarrow> u256 option \<Rightarrow> address \<Rightarrow> CallType \<Rightarrow>
   u256 \<Rightarrow> u256 \<Rightarrow> u256 \<Rightarrow> u256 \<Rightarrow> ('e, MessageCallResult) evm" where
  "do_call X call_g sender_address receive_address v code_address call_type in_off in_size out_off out_size =
     sm_bind (get_mem (\<lambda>mem. read_slice mem in_off in_size)) (\<lambda>input.
     sm_bind (get_mem (\<lambda>mem. writeable_slice mem out_off out_size)) (\<lambda>(o_start, o_len).
     sm_bind (get_mem (\<lambda>mem. slice_of mem o_start (o_start + o_len))) (\<lambda>output.
     sm_bind (on_ext (ext_call X (as_u256 call_g) sender_address receive_address v input code_address
                        output call_type)) (\<lambda>(r, output').
     sm_bind (on_mem (\<lambda>mem. write_range mem o_start output')) (\<lambda>_. sm_ret r)))))"

definition exec_CALL ::
  "'e Ext \<Rightarrow> ActionParams \<Rightarrow> Instruction \<Rightarrow> 'c::len word option \<Rightarrow> ('e, 'c word InstructionResult) evm" where
  "exec_CALL X params i provided =
     sm_bind (sm_lift (rust_assert
       (call_value_transfer_gas (ext_schedule X) > call_stipend (ext_schedule X)))) (\<lambda>_.
     sm_bind pop_m (\<lambda>_.
     sm_bind (sm_lift (expect provided)) (\<lambda>call_g.
     sm_bind pop_m (\<lambda>a.
     let code_address = u256_to_address a in
     sm_bind (call_value i) (\<lambda>v.
     sm_bind pop_m (\<lambda>in_off. sm_bind pop_m (\<lambda>in_size.
     sm_bind pop_m (\<lambda>out_off. sm_bind pop_m (\<lambda>out_size.
     sm_bind (sm_lift (plus_chk call_g (stipend (ext_schedule X) v))) (\<lambda>call_g'.
     sm_bind (call_addresses X params i code_address v)
       (\<lambda>(sender_address, receive_address, has_balance, call_type).
     let can_call = (has_balance \<and> ext_depth X < max_depth (ext_schedule X)) in
     if \<not> can_call then sm_bind (push_m 0) (\<lambda>_. sm_ret (UnusedGas call_g'))
     else
       sm_bind (do_call X call_g' sender_address receive_address v code_address call_type
                  in_off in_size out_off out_size) (\<lambda>call_result.
       case call_result of
         Success gas_left \<Rightarrow>
           sm_bind (push_m 1) (\<lambda>_.
           sm_bind (sm_lift (case from_u256 gas_left of Ok g \<Rightarrow> Ok g | _ \<Rightarrow> Panic)) (\<lambda>g.
           sm_ret (UnusedGas g)))
       | Call_Failed \<Rightarrow> push_done 0))))))))))))"

section \<open>Logs, pushes and memory\<close>

definition exec_LOG :: "'e Ext \<Rightarrow> Instruction \<Rightarrow> ('e, 'g InstructionResult) evm" where
  "exec_LOG X i =
     sm_bind (sm_lift (get_log_topics i)) (\<lambda>no_of_topics.
     sm_bind pop_m (\<lambda>offset. sm_bind pop_m (\<lambda>sz.
     sm_bind (on_stack (\<lambda>s. pop_n s no_of_topics)) (\<lambda>topics.
     sm_bind (get_mem (\<lambda>mem. read_slice mem offset sz)) (\<lambda>d.
     sm_bind (on_ext (ext_log X topics d)) (\<lambda>_. done_m))))))"

definition exec_PUSH :: "bytes \<Rightarrow> Instruction \<Rightarrow> ('e, 'g InstructionResult) evm" where
  "exec_PUSH code i =
     sm_bind (sm_lift (get_push_bytes i)) (\<lambda>n.
     sm_bind (code_read code n) (\<lambda>v. push_done v))"

definition exec_MLOAD :: "('e, 'g InstructionResult) evm" where
  "exec_MLOAD = sm_bind pop_m (\<lambda>off. sm_bind (get_mem (\<lambda>mem. mem_read mem off)) push_done)"

definition exec_MSTORE :: "('e, 'g InstructionResult) evm" where
  "exec_MSTORE =
     sm_bind pop_m (\<lambda>offset. sm_bind pop_m (\<lambda>w.
     sm_bind (on_mem (\<lambda>mem. mem_write mem offset w)) (\<lambda>_. done_m)))"

definition exec_MSTORE8 :: "('e, 'g InstructionResult) evm" where
  "exec_MSTORE8 =
     sm_bind pop_m (\<lambda>offset. sm_bind pop_m (\<lambda>b.
     sm_bind (on_mem (\<lambda>mem. write_byte mem offset b)) (\<lambda>_. done_m)))"

definition exec_MSIZE :: "('e, 'g InstructionResult) evm" where
  "exec_MSIZE = sm_bind (sm_get (\<lambda>m. mem_size (m_mem m))) (\<lambda>n. push_done (of_nat n))"

definition exec_SHA3 :: "(bytes \<Rightarrow> h256) \<Rightarrow> ('e, 'g InstructionResult) evm" where
  "exec_SHA3 sha3 =
     sm_bind pop_m (\<lambda>offset. sm_bind pop_m (\<lambda>sz.
     sm_bind (get_mem (\<lambda>mem. read_slice mem offset sz)) (\<lambda>d. push_done (sha3 d))))"

section \<open>Storage and environment\<close>

definition exec_SLOAD :: "'e Ext \<Rightarrow> ('e, 'g InstructionResult) evm" where
  "exec_SLOAD X =
     sm_bind pop_m (\<lambda>key. sm_bind (on_ext (try_trie (ext_storage_at X key))) push_done)"

definition exec_SSTORE :: "'e Ext \<Rightarrow> ('e, 'g InstructionResult) evm" where
  "exec_SSTORE X =
     sm_bind pop_m (\<lambda>a. sm_bind pop_m (\<lambda>val.
     sm_bind (on_ext (try_trie (ext_storage_at X a))) (\<lambda>current_val.
     sm_bind (if current_val \<noteq> 0 \<and> val = 0 then on_ext (ext_inc_sstore_clears X) else sm_ret ()) (\<lambda>_.
     sm_bind (on_ext (try_trie (ext_set_storage X a val))) (\<lambda>_. done_m)))))"

definition exec_PC :: "('e, 'g InstructionResult) evm" where
  "exec_PC = sm_bind (sm_get m_pos) (\<lambda>p. push_done (of_nat (p - 1)))"

definition exec_BALANCE :: "'e Ext \<Rightarrow> ('e, 'g InstructionResult) evm" where
  "exec_BALANCE X =
     sm_bind pop_m (\<lambda>a. sm_bind (on_ext (try_trie (ext_balance X (u256_to_address a)))) push_done)"

definition calldataload :: "bytes option \<Rightarrow> u256 \<Rightarrow> u256 evm_result" where
  "calldataload data big_id =
     (let id = low_u64 big_id;
          max' = id + 32
      in case data of
           Some d \<Rightarrow>
             let bound = min (length d) (unat max') in
             if unat id < bound \<and> big_id < of_nat (length d) then
               res_bind (slice_of d (unat id) bound) (\<lambda>bs.
               res_bind (write_range (replicate 32 0) 0 bs) (\<lambda>v. Ok (u256_from_be v)))
             else Ok 0
         | None \<Rightarrow> Ok 0)"

definition exec_CALLDATALOAD :: "ActionParams \<Rightarrow> ('e, 'g InstructionResult) evm" where
  "exec_CALLDATALOAD params =
     sm_bind pop_m (\<lambda>big_id. sm_bind (sm_lift (calldataload (ap_data params) big_id)) push_done)"

definition exec_CALLDATASIZE :: "ActionParams \<Rightarrow> ('e, 'g InstructionResult) evm" where
  "exec_CALLDATASIZE params =
     push_done (of_nat (case ap_data params of None \<Rightarrow> 0 | Some l \<Rightarrow> length l))"

definition exec_EXTCODESIZE :: "'e Ext \<Rightarrow> ('e, 'g InstructionResult) evm" where
  "exec_EXTCODESIZE X =
     sm_bind pop_m (\<lambda>a.
     sm_bind (on_ext (try_trie (ext_extcodesize X (u256_to_address a)))) (\<lambda>n. push_done (of_nat n)))"

definition exec_BLOCKHASH :: "'e Ext \<Rightarrow> ('e, 'g InstructionResult) evm" where
  "exec_BLOCKHASH X =
     sm_bind pop_m (\<lambda>n. sm_bind (on_ext (ext_blockhash X n)) push_done)"

section \<open>Copying to memory\<close>

text \<open>\<open>copy_data_to_memory\<close> after its three pops: the part past the end of the source is filled with
  zeros, then the part inside it is copied.\<close>

definition copy_exceeds :: "u256 \<Rightarrow> u256 \<Rightarrow> u256 \<Rightarrow> bool evm_result" where
  "copy_exceeds source_offset sz src_size =
     (if source_offset > src_size \<or> sz > src_size then Ok True
      else res_bind (plus_chk source_offset sz) (\<lambda>t. Ok (t > src_size)))"

definition copy_zero_slice :: "bytes \<Rightarrow> u256 \<Rightarrow> u256 \<Rightarrow> u256 \<Rightarrow> u256 \<Rightarrow> (nat \<times> nat) evm_result" where
  "copy_zero_slice mem dest_offset source_offset sz src_size =
     (if source_offset > src_size then writeable_slice mem dest_offset sz
      else
        res_bind (plus_chk dest_offset src_size) (\<lambda>t1.
        res_bind (minus_chk t1 source_offset) (\<lambda>off.
        res_bind (plus_chk source_offset sz) (\<lambda>t2.
        res_bind (minus_chk t2 src_size) (\<lambda>n. writeable_slice mem off n)))))"

definition copy_to_mem :: "bytes \<Rightarrow> u256 \<Rightarrow> u256 \<Rightarrow> u256 \<Rightarrow> bytes \<Rightarrow> bytes evm_result" where
  "copy_to_mem source dest_offset source_offset sz mem =
     (let src_size = of_nat (length source) in
      res_bind (copy_exceeds source_offset sz src_size) (\<lambda>exceeds.
      res_bind
        (if exceeds then
           res_bind (copy_zero_slice mem dest_offset source_offset sz src_size) (\<lambda>(i, n).
           res_bind (write_range mem i (replicate n 0)) (\<lambda>mem'. Ok (mem', length source)))
         else
           res_bind (plus_chk (low_u64 sz) (low_u64 source_offset)) (\<lambda>t. Ok (mem, unat t)))
        (\<lambda>(mem', output_end).
      if source_offset < src_size then
        let output_begin = unat (low_u64 source_offset) in
        res_bind (slice_of source output_begin output_end) (\<lambda>src. write_slice mem' dest_offset src)
      else Ok mem')))"

definition copy_data_to_memory :: "bytes \<Rightarrow> ('e, 'g InstructionResult) evm" where
  "copy_data_to_memory source =
     sm_bind pop_m (\<lambda>dest_offset. sm_bind pop_m (\<lambda>source_offset. sm_bind pop_m (\<lambda>sz.
     sm_bind (on_mem (copy_to_mem source dest_offset source_offset sz)) (\<lambda>_. done_m))))"

definition exec_EXTCODECOPY :: "'e Ext \<Rightarrow> ('e, 'g InstructionResult) evm" where
  "exec_EXTCODECOPY X =
     sm_bind pop_m (\<lambda>a.
     sm_bind (on_ext (try_trie (ext_extcode X (u256_to_address a)))) copy_data_to_memory)"

section \<open>The dispatcher\<close>

definition bytes_or_empty :: "bytes option \<Rightarrow> bytes" where
  "bytes_or_empty d = (case d of None \<Rightarrow> [] | Some b \<Rightarrow> b)"

definition exec_env_instruction ::
  "'e Ext \<Rightarrow> ActionParams \<Rightarrow> bytes \<Rightarrow> Instruction \<Rightarrow> ('e, 'g InstructionResult) evm" where
  "exec_env_instruction X params code i =
     (if i = PC then exec_PC
      else if i = ADDRESS then push_done (address_to_u256 (ap_address params))
      else if i = ORIGIN then push_done (address_to_u256 (ap_origin params))
      else if i = BALANCE then exec_BALANCE X
      else if i = CALLER then push_done (address_to_u256 (ap_sender params))
      else if i = CALLVALUE then push_done (action_value (ap_value params))
      else if i = CALLDATALOAD then exec_CALLDATALOAD params
      else if i = CALLDATASIZE then exec_CALLDATASIZE params
      else if i = CODESIZE then push_done (of_nat (length code))
      else if i = EXTCODESIZE then exec_EXTCODESIZE X
      else if i = CALLDATACOPY then copy_data_to_memory (bytes_or_empty (ap_data params))
      else if i = CODECOPY then copy_data_to_memory (bytes_or_empty (ap_code params))
      else if i = EXTCODECOPY then exec_EXTCODECOPY X
      else if i = GASPRICE then push_done (ap_gas_price params)
      else if i = BLOCKHASH then exec_BLOCKHASH X
      else if i = COINBASE then push_done (address_to_u256 (ei_author (ext_env_info X)))
      else if i = TIMESTAMP then push_done (ucast (ei_timestamp (ext_env_info X)))
      else if i = NUMBER then push_done (ucast (ei_number (ext_env_info X)))
      else if i = DIFFICULTY then push_done (ei_difficulty (ext_env_info X))
      else if i = GASLIMIT then push_done (ei_gas_limit (ext_env_info X))
      else sm_bind (on_stack (\<lambda>s. res_map (Pair ()) (exec_stack_instruction i s))) (\<lambda>_. done_m))"

definition exec_instruction ::
  "'e Ext \<Rightarrow> (bytes \<Rightarrow> h256) \<Rightarrow> 'c::len word \<Rightarrow> ActionParams \<Rightarrow> bytes \<Rightarrow> Instruction \<Rightarrow>
   'c word option \<Rightarrow> ('e, 'c word InstructionResult) evm" where
  "exec_instruction X sha3 gas params code i provided =
     (if i = JUMP then exec_JUMP
      else if i = JUMPI then exec_JUMPI
      else if i = JUMPDEST then done_m
      else if i = CREATE then exec_CREATE X params provided
      else if i = CALL \<or> i = CALLCODE \<or> i = DELEGATECALL then exec_CALL X params i provided
      else if i = RETURN then exec_RETURN gas
      else if i = STOP then sm_ret StopExecution
      else if i = SUICIDE then exec_SUICIDE X
      else if LOG0 \<le> i \<and> i \<le> LOG4 then exec_LOG X i
      else if PUSH1 \<le> i \<and> i \<le> PUSH32 then exec_PUSH code i
      else if i = MLOAD then exec_MLOAD
      else if i = MSTORE then exec_MSTORE
      else if i = MSTORE8 then exec_MSTORE8
      else if i = MSIZE then exec_MSIZE
      else if i = SHA3 then exec_SHA3 sha3
      else if i = SLOAD then exec_SLOAD X
      else if i = SSTORE then exec_SSTORE X
      else if i = GAS then push_done (as_u256 gas)
      else exec_env_instruction X params code i)"

section \<open>One instruction\<close>

definition verify_instruction ::
  "Schedule \<Rightarrow> Instruction \<Rightarrow> InstructionInfo \<Rightarrow> u256 VecStack \<Rightarrow> unit evm_result" where
  "verify_instruction schedule i info stack =
     (if \<not> have_delegate_call schedule \<and> i = DELEGATECALL then Err (BadInstruction i)
      else if info_tier info = Tier_Invalid then Err (BadInstruction i)
      else if \<not> has stack (info_args info) then
        Err (StackUnderflow (info_name info) (info_args info) (stack_size stack))
      else if stack_size stack - info_args info + info_ret info > stack_limit schedule then
        (if info_args info \<le> info_ret info then
           Err (OutOfStack (info_name info) (info_ret info - info_args info) (stack_limit schedule))
         else Panic)
      else Ok ())"

definition peek_low :: "u256 VecStack \<Rightarrow> nat \<Rightarrow> nat evm_result" where
  "peek_low stack n = res_map (\<lambda>v. unat (low_u64 v)) (peek stack n)"

definition mem_written :: "Instruction \<Rightarrow> u256 VecStack \<Rightarrow> (nat \<times> nat) option evm_result" where
  "mem_written i stack =
     (let range = (\<lambda>o' s'. res_bind (peek_low stack o') (\<lambda>off.
                    res_bind (peek_low stack s') (\<lambda>sz. Ok (Some (off, sz))))) in
      if i = MSTORE \<or> i = MLOAD then res_bind (peek_low stack 0) (\<lambda>off. Ok (Some (off, 32)))
      else if i = MSTORE8 then res_bind (peek_low stack 0) (\<lambda>off. Ok (Some (off, 1)))
      else if i = CALLDATACOPY \<or> i = CODECOPY then range 0 2
      else if i = EXTCODECOPY then range 1 3
      else if i = CALL \<or> i = CALLCODE then range 5 6
      else if i = DELEGATECALL then range 4 5
      else Ok None)"

definition store_written :: "Instruction \<Rightarrow> u256 VecStack \<Rightarrow> (u256 \<times> u256) option evm_result" where
  "store_written i stack =
     (if i = SSTORE then
        res_bind (peek stack 0) (\<lambda>k. res_bind (peek stack 1) (\<lambda>v. Ok (Some (k, v))))
      else Ok None)"

text \<open>What is traced before and after the instruction, when the tracer asks for it.\<close>

definition trace_before ::
  "bool \<Rightarrow> Instruction \<Rightarrow> ('e, (nat \<times> nat) option \<times> (u256 \<times> u256) option) evm" where
  "trace_before trace_executed i =
     (if trace_executed then
        sm_bind (sm_get m_stack) (\<lambda>stack.
        sm_bind (sm_lift (mem_written i stack)) (\<lambda>mw.
        sm_bind (sm_lift (store_written i stack)) (\<lambda>sw. sm_ret (mw, sw))))
      else sm_ret (None, None))"

definition trace_after ::
  "'e Ext \<Rightarrow> bool \<Rightarrow> InstructionInfo \<Rightarrow> u256 \<Rightarrow> (nat \<times> nat) option \<Rightarrow> (u256 \<times> u256) option \<Rightarrow> ('e, unit) evm" where
  "trace_after X trace_executed info gas mw sw =
     (if trace_executed then
        sm_bind (sm_get m_stack) (\<lambda>stack.
        sm_bind (sm_lift (peek_top stack (info_ret info))) (\<lambda>pushed.
        sm_bind (case mw of
                   None \<Rightarrow> sm_ret None
                 | Some (off, sz) \<Rightarrow>
                     sm_bind (get_mem (\<lambda>mem. slice_of mem off (off + sz))) (\<lambda>bs. sm_ret (Some (off, bs))))
          (\<lambda>diff. on_ext (ext_trace_executed X gas pushed diff sw))))
      else sm_ret ())"

text \<open>The body of the loop up to \<open>// Advance\<close>: the result of the instruction and the gasometer after
  it.\<close>

definition exec_step ::
  "'e Ext \<Rightarrow> (bytes \<Rightarrow> h256) \<Rightarrow> ActionParams \<Rightarrow> bytes \<Rightarrow> 'c::len word Gasometer \<Rightarrow>
   ('e, 'c word InstructionResult \<times> 'c word Gasometer) evm" where
  "exec_step X sha3 params code G =
     sm_bind (sm_get m_pos) (\<lambda>pos.
     let i = code ! pos; info = INSTRUCTIONS i in
     sm_bind (sm_modify (\<lambda>m. m\<lparr>m_pos := pos + 1\<rparr>)) (\<lambda>_.
     sm_bind (sm_get m_stack) (\<lambda>stack.
     sm_bind (sm_lift (verify_instruction (ext_schedule X) i info stack)) (\<lambda>_.
     sm_bind (sm_get (\<lambda>m. mem_size (m_mem m))) (\<lambda>cur.
     sm_bind (on_ext (requirements G X i info stack cur)) (\<lambda>reqs.
     sm_bind (on_ext (ext_trace_prepare_execute X pos i (as_u256 (gas_cost reqs)))) (\<lambda>trace_executed.
     sm_bind (sm_lift (verify_gas G (gas_cost reqs))) (\<lambda>_.
     sm_bind (sm_modify (\<lambda>m. m\<lparr>m_mem := expand (m_mem m) (memory_required_size reqs)\<rparr>)) (\<lambda>_.
     sm_bind (sm_lift (minus_chk (current_gas G) (gas_cost reqs))) (\<lambda>gas.
     sm_bind (trace_before trace_executed i) (\<lambda>(mw, sw).
     sm_bind (exec_instruction X sha3 gas params code i (provide_gas reqs)) (\<lambda>result.
     sm_bind (sm_lift (case result of UnusedGas g \<Rightarrow> plus_chk gas g | _ \<Rightarrow> Ok gas)) (\<lambda>gas'.
     sm_bind (trace_after X trace_executed info (as_u256 gas') mw sw) (\<lambda>_.
     sm_ret (result, \<lparr>current_gas = gas', current_mem_gas = memory_total_gas reqs\<rparr>)))))))))))))))"

section \<open>The loop\<close>

primrec exec_loop ::
  "nat \<Rightarrow> 'e Ext \<Rightarrow> (bytes \<Rightarrow> h256) \<Rightarrow> ActionParams \<Rightarrow> bytes \<Rightarrow> nat set \<Rightarrow> 'c::len word Gasometer \<Rightarrow>
   ('e, GasLeft) evm" where
  "exec_loop 0 X sha3 params code dests G = sm_lift Diverge"
| "exec_loop (Suc fuel) X sha3 params code dests G =
     sm_bind (sm_get m_pos) (\<lambda>pos.
     if pos < length code then
       sm_bind (exec_step X sha3 params code G) (\<lambda>(result, G').
       case result of
         JumpToPosition position \<Rightarrow>
           sm_bind (sm_lift (verify_jump position dests)) (\<lambda>p.
           sm_bind (sm_modify (\<lambda>m. m\<lparr>m_pos := p\<rparr>)) (\<lambda>_.
           exec_loop fuel X sha3 params code dests G'))
       | StopExecutionNeedsReturn gas off sz \<Rightarrow>
           sm_bind (get_mem (\<lambda>mem. read_slice mem off sz)) (\<lambda>d.
           sm_ret (NeedsReturn (as_u256 gas) d))
       | StopExecution \<Rightarrow> sm_ret (Known (as_u256 (current_gas G')))
       | _ \<Rightarrow> exec_loop fuel X sha3 params code dests G')
     else sm_ret (Known (as_u256 (current_gas G))))"

text \<open>\<open>exec\<close> for the cost type of width \<open>'c\<close>. The fuel is the gas plus one.\<close>

definition exec ::
  "'c::len itself \<Rightarrow> 'e Ext \<Rightarrow> (bytes \<Rightarrow> h256) \<Rightarrow> (h256 \<Rightarrow> bytes \<Rightarrow> nat set evm_result) \<Rightarrow> ActionParams \<Rightarrow>
   ('e, evm_error, GasLeft) sm" where
  "exec cost X sha3 jumps params =
     sm_bind (sm_lift (expect (ap_code params))) (\<lambda>code.
     sm_bind (sm_lift (jumps (ap_code_hash params) code)) (\<lambda>dests.
     sm_bind (sm_lift (from_u256 (ap_gas params) :: 'c word evm_result)) (\<lambda>gas.
     (\<lambda>e. case exec_loop (Suc (unat gas)) X sha3 params code dests (Gasometer_new gas)
               \<lparr>m_mem = [], m_stack = with_capacity 0, m_pos = 0, m_ext = e\<rparr> of
             (r, m) \<Rightarrow> (r, m_ext m)))))"

section \<open>The choice of cost type\<close>

definition can_fit_in_usize :: "u256 \<Rightarrow> bool" where
  "can_fit_in_usize gas \<longleftrightarrow> gas = ucast (low_u64 gas)"

text \<open>\<open>Factory::create(gas).exec(params, ext)\<close>.\<close>

definition factory_exec ::
  "'e Ext \<Rightarrow> (bytes \<Rightarrow> h256) \<Rightarrow> (h256 \<Rightarrow> bytes \<Rightarrow> nat set evm_result) \<Rightarrow> ActionParams \<Rightarrow>
   ('e, evm_error, GasLeft) sm" where
  "factory_exec X sha3 jumps params =
     (if can_fit_in_usize (ap_gas params) then exec TYPE(64) X sha3 jumps params
      else exec TYPE(256) X sha3 jumps params)"

end
