(* ===== verification/EVM_Properties.thy ===== *)
theory EVM_Properties
  imports EVM_Interpreter
begin

text \<open>
  The properties of the parts of the virtual machine below the interpreter loop: memory, arithmetic,
  jump destinations and the cost type. Each is stated over the definitions of its component and
  rests on that component's lemmas.
\<close>

section \<open>Memory\<close>

text \<open>C25: A word written to memory is read back unchanged, the size of the memory is kept, and no byte
  outside the 32 written ones changes.\<close>

theorem memory_word_roundtrip:
  assumes "mem_write mem off v = Ok mem'"
  shows "mem_read mem' off = Ok v \<and> length mem' = length mem \<and>
    (\<forall>j < length mem. j < unat (low_u64 off) \<or> unat (low_u64 off) + 32 \<le> j \<longrightarrow> mem' ! j = mem ! j)"
  using mem_write_read [OF assms] write_range_length [OF assms [unfolded mem_write_def]]
    write_range_outside [OF assms [unfolded mem_write_def]]
  by auto

theorem memory_word_roundtrip_witness:
  "\<exists>mem'. mem_write (replicate 64 0xff) 8 0x1234 = (Ok mem' :: bytes evm_result) \<and>
     mem_read mem' 8 = (Ok 0x1234 :: u256 evm_result) \<and> mem' ! 40 = 0xff"
proof -
  let ?mem = "replicate 64 0xff :: bytes"
  obtain mem' where w: "mem_write ?mem 8 0x1234 = (Ok mem' :: bytes evm_result)"
    by (simp add: mem_write_def write_range_def low_u64_def)
  have "mem' ! 40 = ?mem ! 40"
    using memory_word_roundtrip [OF w, where 'b = evm_error] by (simp add: low_u64_def)
  then show ?thesis using w memory_word_roundtrip [OF w, where 'b = evm_error] by auto
qed

section \<open>Arithmetic\<close>

text \<open>C26: The division with its shortcuts for powers of two is the division of natural numbers, with
  zero for a zero divisor.\<close>

theorem div_shortcuts_exact: "unat (evm_div a b) = unat a div unat b"
  by (simp add: evm_div_eq unat_div)

text \<open>C27: The signed operations, computed on sign and magnitude, agree with truncated division and
  remainder of the signed values and with the signed order.\<close>

theorem signed_ops_exact:
  "evm_sdiv x y = word_of_int (sint x sdiv sint y) \<and>
   evm_smod x y = (if sint y = 0 then 0 else word_of_int (sint x smod sint y)) \<and>
   evm_slt x y = bool_to_u256 (sint x < sint y) \<and>
   evm_sgt x y = bool_to_u256 (sint y < sint x)"
  by (simp add: evm_sdiv_eq evm_smod_eq evm_slt_eq evm_sgt_eq)

text \<open>C28: Addition and multiplication modulo a number are exact (the intermediate result is not
  truncated to 256 bits), return, and give zero for modulus zero.\<close>

theorem modular_ops_exact:
  "\<exists>s p. evm_addmod a b c = Ok s \<and> evm_mulmod a b c = Ok p \<and>
     (if c = 0 then s = 0 \<and> p = 0
      else unat s = (unat a + unat b) mod unat c \<and> unat p = unat a * unat b mod unat c)"
proof -
  have "n mod unat c < 2 ^ 256" if "c \<noteq> 0" for n
    using that unat_u256 [of c] by (intro less_trans [OF mod_less_divisor]) (auto simp: unat_gt_0)
  then show ?thesis by (simp add: evm_addmod_eq evm_mulmod_eq unat_of_nat_small)
qed

text \<open>C29: \<open>BYTE\<close> selects a byte of the big-endian representation, and \<open>SIGNEXTEND\<close> extends the sign of
  the addressed byte.\<close>

theorem byte_ops_exact:
  "evm_byte n v = (if n < 32 then ucast (u256_to_be v ! unat n) else 0) \<and>
   (n < 32 \<longrightarrow> evm_signextend n v = signed_take_bit (8 * unat n + 7) v)"
  by (simp add: evm_byte_eq evm_signextend_eq)

theorem byte_ops_exact_witness:
  "evm_byte 31 0xab = 0xab \<and> evm_signextend 0 0xff = - 1"
proof -
  have b: "u256_to_be 0xab ! 31 = 0xab"
    by (simp add: u256_to_be_def nat_be_nth)
  have s: "signed_take_bit 7 (0xff :: u256) = - 1"
    by (simp add: signed_take_bit_eq_if_negative mask_eq_exp_minus_1 bit_simps)
  have lt: "(31 :: u256) < 32" "(0 :: u256) < 32" by simp_all
  show ?thesis
    using byte_ops_exact [of 31 "0xab"] byte_ops_exact [of 0 "0xff"] b s lt by simp
qed

section \<open>The cost type\<close>

text \<open>C30: The two implementations of the cost type agree with one definition that is generic in the
  width, on every method where they differ in the source.\<close>

theorem cost_type_instances:
  "usize_from_u256 v = from_u256 v \<and> from_u256 v = Ok v \<and>
   u256_as_usize w = as_usize w \<and> as_usize u = (Ok u :: usize evm_result) \<and>
   usize_overflow_mul_shr a b n = overflow_mul_shr a b n \<and>
   u256_overflow_mul_shr c d n = overflow_mul_shr c d n"
  by (simp add: usize_from_u256_eq u256_as_usize_eq usize_overflow_mul_shr_eq u256_overflow_mul_shr_eq)

section \<open>Jump destinations\<close>

text \<open>C23: The scan of the code ends, and marks exactly the positions that hold a \<open>JUMPDEST\<close> at the
  start of an instruction; an operand byte of a push is never a destination.\<close>

theorem jump_scan_exact:
  "\<exists>dests. find_jump_destinations code = Ok dests \<and> (\<forall>p. p \<in> dests \<longleftrightarrow> valid_dest code p)"
  by (simp add: find_jump_destinations_eq)

text \<open>C24: A jump is accepted exactly to a marked position, compared on all 256 bits of its operand.\<close>

theorem verify_jump_exact:
  "find_jump_destinations code = Ok dests \<Longrightarrow>
   verify_jump j dests = Ok p \<longleftrightarrow> valid_dest code p \<and> p = unat j \<and> unat j < 2 ^ 64"
  by (auto simp: find_jump_destinations_eq verify_jump_Ok)

theorem verify_jump_exact_witness:
  "verify_jump 2 {2} = Ok 2"
proof -
  have d: "find_jump_destinations [0x60, 0x5b, 0x5b] = (Ok {2} :: nat set evm_result)"
    by (simp add: find_jump_destinations_def find_jump_destinations_loop.simps is_push_def get_push_bytes_def)
  have "valid_dest [0x60, 0x5b, 0x5b] 2"
    using d by (auto simp: find_jump_destinations_eq)
  then show ?thesis using verify_jump_exact [OF d, of 2 2] by simp
qed

end
