(* ===== verification/Account_DB.thy ===== *)
theory Account_DB
  imports State_Error "HOL-Library.AList"
begin

text \<open>
  The key-value database under the state (\<^verbatim>\<open>cita-executor/core/src/account_db.rs\<close>). The trait
  \<open>HashDB\<close> of the \<open>util\<close> crate is a record of operations over the database \<open>'d\<close>; the wrappers
  that give each account its own key space are functions from such a record to another one. The
  lemmas show that a key is combined with the low 160 bits of the address hash, and that writes of
  accounts reach only the combined keys.
\<close>

section \<open>The trait\<close>

record 'd HashDB =
  hd_get :: "'d \<Rightarrow> h256 \<Rightarrow> bytes option"
  hd_contains :: "'d \<Rightarrow> h256 \<Rightarrow> bool"
  hd_insert :: "bytes \<Rightarrow> ('d, string, h256) sm"
  hd_emplace :: "h256 \<Rightarrow> bytes \<Rightarrow> ('d, string, unit) sm"
  hd_remove :: "h256 \<Rightarrow> ('d, string, unit) sm"

text \<open>\<open>unimplemented!()\<close>.\<close>

definition unimplemented :: "('s, 'x, 'a) sm" where
  "unimplemented = (\<lambda>s. (Panic, s))"

text \<open>What the wrappers use of the \<open>util\<close> and \<open>rlp\<close> crates: the hash function and the constants
  \<open>HASH_NULL_RLP\<close> and \<open>NULL_RLP\<close>.\<close>

record hashing =
  crypt_hash :: "bytes \<Rightarrow> h256"
  HASH_EMPTY :: h256
  HASH_NULL_RLP :: h256
  NULL_RLP :: bytes

definition NULL_RLP_STATIC :: bytes where
  "NULL_RLP_STATIC = [0x80]"

section \<open>Keys\<close>

definition combine_key :: "h256 \<Rightarrow> h256 \<Rightarrow> h256" where
  "combine_key address_hash key =
     (let last_src = u256_to_be address_hash; dst = u256_to_be key in
      u256_from_be (take 12 dst @ map2 (XOR) (drop 12 dst) (drop 12 last_src)))"

section \<open>Account databases\<close>

definition AccountDB_from_hash :: "'c hashing_scheme \<Rightarrow> 'd HashDB \<Rightarrow> h256 \<Rightarrow> 'd HashDB" where
  "AccountDB_from_hash C db address_hash = \<lparr>
     hd_get = (\<lambda>d key. if key = HASH_NULL_RLP C then Some NULL_RLP_STATIC
                        else hd_get db d (combine_key address_hash key)),
     hd_contains = (\<lambda>d key. if key = HASH_NULL_RLP C then True
                             else hd_contains db d (combine_key address_hash key)),
     hd_insert = (\<lambda>_. unimplemented),
     hd_emplace = (\<lambda>_ _. unimplemented),
     hd_remove = (\<lambda>_. unimplemented)\<rparr>"

definition AccountDBMut_from_hash :: "'c hashing_scheme \<Rightarrow> 'd HashDB \<Rightarrow> h256 \<Rightarrow> 'd HashDB" where
  "AccountDBMut_from_hash C db address_hash = \<lparr>
     hd_get = (\<lambda>d key. if key = HASH_NULL_RLP C then Some NULL_RLP_STATIC
                        else hd_get db d (combine_key address_hash key)),
     hd_contains = (\<lambda>d key. if key = HASH_NULL_RLP C then True
                             else hd_contains db d (combine_key address_hash key)),
     hd_insert = (\<lambda>value. if value = NULL_RLP C then sm_ret (HASH_NULL_RLP C)
        else let k = crypt_hash C value; ak = combine_key address_hash k in
             sm_bind (hd_emplace db ak value) (\<lambda>_. sm_ret k)),
     hd_emplace = (\<lambda>key value. if key = HASH_NULL_RLP C then sm_ret ()
                                else hd_emplace db (combine_key address_hash key) value),
     hd_remove = (\<lambda>key. if key = HASH_NULL_RLP C then sm_ret ()
                         else hd_remove db (combine_key address_hash key))\<rparr>"

definition Wrapping :: "'c hashing_scheme \<Rightarrow> 'd HashDB \<Rightarrow> 'd HashDB" where
  "Wrapping C db = \<lparr>
     hd_get = (\<lambda>d key. if key = HASH_NULL_RLP C then Some NULL_RLP_STATIC else hd_get db d key),
     hd_contains = (\<lambda>d key. if key = HASH_NULL_RLP C then True else hd_contains db d key),
     hd_insert = (\<lambda>_. unimplemented),
     hd_emplace = (\<lambda>_ _. unimplemented),
     hd_remove = (\<lambda>_. unimplemented)\<rparr>"

definition WrappingMut :: "'c hashing_scheme \<Rightarrow> 'd HashDB \<Rightarrow> 'd HashDB" where
  "WrappingMut C db = \<lparr>
     hd_get = (\<lambda>d key. if key = HASH_NULL_RLP C then Some NULL_RLP_STATIC else hd_get db d key),
     hd_contains = (\<lambda>d key. if key = HASH_NULL_RLP C then True else hd_contains db d key),
     hd_insert = (\<lambda>value. if value = NULL_RLP C then sm_ret (HASH_NULL_RLP C) else hd_insert db value),
     hd_emplace = (\<lambda>key value. if key = HASH_NULL_RLP C then sm_ret () else hd_emplace db key value),
     hd_remove = (\<lambda>key. if key = HASH_NULL_RLP C then sm_ret () else hd_remove db key)\<rparr>"

datatype AccountFactory = Mangled | Plain

definition AccountFactory_default :: AccountFactory where
  "AccountFactory_default = Mangled"

fun accountdb_readonly :: "'c hashing_scheme \<Rightarrow> AccountFactory \<Rightarrow> 'd HashDB \<Rightarrow> h256 \<Rightarrow> 'd HashDB" where
  "accountdb_readonly C Mangled db address_hash = AccountDB_from_hash C db address_hash"
| "accountdb_readonly C Plain db address_hash = Wrapping C db"

fun accountdb_create :: "'c hashing_scheme \<Rightarrow> AccountFactory \<Rightarrow> 'd HashDB \<Rightarrow> h256 \<Rightarrow> 'd HashDB" where
  "accountdb_create C Mangled db address_hash = AccountDBMut_from_hash C db address_hash"
| "accountdb_create C Plain db address_hash = WrappingMut C db"

section \<open>The combined key\<close>

lemma u256_to_be_nth: "i < 32 \<Longrightarrow> u256_to_be w ! i = ucast (drop_bit (8 * (31 - i)) w)"
proof -
  have "unat (drop_bit (8 * (31 - i)) w) = unat w div 256 ^ (31 - i)"
    using unsigned_less [of w, where ?'a = nat] unfolding unsigned_drop_bit_eq
    by (simp add: drop_bit_eq_div power_mult take_bit_nat_eq_self)
  then show "i < 32 \<Longrightarrow> ?thesis"
    by (simp only: u256_to_be_def nat_be_nth) (simp add: word_unat_eq_iff unsigned_ucast_eq unsigned_of_nat take_bit_eq_mod)
qed

lemma combine_key_bytes:
  "u256_to_be (combine_key ah k) =
     take 12 (u256_to_be k) @ map2 (XOR) (drop 12 (u256_to_be k)) (drop 12 (u256_to_be ah))"
  by (simp add: combine_key_def Let_def u256_to_from_be)

lemma u256_to_be_inject: "u256_to_be a = u256_to_be b \<longleftrightarrow> a = b"
  by (metis u256_from_to_be)

text \<open>On words: the low 160 bits of the key are masked with those of the address hash.\<close>

lemma combine_key_word: "combine_key ah k = k XOR take_bit 160 ah"
proof -
  have "u256_to_be (k XOR take_bit 160 ah) ! i = u256_to_be (combine_key ah k) ! i" if i: "i < 32" for i
  proof (cases "i < 12")
    case True
    have "(ucast (drop_bit (8 * (31 - i)) (take_bit 160 ah)) :: u8) = 0"
      using True by (simp add: drop_bit_take_bit)
    then show ?thesis using i True
      by (simp add: combine_key_bytes nth_append u256_to_be_nth drop_bit_xor unsigned_xor_eq)
  next
    case False
    have "(ucast (drop_bit (8 * (31 - i)) (take_bit 160 ah)) :: u8) = ucast (drop_bit (8 * (31 - i)) ah)"
      using False i by (intro bit_word_eqI) (auto simp: bit_simps)
    then show ?thesis using i False
      by (simp add: combine_key_bytes nth_append u256_to_be_nth drop_bit_xor unsigned_xor_eq)
  qed
  then have "u256_to_be (combine_key ah k) = u256_to_be (k XOR take_bit 160 ah)"
    by (simp add: list_eq_iff_nth_eq)
  then show ?thesis by (simp only: u256_to_be_inject)
qed

lemma combine_key_shared: "combine_key ah' k' = combine_key ah k \<longleftrightarrow> k' XOR k = take_bit 160 (ah' XOR ah)"
  unfolding combine_key_word take_bit_xor bit_eq_iff bit_xor_iff by blast

section \<open>Writes of several accounts\<close>

text \<open>The documented behaviour of a hash database that is relied on: putting a value under a key, or
  removing one, leaves what is found under every other key as it is. What is then found under the key
  itself depends on the count of its insertions and removals, and nothing is assumed of it.\<close>

definition hashdb_local :: "'d HashDB \<Rightarrow> bool" where
  "hashdb_local H \<longleftrightarrow> (\<forall>d k v k'. k' \<noteq> k \<longrightarrow>
     hd_get H (snd (hd_emplace H k v d)) k' = hd_get H d k' \<and> hd_get H (snd (hd_remove H k d)) k' = hd_get H d k')"

text \<open>A write through the database of an account, the database after it, and the key that it reaches:
  the null node is never stored.\<close>

datatype db_write = Db_insert bytes | Db_emplace h256 bytes | Db_remove h256

fun apply_write :: "'d HashDB \<Rightarrow> db_write \<Rightarrow> 'd \<Rightarrow> 'd" where
  "apply_write A (Db_insert v) d = snd (hd_insert A v d)"
| "apply_write A (Db_emplace k v) d = snd (hd_emplace A k v d)"
| "apply_write A (Db_remove k) d = snd (hd_remove A k d)"

fun db_write_key :: "'c hashing_scheme \<Rightarrow> db_write \<Rightarrow> h256 option" where
  "db_write_key C (Db_insert v) = (if v = NULL_RLP C then None else Some (crypt_hash C v))"
| "db_write_key C (Db_emplace k v) = (if k = HASH_NULL_RLP C then None else Some k)"
| "db_write_key C (Db_remove k) = (if k = HASH_NULL_RLP C then None else Some k)"

definition account_writes :: "'c hashing_scheme \<Rightarrow> AccountFactory \<Rightarrow> 'd HashDB \<Rightarrow> (h256 \<times> db_write) list \<Rightarrow> 'd \<Rightarrow> 'd" where
  "account_writes C F H ws = fold (\<lambda>(ah, w). apply_write (accountdb_create C F H ah) w) ws"

lemma account_write_get:
  fixes H :: "'d HashDB"
  assumes "hashdb_local H" "map_option (combine_key ah') (db_write_key C w) \<noteq> Some K"
  shows "hd_get H (apply_write (AccountDBMut_from_hash C H ah') w d) K = hd_get H d K"
proof -
  have "snd (sm_bind m (\<lambda>_. sm_ret r) d) = snd (m d)" for m :: "('d, string, unit) sm" and r :: h256
    by (simp add: sm_bind_def sm_ret_def split: prod.splits res.splits)
  then show ?thesis using assms
    by (cases w) (auto simp: hashdb_local_def AccountDBMut_from_hash_def sm_ret_def Let_def split: if_splits)
qed

lemma account_writes_get:
  assumes "hashdb_local H" "\<forall>(ah', w)\<in>set ws. map_option (combine_key ah') (db_write_key C w) \<noteq> Some K"
  shows "hd_get H (account_writes C Mangled H ws d) K = hd_get H d K"
  using assms(2)
proof (induction ws arbitrary: d)
  case (Cons w ws)
  then show ?case using account_write_get [OF assms(1)] by (auto simp: account_writes_def split: prod.splits)
qed (simp add: account_writes_def)

text \<open>A reader of an account sees what a writer of the same account sees.\<close>

lemma accountdb_readonly_get:
  "hd_get (accountdb_readonly C F H ah) = hd_get (accountdb_create C F H ah)"
  by (cases F) (simp_all add: AccountDB_from_hash_def AccountDBMut_from_hash_def
      Wrapping_def WrappingMut_def)

end
