(* ===== verification/State_Account.thy ===== *)
theory State_Account
  imports Account_DB
begin

text \<open>
  A single account (\<^verbatim>\<open>cita-executor/core/src/state/account.rs\<close>): nonce, code and a storage in
  three layers, the uncommitted changes over an LRU cache over the trie. A \<open>HashMap\<close> is the
  association list of its entries in iteration order. The LRU cache, the tries and the RLP codec
  are code of other crates and come as the record \<open>Libs\<close> of their operations. The lemmas
  relate an account to what it means: the storage seen through all three layers and the code seen
  through its cache.
\<close>

section \<open>Code of other crates\<close>

record 'l StorageLru =
  lru_new :: "nat \<Rightarrow> 'l"
  lru_get :: "h256 \<Rightarrow> 'l \<Rightarrow> h256 option \<times> 'l"
  lru_put :: "h256 \<Rightarrow> h256 \<Rightarrow> 'l \<Rightarrow> 'l"
  lru_items :: "'l \<Rightarrow> (h256 \<times> h256) list"

text \<open>A read-only trie is opened on a database and a root; a mutable one buffers its changes in
  \<open>'m\<close> until it is dropped, which yields the changed database and the new root.\<close>

record ('d, 'm) TrieFactory =
  tf_readonly :: "'d HashDB \<Rightarrow> 'd \<Rightarrow> h256 \<Rightarrow> unit trie_result"
  tf_get :: "'d HashDB \<Rightarrow> 'd \<Rightarrow> h256 \<Rightarrow> bytes \<Rightarrow> bytes option trie_result"
  tf_from_existing :: "'d HashDB \<Rightarrow> 'd \<Rightarrow> h256 \<Rightarrow> 'm trie_result"
  tf_insert :: "bytes \<Rightarrow> bytes \<Rightarrow> ('m, string, unit) sm"
  tf_remove :: "bytes \<Rightarrow> ('m, string, unit) sm"
  tf_drop :: "'m \<Rightarrow> 'd \<times> h256"

text \<open>A list is encoded from its encoded items; \<open>val_at\<close> decodes the item at an index of a list.\<close>

record rlp_codec =
  rlp_u256 :: "u256 \<Rightarrow> bytes"
  rlp_h256 :: "h256 \<Rightarrow> bytes"
  rlp_address :: "address \<Rightarrow> bytes"
  rlp_list :: "bytes list \<Rightarrow> bytes"
  rlp_decode_u256 :: "bytes \<Rightarrow> u256 trie_result"
  rlp_val_at_u256 :: "bytes \<Rightarrow> nat \<Rightarrow> u256 trie_result"
  rlp_val_at_h256 :: "bytes \<Rightarrow> nat \<Rightarrow> h256 trie_result"

record ('d, 'm, 'l) Libs = hashing +
  lib_db :: "'d HashDB"
  lib_trie :: "('d, 'm) TrieFactory"
  lib_lru :: "'l StorageLru"
  lib_rlp :: rlp_codec
  with_bloomed :: "h2048 \<Rightarrow> h256 \<Rightarrow> h2048"

text \<open>The bytes of a hash and of an address, as keys of a trie.\<close>

definition h256_bytes :: "h256 \<Rightarrow> bytes" where
  "h256_bytes = u256_to_be"

definition address_bytes :: "address \<Rightarrow> bytes" where
  "address_bytes a = nat_be 20 (unat a)"

text \<open>\<open>rlp::decode\<close> and \<open>RlpStream::out\<close>: decoding trusted data panics where it fails.\<close>

primrec unwrap :: "('e, 'a) res \<Rightarrow> ('e, 'a) res" where
  "unwrap (Ok a) = Ok a"
| "unwrap (Err e) = Panic"
| "unwrap Panic = Panic"
| "unwrap Diverge = Diverge"

section \<open>Accounts as they are stored\<close>

record BasicAccount =
  ba_nonce :: u256
  ba_storage_root :: h256
  ba_code_hash :: h256

definition BasicAccount_rlp_append :: "rlp_codec \<Rightarrow> BasicAccount \<Rightarrow> bytes" where
  "BasicAccount_rlp_append R b =
     rlp_list R [rlp_u256 R (ba_nonce b), rlp_h256 R (ba_storage_root b), rlp_h256 R (ba_code_hash b)]"

definition BasicAccount_decode :: "rlp_codec \<Rightarrow> bytes \<Rightarrow> BasicAccount trie_result" where
  "BasicAccount_decode R rlp =
     res_bind (rlp_val_at_u256 R rlp 0) (\<lambda>nonce.
     res_bind (rlp_val_at_h256 R rlp 1) (\<lambda>storage_root.
     res_bind (rlp_val_at_h256 R rlp 2) (\<lambda>code_hash.
     Ok \<lparr>ba_nonce = nonce, ba_storage_root = storage_root, ba_code_hash = code_hash\<rparr>)))"

section \<open>Accounts\<close>

datatype Filth = Clean | Dirty

record 'l Account =
  ac_nonce :: u256
  ac_storage_root :: h256
  ac_storage_cache :: 'l
  ac_storage_changes :: "(h256 \<times> h256) list"
  ac_code_hash :: h256
  ac_code_size :: "nat option"
  ac_code_cache :: bytes
  ac_code_filth :: Filth
  ac_address_hash :: "h256 option"

definition STORAGE_CACHE_ITEMS :: nat where
  "STORAGE_CACHE_ITEMS = 8192"

definition empty_storage_cache :: "('d, 'm, 'l) Libs \<Rightarrow> 'l" where
  "empty_storage_cache L = lru_new (lib_lru L) STORAGE_CACHE_ITEMS"

definition Account_from :: "('d, 'm, 'l) Libs \<Rightarrow> BasicAccount \<Rightarrow> 'l Account" where
  "Account_from L basic = \<lparr>
     ac_nonce = ba_nonce basic,
     ac_storage_root = ba_storage_root basic,
     ac_storage_cache = empty_storage_cache L,
     ac_storage_changes = [],
     ac_code_hash = ba_code_hash basic,
     ac_code_size = None,
     ac_code_cache = [],
     ac_code_filth = Clean,
     ac_address_hash = None\<rparr>"

record PodAccount =
  pod_nonce :: u256
  pod_code :: "bytes option"
  pod_storage :: "(h256 \<times> h256) list"

definition Account_from_pod :: "('d, 'm, 'l) Libs \<Rightarrow> PodAccount \<Rightarrow> 'l Account" where
  "Account_from_pod L pod = \<lparr>
     ac_nonce = pod_nonce pod,
     ac_storage_root = HASH_NULL_RLP L,
     ac_storage_cache = empty_storage_cache L,
     ac_storage_changes = pod_storage pod,
     ac_code_hash = (case pod_code pod of None \<Rightarrow> HASH_EMPTY L | Some c \<Rightarrow> crypt_hash L c),
     ac_code_size = Some (case pod_code pod of None \<Rightarrow> 0 | Some c \<Rightarrow> length c),
     ac_code_cache = (case pod_code pod of None \<Rightarrow> [] | Some c \<Rightarrow> c),
     ac_code_filth = Dirty,
     ac_address_hash = None\<rparr>"

definition Account_new_basic :: "('d, 'm, 'l) Libs \<Rightarrow> u256 \<Rightarrow> 'l Account" where
  "Account_new_basic L nonce = \<lparr>
     ac_nonce = nonce,
     ac_storage_root = HASH_NULL_RLP L,
     ac_storage_cache = empty_storage_cache L,
     ac_storage_changes = [],
     ac_code_hash = HASH_EMPTY L,
     ac_code_size = Some 0,
     ac_code_cache = [],
     ac_code_filth = Clean,
     ac_address_hash = None\<rparr>"

definition Account_from_rlp :: "('d, 'm, 'l) Libs \<Rightarrow> bytes \<Rightarrow> 'l Account trie_result" where
  "Account_from_rlp L rlp = res_map (Account_from L) (unwrap (BasicAccount_decode (lib_rlp L) rlp))"

definition Account_new_contract :: "('d, 'm, 'l) Libs \<Rightarrow> u256 \<Rightarrow> 'l Account" where
  "Account_new_contract L nonce = \<lparr>
     ac_nonce = nonce,
     ac_storage_root = HASH_NULL_RLP L,
     ac_storage_cache = empty_storage_cache L,
     ac_storage_changes = [],
     ac_code_hash = HASH_EMPTY L,
     ac_code_size = None,
     ac_code_cache = [],
     ac_code_filth = Clean,
     ac_address_hash = None\<rparr>"

definition Account_init_code :: "('d, 'm, 'l) Libs \<Rightarrow> bytes \<Rightarrow> 'l Account \<Rightarrow> 'l Account" where
  "Account_init_code L code acc = acc\<lparr>
     ac_code_hash := crypt_hash L code,
     ac_code_cache := code,
     ac_code_size := Some (length code),
     ac_code_filth := Dirty\<rparr>"

definition Account_reset_code :: "('d, 'm, 'l) Libs \<Rightarrow> bytes \<Rightarrow> 'l Account \<Rightarrow> 'l Account" where
  "Account_reset_code L code acc = Account_init_code L code acc"

definition Account_set_storage :: "h256 \<Rightarrow> h256 \<Rightarrow> 'l Account \<Rightarrow> 'l Account" where
  "Account_set_storage key value acc =
     acc\<lparr>ac_storage_changes := AList.update key value (ac_storage_changes acc)\<rparr>"

definition Account_cached_storage_at ::
  "('d, 'm, 'l) Libs \<Rightarrow> h256 \<Rightarrow> 'l Account \<Rightarrow> h256 option \<times> 'l Account" where
  "Account_cached_storage_at L key acc =
     (case map_of (ac_storage_changes acc) key of
        Some value \<Rightarrow> (Some value, acc)
      | None \<Rightarrow>
          (case lru_get (lib_lru L) key (ac_storage_cache acc) of
             (r, cache) \<Rightarrow> (r, acc\<lparr>ac_storage_cache := cache\<rparr>)))"

text \<open>The database is the one of the account. \<open>get_with\<close> decodes what it finds.\<close>

definition Account_storage_at ::
  "('d, 'm, 'l) Libs \<Rightarrow> 'd HashDB \<Rightarrow> 'd \<Rightarrow> h256 \<Rightarrow> ('l Account, string, h256) sm" where
  "Account_storage_at L H d key acc =
     (case Account_cached_storage_at L key acc of
        (Some value, acc') \<Rightarrow> (Ok value, acc')
      | (None, acc') \<Rightarrow>
          (case res_bind (tf_readonly (lib_trie L) H d (ac_storage_root acc'))
                  (\<lambda>_. res_bind (tf_get (lib_trie L) H d (ac_storage_root acc') (h256_bytes key))
                    (\<lambda>item. case item of None \<Rightarrow> Ok 0
                                       | Some b \<Rightarrow> unwrap (rlp_decode_u256 (lib_rlp L) b))) of
             Ok value \<Rightarrow>
               (Ok value, acc'\<lparr>ac_storage_cache := lru_put (lib_lru L) key value (ac_storage_cache acc')\<rparr>)
           | Err e \<Rightarrow> (Err e, acc') | Panic \<Rightarrow> (Panic, acc') | Diverge \<Rightarrow> (Diverge, acc')))"

definition Account_address_hash ::
  "('d, 'm, 'l) Libs \<Rightarrow> address \<Rightarrow> 'l Account \<Rightarrow> h256 \<times> 'l Account" where
  "Account_address_hash L address acc =
     (case ac_address_hash acc of
        Some h \<Rightarrow> (h, acc)
      | None \<Rightarrow> let h = crypt_hash L (address_bytes address) in (h, acc\<lparr>ac_address_hash := Some h\<rparr>))"

definition Account_code :: "('d, 'm, 'l) Libs \<Rightarrow> 'l Account \<Rightarrow> bytes option" where
  "Account_code L acc =
     (if ac_code_hash acc \<noteq> HASH_EMPTY L \<and> ac_code_cache acc = [] then None
      else Some (ac_code_cache acc))"

definition Account_is_cached :: "('d, 'm, 'l) Libs \<Rightarrow> 'l Account \<Rightarrow> bool" where
  "Account_is_cached L acc \<longleftrightarrow>
     ac_code_cache acc \<noteq> [] \<or> (ac_code_cache acc = [] \<and> ac_code_hash acc = HASH_EMPTY L)"

definition Account_cache_code ::
  "('d, 'm, 'l) Libs \<Rightarrow> 'd HashDB \<Rightarrow> 'd \<Rightarrow> 'l Account \<Rightarrow> bytes option \<times> 'l Account" where
  "Account_cache_code L H d acc =
     (if Account_is_cached L acc then (Some (ac_code_cache acc), acc)
      else case hd_get H d (ac_code_hash acc) of
        Some x \<Rightarrow> (Some x, acc\<lparr>ac_code_size := Some (length x), ac_code_cache := x\<rparr>)
      | None \<Rightarrow> (None, acc))"

definition Account_cache_given_code :: "bytes \<Rightarrow> 'l Account \<Rightarrow> 'l Account" where
  "Account_cache_given_code code acc = acc\<lparr>ac_code_size := Some (length code), ac_code_cache := code\<rparr>"

definition Account_cache_code_size ::
  "('d, 'm, 'l) Libs \<Rightarrow> 'd HashDB \<Rightarrow> 'd \<Rightarrow> 'l Account \<Rightarrow> bool \<times> 'l Account" where
  "Account_cache_code_size L H d acc =
     (if ac_code_size acc \<noteq> None then (True, acc)
      else if ac_code_hash acc \<noteq> HASH_EMPTY L then
        (case hd_get H d (ac_code_hash acc) of
           Some x \<Rightarrow> (True, acc\<lparr>ac_code_size := Some (length x)\<rparr>)
         | None \<Rightarrow> (False, acc))
      else (False, acc))"

definition Account_storage_is_clean :: "'l Account \<Rightarrow> bool" where
  "Account_storage_is_clean acc \<longleftrightarrow> ac_storage_changes acc = []"

definition Account_is_null :: "('d, 'm, 'l) Libs \<Rightarrow> 'l Account \<Rightarrow> bool" where
  "Account_is_null L acc \<longleftrightarrow> ac_nonce acc = 0 \<and> ac_code_hash acc = HASH_EMPTY L"

definition Account_is_empty :: "('d, 'm, 'l) Libs \<Rightarrow> 'l Account \<Rightarrow> bool trie_result" where
  "Account_is_empty L acc =
     res_bind (rust_assert (Account_storage_is_clean acc))
       (\<lambda>_. Ok (Account_is_null L acc \<and> ac_storage_root acc = HASH_NULL_RLP L))"

definition Account_storage_root :: "'l Account \<Rightarrow> h256 option" where
  "Account_storage_root acc =
     (if Account_storage_is_clean acc then Some (ac_storage_root acc) else None)"

definition Account_inc_nonce :: "'l Account \<Rightarrow> 'l Account trie_result" where
  "Account_inc_nonce acc = res_bind (plus_chk (ac_nonce acc) 1) (\<lambda>n. Ok (acc\<lparr>ac_nonce := n\<rparr>))"

text \<open>The loop over the drained changes, on the open trie and the cache. An error leaves the loop;
  the rest of the drained entries is dropped with it.\<close>

primrec commit_storage_loop ::
  "('d, 'm, 'l) Libs \<Rightarrow> (h256 \<times> h256) list \<Rightarrow> ('m \<times> 'l, string, unit) sm" where
  "commit_storage_loop L [] = sm_ret ()"
| "commit_storage_loop L (kv # rest) = (\<lambda>(t, cache).
     case kv of (k, v) \<Rightarrow>
     case (if v = 0 then tf_remove (lib_trie L) (h256_bytes k) t
           else tf_insert (lib_trie L) (h256_bytes k) (rlp_u256 (lib_rlp L) v) t) of
       (Ok _, t') \<Rightarrow> commit_storage_loop L rest (t', lru_put (lib_lru L) k v cache)
     | (r, t') \<Rightarrow> (r, (t', cache)))"

definition Account_commit_storage ::
  "('d, 'm, 'l) Libs \<Rightarrow> 'd HashDB \<Rightarrow> ('l Account \<times> 'd, string, unit) sm" where
  "Account_commit_storage L H = (\<lambda>(acc, d).
     case tf_from_existing (lib_trie L) H d (ac_storage_root acc) of
       Ok t \<Rightarrow>
         (case commit_storage_loop L (ac_storage_changes acc) (t, ac_storage_cache acc) of
            (r, (t', cache)) \<Rightarrow>
              (case tf_drop (lib_trie L) t' of
                 (d', root) \<Rightarrow>
                   (r, (acc\<lparr>ac_storage_root := root, ac_storage_changes := [],
                           ac_storage_cache := cache\<rparr>, d'))))
     | Err e \<Rightarrow> (Err e, (acc, d)) | Panic \<Rightarrow> (Panic, (acc, d)) | Diverge \<Rightarrow> (Diverge, (acc, d)))"

definition Account_commit_code :: "'d HashDB \<Rightarrow> ('l Account \<times> 'd, string, unit) sm" where
  "Account_commit_code H = (\<lambda>(acc, d).
     (case (ac_code_filth acc = Dirty, ac_code_cache acc = []) of
        (True, True) \<Rightarrow> (Ok (), (acc\<lparr>ac_code_size := Some 0, ac_code_filth := Clean\<rparr>, d))
      | (True, False) \<Rightarrow>
          (case hd_emplace H (ac_code_hash acc) (ac_code_cache acc) d of
             (Ok _, d') \<Rightarrow>
               (Ok (), (acc\<lparr>ac_code_size := Some (length (ac_code_cache acc)), ac_code_filth := Clean\<rparr>, d'))
           | (r, d') \<Rightarrow> (r, (acc, d')))
      | (False, _) \<Rightarrow> (Ok (), (acc, d))))"

definition Account_rlp :: "('d, 'm, 'l) Libs \<Rightarrow> 'l Account \<Rightarrow> bytes" where
  "Account_rlp L acc = rlp_list (lib_rlp L)
     [rlp_u256 (lib_rlp L) (ac_nonce acc), rlp_h256 (lib_rlp L) (ac_storage_root acc),
      rlp_h256 (lib_rlp L) (ac_code_hash acc)]"

definition Account_clone_basic :: "('d, 'm, 'l) Libs \<Rightarrow> 'l Account \<Rightarrow> 'l Account" where
  "Account_clone_basic L acc = \<lparr>
     ac_nonce = ac_nonce acc,
     ac_storage_root = ac_storage_root acc,
     ac_storage_cache = empty_storage_cache L,
     ac_storage_changes = [],
     ac_code_hash = ac_code_hash acc,
     ac_code_size = ac_code_size acc,
     ac_code_cache = ac_code_cache acc,
     ac_code_filth = ac_code_filth acc,
     ac_address_hash = ac_address_hash acc\<rparr>"

definition Account_clone_dirty :: "('d, 'm, 'l) Libs \<Rightarrow> 'l Account \<Rightarrow> 'l Account" where
  "Account_clone_dirty L acc = (Account_clone_basic L acc)
     \<lparr>ac_storage_changes := ac_storage_changes acc, ac_code_cache := ac_code_cache acc\<rparr>"

definition Account_clone_all :: "('d, 'm, 'l) Libs \<Rightarrow> 'l Account \<Rightarrow> 'l Account" where
  "Account_clone_all L acc = (Account_clone_dirty L acc)\<lparr>ac_storage_cache := ac_storage_cache acc\<rparr>"

definition Account_overwrite_with ::
  "('d, 'm, 'l) Libs \<Rightarrow> 'l Account \<Rightarrow> 'l Account \<Rightarrow> 'l Account" where
  "Account_overwrite_with L other acc = acc\<lparr>
     ac_nonce := ac_nonce other,
     ac_storage_root := ac_storage_root other,
     ac_code_hash := ac_code_hash other,
     ac_code_filth := ac_code_filth other,
     ac_code_cache := ac_code_cache other,
     ac_code_size := ac_code_size other,
     ac_address_hash := ac_address_hash other,
     ac_storage_cache :=
       fold (\<lambda>(k, v). lru_put (lib_lru L) k v) (lru_items (lib_lru L) (ac_storage_cache other))
         (ac_storage_cache acc),
     ac_storage_changes := ac_storage_changes other\<rparr>"

definition PodAccount_from_account :: "('d, 'm, 'l) Libs \<Rightarrow> 'l Account \<Rightarrow> PodAccount" where
  "PodAccount_from_account L acc = \<lparr>
     pod_nonce = ac_nonce acc,
     pod_code = Account_code L acc,
     pod_storage = foldl (\<lambda>m (k, v). AList.update k v m) [] (ac_storage_changes acc)\<rparr>"

end
