(* ===== verification/Account_State.thy ===== *)
theory Account_State
  imports State_Account
begin

text \<open>
  The state of all accounts (\<^verbatim>\<open>cita-executor/core/src/state/mod.rs\<close>): a cache of account entries over
  the state trie, with a stack of checkpoints that hold what the entries were. Every \<open>&self\<close>
  method that fills the cache returns the state. The stack of checkpoints is in the order of the
  vector, the active one last.
\<close>

section \<open>Data\<close>

datatype AccountState = CleanFresh | DirtyState | Committed

record 'l AccountEntry =
  en_account :: "'l Account option"
  en_state :: AccountState

record ('d, 'l) State =
  st_db :: 'd
  st_root :: h256
  st_cache :: "(address \<times> 'l AccountEntry) list"
  st_checkpoints :: "(address \<times> 'l AccountEntry option) list list"
  st_account_start_nonce :: u256
  st_accountdb :: AccountFactory
  st_senders :: "address set"
  st_creators :: "address set"

datatype RequireCache = RC_None | RC_CodeSize | RC_Code

section \<open>Entries\<close>

definition Entry_is_dirty :: "'l AccountEntry \<Rightarrow> bool" where
  "Entry_is_dirty e \<longleftrightarrow> en_state e = DirtyState"

definition Entry_clone_dirty :: "('d, 'm, 'l) Libs \<Rightarrow> 'l AccountEntry \<Rightarrow> 'l AccountEntry" where
  "Entry_clone_dirty L e =
     \<lparr>en_account = map_option (Account_clone_dirty L) (en_account e), en_state = en_state e\<rparr>"

definition Entry_clone_if_dirty ::
  "('d, 'm, 'l) Libs \<Rightarrow> 'l AccountEntry \<Rightarrow> 'l AccountEntry option" where
  "Entry_clone_if_dirty L e = (if Entry_is_dirty e then Some (Entry_clone_dirty L e) else None)"

definition Entry_new_dirty :: "'l Account option \<Rightarrow> 'l AccountEntry" where
  "Entry_new_dirty account = \<lparr>en_account = account, en_state = DirtyState\<rparr>"

definition Entry_new_clean :: "'l Account option \<Rightarrow> 'l AccountEntry" where
  "Entry_new_clean account = \<lparr>en_account = account, en_state = CleanFresh\<rparr>"

definition Entry_overwrite_with ::
  "('d, 'm, 'l) Libs \<Rightarrow> 'l AccountEntry \<Rightarrow> 'l AccountEntry \<Rightarrow> 'l AccountEntry" where
  "Entry_overwrite_with L other e =
     \<lparr>en_account =
        (case en_account other of
           Some acc \<Rightarrow>
             (case en_account e of Some ours \<Rightarrow> Some (Account_overwrite_with L acc ours) | None \<Rightarrow> None)
         | None \<Rightarrow> None),
      en_state = en_state other\<rparr>"

section \<open>Checkpoints\<close>

definition State_from_existing ::
  "('d, 'm, 'l) Libs \<Rightarrow> 'd \<Rightarrow> h256 \<Rightarrow> u256 \<Rightarrow> AccountFactory \<Rightarrow> ('d, 'l) State trie_result" where
  "State_from_existing L db root account_start_nonce factory =
     (if \<not> hd_contains (lib_db L) db root then Err ''InvalidStateRoot''
      else Ok \<lparr>st_db = db, st_root = root, st_cache = [], st_checkpoints = [],
               st_account_start_nonce = account_start_nonce, st_accountdb = factory,
               st_senders = {}, st_creators = {}\<rparr>)"

definition checkpoint :: "('d, 'l) State \<Rightarrow> ('d, 'l) State" where
  "checkpoint s = s\<lparr>st_checkpoints := st_checkpoints s @ [[]]\<rparr>"

text \<open>\<open>prev.entry(k).or_insert(v)\<close> for every entry of the discarded checkpoint.\<close>

definition or_insert :: "('k \<times> 'v) \<Rightarrow> ('k \<times> 'v) list \<Rightarrow> ('k \<times> 'v) list" where
  "or_insert kv prev = (case map_of prev (fst kv) of None \<Rightarrow> AList.update (fst kv) (snd kv) prev | Some _ \<Rightarrow> prev)"

definition discard_checkpoint :: "('d, 'l) State \<Rightarrow> ('d, 'l) State" where
  "discard_checkpoint s =
     (if st_checkpoints s = [] then s
      else let checkpoint = last (st_checkpoints s); rest = butlast (st_checkpoints s) in
        if rest = [] then s\<lparr>st_checkpoints := rest\<rparr>
        else let prev = last rest in
          s\<lparr>st_checkpoints := butlast rest @
              [if prev = [] then checkpoint else fold or_insert checkpoint prev]\<rparr>)"

definition revert_entry ::
  "('d, 'm, 'l) Libs \<Rightarrow> address \<times> 'l AccountEntry option \<Rightarrow>
   (address \<times> 'l AccountEntry) list \<Rightarrow> (address \<times> 'l AccountEntry) list" where
  "revert_entry L kv cache =
     (case kv of
        (k, Some v) \<Rightarrow>
          (case map_of cache k of
             Some e \<Rightarrow> AList.update k (Entry_overwrite_with L v e) cache
           | None \<Rightarrow> AList.update k v cache)
      | (k, None) \<Rightarrow>
          (case map_of cache k of
             Some e \<Rightarrow> if Entry_is_dirty e then AList.delete k cache else cache
           | None \<Rightarrow> cache))"

definition revert_to_checkpoint :: "('d, 'm, 'l) Libs \<Rightarrow> ('d, 'l) State \<Rightarrow> ('d, 'l) State" where
  "revert_to_checkpoint L s =
     (if st_checkpoints s = [] then s
      else s\<lparr>st_checkpoints := butlast (st_checkpoints s),
             st_cache := fold (revert_entry L) (last (st_checkpoints s)) (st_cache s)\<rparr>)"

text \<open>A value for \<open>address\<close> in the active checkpoint, where there is one without it.\<close>

definition note_in_checkpoint ::
  "address \<Rightarrow> 'l AccountEntry option \<Rightarrow> (address \<times> 'l AccountEntry option) list list \<Rightarrow>
   (address \<times> 'l AccountEntry option) list list" where
  "note_in_checkpoint a v cps =
     (if cps \<noteq> [] \<and> map_of (last cps) a = None then butlast cps @ [AList.update a v (last cps)] else cps)"

definition insert_cache :: "address \<Rightarrow> 'l AccountEntry \<Rightarrow> ('d, 'l) State \<Rightarrow> ('d, 'l) State" where
  "insert_cache a account s =
     s\<lparr>st_checkpoints :=
         (if Entry_is_dirty account
          then note_in_checkpoint a (map_of (st_cache s) a) (st_checkpoints s) else st_checkpoints s),
       st_cache := AList.update a account (st_cache s)\<rparr>"

definition note_cache :: "('d, 'm, 'l) Libs \<Rightarrow> address \<Rightarrow> ('d, 'l) State \<Rightarrow> ('d, 'l) State" where
  "note_cache L a s =
     s\<lparr>st_checkpoints := note_in_checkpoint a
         (map_option (Entry_clone_dirty L) (map_of (st_cache s) a)) (st_checkpoints s)\<rparr>"

section \<open>Loading accounts\<close>

definition account_db ::
  "('d, 'm, 'l) Libs \<Rightarrow> ('d, 'l) State \<Rightarrow> h256 \<Rightarrow> 'd HashDB" where
  "account_db L s address_hash =
     accountdb_readonly L (st_accountdb s) (lib_db L) address_hash"

definition update_account_cache ::
  "('d, 'm, 'l) Libs \<Rightarrow> RequireCache \<Rightarrow> 'd HashDB \<Rightarrow> 'd \<Rightarrow> 'l Account \<Rightarrow> 'l Account" where
  "update_account_cache L require H d account =
     (if Account_is_cached L account \<or> require = RC_None then account
      else snd (Account_cache_code L H d account))"

text \<open>The account in the trie: \<open>readonly\<close> and \<open>get_with\<close> of the two loaders.\<close>

definition trie_account ::
  "('d, 'm, 'l) Libs \<Rightarrow> ('d, 'l) State \<Rightarrow> address \<Rightarrow> 'l Account option trie_result" where
  "trie_account L s a =
     res_bind (tf_get (lib_trie L) (lib_db L) (st_db s) (st_root s) (address_bytes a))
       (\<lambda>item. case item of None \<Rightarrow> Ok None | Some b \<Rightarrow> res_map Some (Account_from_rlp L b))"

definition load_account ::
  "('d, 'm, 'l) Libs \<Rightarrow> ('d, 'l) State \<Rightarrow> address \<Rightarrow> 'l Account option trie_result" where
  "load_account L s a =
     res_bind (tf_readonly (lib_trie L) (lib_db L) (st_db s) (st_root s)) (\<lambda>_. trie_account L s a)"

text \<open>An account with its address hash, after \<open>update_account_cache\<close> on its own database.\<close>

definition refresh_account ::
  "('d, 'm, 'l) Libs \<Rightarrow> ('d, 'l) State \<Rightarrow> RequireCache \<Rightarrow> address \<Rightarrow> 'l Account \<Rightarrow> 'l Account" where
  "refresh_account L s require a account =
     (case Account_address_hash L a account of
        (h, account') \<Rightarrow> update_account_cache L require (account_db L s h) (st_db s) account')"

definition ensure_cached ::
  "('d, 'm, 'l) Libs \<Rightarrow> address \<Rightarrow> RequireCache \<Rightarrow> ('l Account option \<Rightarrow> 'u) \<Rightarrow>
   (('d, 'l) State, string, 'u) sm" where
  "ensure_cached L a require f s =
     (case map_of (st_cache s) a of
        Some maybe_acc \<Rightarrow>
          (case en_account maybe_acc of
             Some account \<Rightarrow>
               let account' = refresh_account L s require a account in
               (Ok (f (Some account')),
                s\<lparr>st_cache := AList.update a (maybe_acc\<lparr>en_account := Some account'\<rparr>) (st_cache s)\<rparr>)
           | None \<Rightarrow> (Ok (f None), s))
      | None \<Rightarrow>
          (case load_account L s a of
             Ok maybe_acc \<Rightarrow>
               let maybe_acc' = map_option (refresh_account L s require a) maybe_acc in
               (Ok (f maybe_acc'), insert_cache a (Entry_new_clean maybe_acc') s)
           | Err e \<Rightarrow> (Err e, s) | Panic \<Rightarrow> (Panic, s) | Diverge \<Rightarrow> (Diverge, s)))"

text \<open>The method returns a mutable reference to the account; the update \<open>g\<close> is what the caller does
  with it. Both callers in the source pass a \<open>not_default\<close> that does nothing.\<close>

definition require_or_from ::
  "('d, 'm, 'l) Libs \<Rightarrow> address \<Rightarrow> bool \<Rightarrow> 'l Account \<Rightarrow> ('l Account \<Rightarrow> 'l Account trie_result) \<Rightarrow>
   (('d, 'l) State, string, unit) sm" where
  "require_or_from L a require_code dflt g s =
     (case (if map_of (st_cache s) a = None
            then res_map (\<lambda>acc. insert_cache a (Entry_new_clean acc) s) (load_account L s a)
            else Ok s) of
        Ok s1 \<Rightarrow>
          let s2 = note_cache L a s1 in
          (case map_of (st_cache s2) a of
             None \<Rightarrow> (Panic, s2)
           | Some entry \<Rightarrow>
               let acc = (case en_account entry of Some acc \<Rightarrow> acc | None \<Rightarrow> dflt);
                   acc' = (if require_code then refresh_account L s2 RC_Code a acc else acc);
                   put = (\<lambda>x. s2\<lparr>st_cache := AList.update a
                                  \<lparr>en_account = Some x, en_state = DirtyState\<rparr> (st_cache s2)\<rparr>) in
               (case g acc' of
                  Ok x \<Rightarrow> (Ok (), put x)
                | Err e \<Rightarrow> (Err e, put acc') | Panic \<Rightarrow> (Panic, put acc') | Diverge \<Rightarrow> (Diverge, put acc')))
      | Err e \<Rightarrow> (Err e, s) | Panic \<Rightarrow> (Panic, s) | Diverge \<Rightarrow> (Diverge, s))"

definition require_account ::
  "('d, 'm, 'l) Libs \<Rightarrow> address \<Rightarrow> bool \<Rightarrow> ('l Account \<Rightarrow> 'l Account trie_result) \<Rightarrow>
   (('d, 'l) State, string, unit) sm" where
  "require_account L a require_code g s =
     require_or_from L a require_code (Account_new_basic L (st_account_start_nonce s)) g s"

section \<open>Operations\<close>

definition State_new_contract ::
  "('d, 'm, 'l) Libs \<Rightarrow> address \<Rightarrow> u256 \<Rightarrow> (('d, 'l) State, string, unit) sm" where
  "State_new_contract L contract nonce_offset s =
     (case plus_chk (st_account_start_nonce s) nonce_offset of
        Ok n \<Rightarrow> (Ok (), insert_cache contract (Entry_new_dirty (Some (Account_new_contract L n))) s)
      | Err e \<Rightarrow> (Err e, s) | Panic \<Rightarrow> (Panic, s) | Diverge \<Rightarrow> (Diverge, s))"

definition kill_account :: "address \<Rightarrow> ('d, 'l) State \<Rightarrow> ('d, 'l) State" where
  "kill_account account s = insert_cache account (Entry_new_dirty None) s"

definition State_exists :: "('d, 'm, 'l) Libs \<Rightarrow> address \<Rightarrow> (('d, 'l) State, string, bool) sm" where
  "State_exists L a = ensure_cached L a RC_None (\<lambda>acc. acc \<noteq> None)"

definition State_exists_and_not_null ::
  "('d, 'm, 'l) Libs \<Rightarrow> address \<Rightarrow> (('d, 'l) State, string, bool) sm" where
  "State_exists_and_not_null L a = ensure_cached L a RC_None
     (\<lambda>acc. case acc of None \<Rightarrow> False | Some a \<Rightarrow> \<not> Account_is_null L a)"

definition State_nonce :: "('d, 'm, 'l) Libs \<Rightarrow> address \<Rightarrow> (('d, 'l) State, string, u256) sm" where
  "State_nonce L a s = ensure_cached L a RC_None
     (\<lambda>acc. case acc of None \<Rightarrow> st_account_start_nonce s | Some account \<Rightarrow> ac_nonce account) s"

definition State_storage_root ::
  "('d, 'm, 'l) Libs \<Rightarrow> address \<Rightarrow> (('d, 'l) State, string, h256 option) sm" where
  "State_storage_root L a = ensure_cached L a RC_None
     (\<lambda>acc. case acc of None \<Rightarrow> None | Some account \<Rightarrow> Account_storage_root account)"

definition State_storage_at ::
  "('d, 'm, 'l) Libs \<Rightarrow> address \<Rightarrow> h256 \<Rightarrow> (('d, 'l) State, string, h256) sm" where
  "State_storage_at L address key s =
     (case map_of (st_cache s) address of
        Some maybe_acc \<Rightarrow>
          (case en_account maybe_acc of
             None \<Rightarrow> (Ok 0, s)
           | Some account \<Rightarrow>
               let put = (\<lambda>x. s\<lparr>st_cache :=
                     AList.update address (maybe_acc\<lparr>en_account := Some x\<rparr>) (st_cache s)\<rparr>) in
               (case Account_cached_storage_at L key account of
                  (Some value, account') \<Rightarrow> (Ok value, put account')
                | (None, account') \<Rightarrow>
                    (case Account_address_hash L address account' of
                       (h, account'') \<Rightarrow>
                         (case Account_storage_at L (account_db L s h) (st_db s) key account'' of
                            (r, x) \<Rightarrow> (r, put x)))))
      | None \<Rightarrow>
          (case res_bind (unwrap (tf_readonly (lib_trie L) (lib_db L) (st_db s) (st_root s)))
                  (\<lambda>_. trie_account L s address) of
             Ok None \<Rightarrow> (Ok 0, insert_cache address (Entry_new_clean None) s)
           | Ok (Some a) \<Rightarrow>
               (case Account_address_hash L address a of
                  (h, a') \<Rightarrow>
                    (case Account_storage_at L (account_db L s h) (st_db s) key a' of
                       (r, a'') \<Rightarrow>
                         (r, if returns r then insert_cache address (Entry_new_clean (Some a'')) s else s)))
           | Err e \<Rightarrow> (Err e, s) | Panic \<Rightarrow> (Panic, s) | Diverge \<Rightarrow> (Diverge, s)))"

definition State_code :: "('d, 'm, 'l) Libs \<Rightarrow> address \<Rightarrow> (('d, 'l) State, string, bytes option) sm" where
  "State_code L a = ensure_cached L a RC_Code
     (\<lambda>acc. case acc of None \<Rightarrow> None | Some a \<Rightarrow> Account_code L a)"

definition State_code_hash :: "('d, 'm, 'l) Libs \<Rightarrow> address \<Rightarrow> (('d, 'l) State, string, h256) sm" where
  "State_code_hash L a = ensure_cached L a RC_None
     (\<lambda>acc. case acc of None \<Rightarrow> HASH_EMPTY L | Some a \<Rightarrow> ac_code_hash a)"

definition State_code_size ::
  "('d, 'm, 'l) Libs \<Rightarrow> address \<Rightarrow> (('d, 'l) State, string, nat option) sm" where
  "State_code_size L a = ensure_cached L a RC_CodeSize
     (\<lambda>acc. case acc of None \<Rightarrow> None | Some a \<Rightarrow> ac_code_size a)"

definition State_inc_nonce :: "('d, 'm, 'l) Libs \<Rightarrow> address \<Rightarrow> (('d, 'l) State, string, unit) sm" where
  "State_inc_nonce L a = require_account L a False Account_inc_nonce"

definition State_set_storage ::
  "('d, 'm, 'l) Libs \<Rightarrow> address \<Rightarrow> h256 \<Rightarrow> h256 \<Rightarrow> (('d, 'l) State, string, unit) sm" where
  "State_set_storage L a key value =
     sm_bind (State_storage_at L a key) (\<lambda>old.
       if old \<noteq> value then require_account L a False (\<lambda>acc. Ok (Account_set_storage key value acc))
       else sm_ret ())"

definition State_init_code ::
  "('d, 'm, 'l) Libs \<Rightarrow> address \<Rightarrow> bytes \<Rightarrow> (('d, 'l) State, string, unit) sm" where
  "State_init_code L a code s =
     require_or_from L a True (Account_new_contract L (st_account_start_nonce s))
       (\<lambda>acc. Ok (Account_init_code L code acc)) s"

definition State_reset_code ::
  "('d, 'm, 'l) Libs \<Rightarrow> address \<Rightarrow> bytes \<Rightarrow> (('d, 'l) State, string, unit) sm" where
  "State_reset_code L a code s =
     require_or_from L a True (Account_new_contract L (st_account_start_nonce s))
       (\<lambda>acc. Ok (Account_reset_code L code acc)) s"

section \<open>Commit\<close>

text \<open>The first loop of \<open>commit_into\<close>: the sub tries and the code of the dirty accounts. Both loops
  run over the entries in place and keep them where they are.\<close>

primrec commit_accounts ::
  "('d, 'm, 'l) Libs \<Rightarrow> AccountFactory \<Rightarrow> (address \<times> 'l AccountEntry) list \<Rightarrow>
   'd \<Rightarrow> unit trie_result \<times> ((address \<times> 'l AccountEntry) list \<times> 'd)" where
  "commit_accounts L F [] d = (Ok (), ([], d))"
| "commit_accounts L F (ae # rest) d =
     (case ae of (address, a) \<Rightarrow>
      case (if Entry_is_dirty a then en_account a else None) of
        None \<Rightarrow> (case commit_accounts L F rest d of (r, (es, d')) \<Rightarrow> (r, ((address, a) # es, d')))
      | Some account \<Rightarrow>
          (case Account_address_hash L address account of
             (addr_hash, account') \<Rightarrow>
               let H = accountdb_create L F (lib_db L) addr_hash in
               (case sm_bind (Account_commit_storage L H) (\<lambda>_. Account_commit_code H) (account', d) of
                  (Ok _, (account'', d')) \<Rightarrow>
                    (case commit_accounts L F rest d' of
                       (r, (es, d'')) \<Rightarrow> (r, ((address, a\<lparr>en_account := Some account''\<rparr>) # es, d'')))
                | (r, (account'', d')) \<Rightarrow>
                    (r, ((address, a\<lparr>en_account := Some account''\<rparr>) # rest, d')))))"

text \<open>The second loop: the accounts themselves, on the open state trie.\<close>

primrec commit_trie ::
  "('d, 'm, 'l) Libs \<Rightarrow> (address \<times> 'l AccountEntry) list \<Rightarrow>
   'm \<Rightarrow> unit trie_result \<times> ((address \<times> 'l AccountEntry) list \<times> 'm)" where
  "commit_trie L [] t = (Ok (), ([], t))"
| "commit_trie L (ae # rest) t =
     (case ae of (address, a) \<Rightarrow>
      if \<not> Entry_is_dirty a
      then (case commit_trie L rest t of (r, (es, t')) \<Rightarrow> (r, ((address, a) # es, t')))
      else let a' = a\<lparr>en_state := Committed\<rparr> in
        (case (case en_account a of
                 Some account \<Rightarrow> tf_insert (lib_trie L) (address_bytes address) (Account_rlp L account) t
               | None \<Rightarrow> tf_remove (lib_trie L) (address_bytes address) t) of
           (Ok _, t') \<Rightarrow>
             (case commit_trie L rest t' of (r, (es, t'')) \<Rightarrow> (r, ((address, a') # es, t'')))
         | (r, t') \<Rightarrow> (r, ((address, a') # rest, t'))))"

definition commit_into ::
  "('d, 'm, 'l) Libs \<Rightarrow> (('d, 'l) State, string, unit) sm" where
  "commit_into L s =
     (case commit_accounts L (st_accountdb s) (st_cache s) (st_db s) of
        (Ok _, (es, d)) \<Rightarrow>
          let s1 = s\<lparr>st_cache := es, st_db := d\<rparr> in
          (case tf_from_existing (lib_trie L) (lib_db L) d (st_root s) of
             Ok t \<Rightarrow>
               (case commit_trie L es t of
                  (r, (es', t')) \<Rightarrow>
                    (case tf_drop (lib_trie L) t' of
                       (d', root) \<Rightarrow> (r, s1\<lparr>st_cache := es', st_db := d', st_root := root\<rparr>)))
           | Err e \<Rightarrow> (Err e, s1) | Panic \<Rightarrow> (Panic, s1) | Diverge \<Rightarrow> (Diverge, s1))
      | (r, (es, d)) \<Rightarrow> (r, s\<lparr>st_cache := es, st_db := d\<rparr>))"

definition State_commit :: "('d, 'm, 'l) Libs \<Rightarrow> (('d, 'l) State, string, unit) sm" where
  "State_commit L s = (if st_checkpoints s = [] then commit_into L s else (Panic, s))"

definition State_clear :: "('d, 'l) State \<Rightarrow> ('d, 'l) State" where
  "State_clear s = s\<lparr>st_cache := []\<rparr>"

definition State_clone :: "('d, 'm, 'l) Libs \<Rightarrow> ('d, 'l) State \<Rightarrow> ('d, 'l) State" where
  "State_clone L s =
     s\<lparr>st_cache := List.map_filter (\<lambda>(k, v). map_option (Pair k) (Entry_clone_if_dirty L v)) (st_cache s),
       st_checkpoints := []\<rparr>"

end
