(* ===== verification/State_Refinement.thy ===== *)
theory State_Refinement
  imports Account_State
begin

text \<open>
  What the cached state means. An account entry stands for the account the rest of the system sees
  (its nonce, its code and its storage through all layers); an address that is not cached stands
  for its account in the trie. For each address the cache entry and the entries of the checkpoints
  form a column, and the column stands for a stack of views: the current one and those that
  reverting one, two, ... checkpoints brings back. Against this stack every operation of the state
  is one line: a checkpoint repeats the top, a revert drops it, a discard drops the second, a write
  changes the top of one address and a read changes nothing.
\<close>

section \<open>What is relied on\<close>

text \<open>The LRU cache: a lookup and a replacement add nothing, an insertion at most the new entry, and
  the items are those a lookup finds.\<close>

definition lru_has :: "('d, 'm, 'l) Libs \<Rightarrow> 'l \<Rightarrow> h256 \<Rightarrow> h256 \<Rightarrow> bool" where
  "lru_has L l k v \<longleftrightarrow> fst (lru_get (lib_lru L) k l) = Some v"

definition lru_ok :: "('d, 'm, 'l) Libs \<Rightarrow> bool" where
  "lru_ok L \<longleftrightarrow>
     (\<forall>n k v. \<not> lru_has L (lru_new (lib_lru L) n) k v) \<and>
     (\<forall>l k0 k v. lru_has L (snd (lru_get (lib_lru L) k0 l)) k v \<longrightarrow> lru_has L l k v) \<and>
     (\<forall>l k0 v0 k v. lru_has L (lru_put (lib_lru L) k0 v0 l) k v \<longrightarrow>
        (if k = k0 then v = v0 else lru_has L l k v)) \<and>
     (\<forall>l k v. (k, v) \<in> set (lru_items (lib_lru L) l) \<longrightarrow> lru_has L l k v)"

section \<open>Meaning of accounts\<close>

text \<open>The part of the state that lies under the cache.\<close>

record 'd base =
  b_db :: 'd
  b_root :: h256
  b_factory :: AccountFactory

definition base_of :: "('d, 'l) State \<Rightarrow> 'd base" where
  "base_of s = \<lparr>b_db = st_db s, b_root = st_root s, b_factory = st_accountdb s\<rparr>"

definition addr_hash :: "('d, 'm, 'l) Libs \<Rightarrow> address \<Rightarrow> h256" where
  "addr_hash L a = crypt_hash L (address_bytes a)"

definition adb :: "('d, 'm, 'l) Libs \<Rightarrow> 'd base \<Rightarrow> address \<Rightarrow> 'd HashDB" where
  "adb L B a = accountdb_readonly L (b_factory B) (lib_db L) (addr_hash L a)"

definition trie_storage :: "('d, 'm, 'l) Libs \<Rightarrow> 'd HashDB \<Rightarrow> 'd \<Rightarrow> h256 \<Rightarrow> h256 \<Rightarrow> h256 trie_result" where
  "trie_storage L H d root key =
     res_bind (tf_readonly (lib_trie L) H d root)
       (\<lambda>_. res_bind (tf_get (lib_trie L) H d root (h256_bytes key))
         (\<lambda>item. case item of None \<Rightarrow> Ok 0 | Some b \<Rightarrow> unwrap (rlp_decode_u256 (lib_rlp L) b)))"

record view =
  vw_nonce :: u256
  vw_root :: "h256 option"
  vw_code_hash :: h256
  vw_code :: "bytes option"
  vw_storage :: "h256 \<Rightarrow> h256 trie_result"

definition storage_of :: "('d, 'm, 'l) Libs \<Rightarrow> 'd base \<Rightarrow> address \<Rightarrow> 'l Account \<Rightarrow> h256 \<Rightarrow> h256 trie_result" where
  "storage_of L B a acc k =
     (case map_of (ac_storage_changes acc) k of
        Some v \<Rightarrow> Ok v
      | None \<Rightarrow> trie_storage L (adb L B a) (b_db B) (ac_storage_root acc) k)"

definition code_of :: "('d, 'm, 'l) Libs \<Rightarrow> 'd base \<Rightarrow> address \<Rightarrow> 'l Account \<Rightarrow> bytes option" where
  "code_of L B a acc =
     (if Account_is_cached L acc then Some (ac_code_cache acc)
      else case hd_get (adb L B a) (b_db B) (ac_code_hash acc) of
             None \<Rightarrow> None | Some x \<Rightarrow> if x = [] then None else Some x)"

definition meaning :: "('d, 'm, 'l) Libs \<Rightarrow> 'd base \<Rightarrow> address \<Rightarrow> 'l Account \<Rightarrow> view" where
  "meaning L B a acc = \<lparr>
     vw_nonce = ac_nonce acc,
     vw_root = Account_storage_root acc,
     vw_code_hash = ac_code_hash acc,
     vw_code = code_of L B a acc,
     vw_storage = storage_of L B a acc\<rparr>"

text \<open>The caches of an account agree with what they cache.\<close>

definition coherent :: "('d, 'm, 'l) Libs \<Rightarrow> 'd base \<Rightarrow> address \<Rightarrow> h256 \<Rightarrow> 'l \<Rightarrow> bool" where
  "coherent L B a root l \<longleftrightarrow>
     (\<forall>k v. lru_has L l k v \<longrightarrow> trie_storage L (adb L B a) (b_db B) root k = Ok v)"

definition acct_ok :: "('d, 'm, 'l) Libs \<Rightarrow> 'd base \<Rightarrow> address \<Rightarrow> 'l Account \<Rightarrow> bool" where
  "acct_ok L B a acc \<longleftrightarrow>
     ac_address_hash acc \<in> {None, Some (addr_hash L a)} \<and>
     coherent L B a (ac_storage_root acc) (ac_storage_cache acc) \<and>
     (\<forall>n. ac_code_size acc = Some n \<longrightarrow> n = length (ac_code_cache acc)) \<and>
     (ac_code_cache acc \<noteq> [] \<longrightarrow> ac_code_size acc \<noteq> None)"

definition load :: "('d, 'm, 'l) Libs \<Rightarrow> 'd base \<Rightarrow> address \<Rightarrow> 'l Account option trie_result" where
  "load L B a =
     res_bind (tf_readonly (lib_trie L) (lib_db L) (b_db B) (b_root B))
       (\<lambda>_. res_bind (tf_get (lib_trie L) (lib_db L) (b_db B) (b_root B) (address_bytes a))
         (\<lambda>item. case item of None \<Rightarrow> Ok None | Some b \<Rightarrow> res_map Some (Account_from_rlp L b)))"

definition entry_view ::
  "('d, 'm, 'l) Libs \<Rightarrow> 'd base \<Rightarrow> address \<Rightarrow> 'l AccountEntry option \<Rightarrow> view option trie_result" where
  "entry_view L B a e =
     res_map (map_option (meaning L B a)) (case e of None \<Rightarrow> load L B a | Some x \<Rightarrow> Ok (en_account x))"

definition entry_ok :: "('d, 'm, 'l) Libs \<Rightarrow> 'd base \<Rightarrow> address \<Rightarrow> 'l AccountEntry option \<Rightarrow> bool" where
  "entry_ok L B a e \<longleftrightarrow>
     (case e of None \<Rightarrow> True
      | Some x \<Rightarrow> (case en_account x of None \<Rightarrow> True | Some acc \<Rightarrow> acct_ok L B a acc))"

lemma entry_ok_simps [simp]:
  "entry_ok L B a None"
  "entry_ok L B a (Some \<lparr>en_account = None, en_state = st\<rparr>)"
  "entry_ok L B a (Some \<lparr>en_account = Some acc, en_state = st\<rparr>) = acct_ok L B a acc"
  by (simp_all add: entry_ok_def)

lemma entry_view_Some [simp]:
  "entry_view L B a (Some x) = Ok (map_option (meaning L B a) (en_account x))"
  by (simp add: entry_view_def)

section \<open>Accounts under the operations\<close>

lemma lru_okD:
  assumes "lru_ok L"
  shows "\<not> lru_has L (lru_new (lib_lru L) n) k v"
    and "lru_has L (snd (lru_get (lib_lru L) k0 l)) k v \<Longrightarrow> lru_has L l k v"
    and "lru_has L (lru_put (lib_lru L) k0 v0 l) k v \<Longrightarrow> if k = k0 then v = v0 else lru_has L l k v"
    and "(k, v) \<in> set (lru_items (lib_lru L) l) \<Longrightarrow> lru_has L l k v"
  using assms unfolding lru_ok_def by blast+

lemma coherent_new [simp]: "lru_ok L \<Longrightarrow> coherent L B a root (empty_storage_cache L)"
  by (simp add: coherent_def empty_storage_cache_def lru_okD(1))

lemma coherent_get: "lru_ok L \<Longrightarrow> coherent L B a root l \<Longrightarrow> coherent L B a root (snd (lru_get (lib_lru L) k l))"
  unfolding coherent_def by (blast dest: lru_okD(2))

lemma coherent_put:
  "lru_ok L \<Longrightarrow> coherent L B a root l \<Longrightarrow> trie_storage L (adb L B a) (b_db B) root k = Ok v \<Longrightarrow>
   coherent L B a root (lru_put (lib_lru L) k v l)"
  unfolding coherent_def by (metis (full_types) lru_okD(3))

lemma coherent_merge:
  assumes "lru_ok L" "coherent L B a root l"
    "\<forall>(k, v) \<in> set kvs. trie_storage L (adb L B a) (b_db B) root k = Ok v"
  shows "coherent L B a root (fold (\<lambda>(k, v). lru_put (lib_lru L) k v) kvs l)"
  using assms(2,3) by (induction kvs arbitrary: l) (auto intro: coherent_put [OF assms(1)])

text \<open>Two accounts with the same fields but the caches mean the same.\<close>

lemma meaning_cong:
  assumes "ac_nonce x = ac_nonce y" "ac_storage_root x = ac_storage_root y"
    "ac_storage_changes x = ac_storage_changes y" "ac_code_hash x = ac_code_hash y"
    "ac_code_cache x = ac_code_cache y"
  shows "meaning L B a x = meaning L B a y"
  using assms
  by (simp add: meaning_def code_of_def storage_of_def [abs_def] Account_is_cached_def
      Account_storage_root_def Account_storage_is_clean_def cong: option.case_cong)

lemma acct_ok_constructors [simp]:
  assumes "lru_ok L"
  shows "acct_ok L B a (Account_from L b)" "acct_ok L B a (Account_new_basic L n)"
    "acct_ok L B a (Account_new_contract L n)"
  using assms
  by (simp_all add: acct_ok_def Account_from_def Account_new_basic_def Account_new_contract_def)

lemma acct_ok_updates:
  assumes "acct_ok L B a acc"
  shows "acct_ok L B a (Account_set_storage k v acc)"
    "acct_ok L B a (Account_init_code L c acc)"
    "acct_ok L B a (acc\<lparr>ac_nonce := n\<rparr>)"
  using assms by (simp_all add: acct_ok_def Account_set_storage_def Account_init_code_def)

lemma clone_dirty_meaning [simp]: "meaning L B a (Account_clone_dirty L acc) = meaning L B a acc"
  by (rule meaning_cong) (simp_all add: Account_clone_dirty_def Account_clone_basic_def)

lemma clone_dirty_ok: "lru_ok L \<Longrightarrow> acct_ok L B a acc \<Longrightarrow> acct_ok L B a (Account_clone_dirty L acc)"
  by (simp add: acct_ok_def Account_clone_dirty_def Account_clone_basic_def)

lemma clone_dirty_root [simp]: "ac_storage_root (Account_clone_dirty L acc) = ac_storage_root acc"
  by (simp add: Account_clone_dirty_def Account_clone_basic_def)

lemma overwrite_meaning [simp]: "meaning L B a (Account_overwrite_with L other acc) = meaning L B a other"
  by (rule meaning_cong) (simp_all add: Account_overwrite_with_def)

lemma overwrite_root [simp]:
  "ac_storage_root (Account_overwrite_with L other acc) = ac_storage_root other"
  by (simp add: Account_overwrite_with_def)

text \<open>The merged cache is coherent where both accounts have the same storage root.\<close>

lemma overwrite_ok:
  assumes "lru_ok L" "acct_ok L B a other" "acct_ok L B a acc"
    "ac_storage_root acc = ac_storage_root other"
  shows "acct_ok L B a (Account_overwrite_with L other acc)"
proof -
  have "\<forall>(k, v) \<in> set (lru_items (lib_lru L) (ac_storage_cache other)).
      trie_storage L (adb L B a) (b_db B) (ac_storage_root other) k = Ok v"
    using assms(1,2) by (auto simp: acct_ok_def coherent_def dest: lru_okD(4))
  then show ?thesis using assms
    by (auto simp: acct_ok_def Account_overwrite_with_def intro: coherent_merge)
qed

text \<open>A read of the storage: the value is the one the account means.\<close>

lemma cached_storage_at:
  assumes L: "lru_ok L" and ok: "acct_ok L B a acc"
    and r: "Account_cached_storage_at L k acc = (r, acc')"
  shows "acct_ok L B a acc'" "meaning L B a acc' = meaning L B a acc"
    "ac_storage_root acc' = ac_storage_root acc" "ac_nonce acc' = ac_nonce acc"
    "ac_code_cache acc' = ac_code_cache acc"
    "r = Some v \<Longrightarrow> storage_of L B a acc k = Ok v"
    "r = None \<Longrightarrow> map_of (ac_storage_changes acc') k = None"
proof -
  consider (changed) w where "map_of (ac_storage_changes acc) k = Some w" "r = Some w" "acc' = acc"
    | (cached) "map_of (ac_storage_changes acc) k = None"
        "r = fst (lru_get (lib_lru L) k (ac_storage_cache acc))"
        "acc' = acc\<lparr>ac_storage_cache := snd (lru_get (lib_lru L) k (ac_storage_cache acc))\<rparr>"
    using r by (auto simp: Account_cached_storage_at_def split: option.splits prod.splits)
  then have "acct_ok L B a acc' \<and> meaning L B a acc' = meaning L B a acc \<and>
    ac_storage_root acc' = ac_storage_root acc \<and> ac_nonce acc' = ac_nonce acc \<and>
    ac_code_cache acc' = ac_code_cache acc \<and>
    (r = Some v \<longrightarrow> storage_of L B a acc k = Ok v) \<and>
    (r = None \<longrightarrow> map_of (ac_storage_changes acc') k = None)"
  proof cases
    case changed
    then show ?thesis using ok by (simp add: storage_of_def)
  next
    case cached
    moreover have "meaning L B a acc' = meaning L B a acc"
      unfolding cached by (rule meaning_cong) simp_all
    moreover have "fst (lru_get (lib_lru L) k (ac_storage_cache acc)) = Some v \<Longrightarrow>
        storage_of L B a acc k = Ok v"
      using ok cached(1) by (simp add: acct_ok_def coherent_def lru_has_def storage_of_def)
    ultimately show ?thesis using ok L by (auto simp: acct_ok_def coherent_get)
  qed
  then show "acct_ok L B a acc'" "meaning L B a acc' = meaning L B a acc"
    "ac_storage_root acc' = ac_storage_root acc" "ac_nonce acc' = ac_nonce acc"
    "ac_code_cache acc' = ac_code_cache acc"
    "r = Some v \<Longrightarrow> storage_of L B a acc k = Ok v"
    "r = None \<Longrightarrow> map_of (ac_storage_changes acc') k = None" by blast+
qed

lemma Account_storage_at_spec:
  assumes L: "lru_ok L" and ok: "acct_ok L B a acc"
    and r: "Account_storage_at L (adb L B a) (b_db B) k acc = (r, acc')"
  shows "r = storage_of L B a acc k" "acct_ok L B a acc'" "meaning L B a acc' = meaning L B a acc"
    "ac_storage_root acc' = ac_storage_root acc" "ac_nonce acc' = ac_nonce acc"
    "ac_code_cache acc' = ac_code_cache acc"
proof -
  obtain c acc1 where c: "Account_cached_storage_at L k acc = (c, acc1)" by fastforce
  note C = cached_storage_at [OF L ok c]
  have st: "storage_of L B a acc = storage_of L B a acc1" using C(2) by (simp add: meaning_def)
  have "r = storage_of L B a acc k \<and> acct_ok L B a acc' \<and> meaning L B a acc' = meaning L B a acc1 \<and>
    ac_storage_root acc' = ac_storage_root acc1 \<and> ac_nonce acc' = ac_nonce acc1 \<and>
    ac_code_cache acc' = ac_code_cache acc1"
  proof (cases c)
    case (Some v)
    then show ?thesis using r c C(1) C(6) by (simp add: Account_storage_at_def)
  next
    case None
    let ?t = "trie_storage L (adb L B a) (b_db B) (ac_storage_root acc1) k"
    have s: "storage_of L B a acc k = ?t" unfolding st using C(7) None by (simp add: storage_of_def)
    have e: "(r, acc') = (case ?t of
        Ok value \<Rightarrow> (Ok value, acc1\<lparr>ac_storage_cache := lru_put (lib_lru L) k value (ac_storage_cache acc1)\<rparr>)
      | Err e \<Rightarrow> (Err e, acc1) | Panic \<Rightarrow> (Panic, acc1) | Diverge \<Rightarrow> (Diverge, acc1))"
      using r c None by (simp add: Account_storage_at_def trie_storage_def)
    show ?thesis
    proof (cases ?t)
      case (Ok v)
      then have "acct_ok L B a acc'" using e C(1) by (auto simp: acct_ok_def intro: coherent_put [OF L])
      moreover have "meaning L B a acc' = meaning L B a acc1" using e Ok by (auto intro: meaning_cong)
      ultimately show ?thesis using e Ok s by auto
    qed (use e s C(1) in auto)
  qed
  then show "r = storage_of L B a acc k" "acct_ok L B a acc'" "meaning L B a acc' = meaning L B a acc"
    "ac_storage_root acc' = ac_storage_root acc" "ac_nonce acc' = ac_nonce acc"
    "ac_code_cache acc' = ac_code_cache acc"
    using C by simp_all
qed

lemma address_hash_spec:
  assumes ok: "acct_ok L B a acc" and h: "Account_address_hash L a acc = (h, acc')"
  shows "h = addr_hash L a" "acct_ok L B a acc'" "meaning L B a acc' = meaning L B a acc"
    "ac_storage_root acc' = ac_storage_root acc" "ac_nonce acc' = ac_nonce acc"
    "ac_code_cache acc' = ac_code_cache acc" "ac_code_size acc' = ac_code_size acc"
    "ac_code_hash acc' = ac_code_hash acc"
  using ok h by (auto simp: Account_address_hash_def acct_ok_def addr_hash_def Let_def
      intro: meaning_cong split: option.splits)

lemma update_account_cache_spec:
  assumes ok: "acct_ok L B a acc"
    and u: "acc' = update_account_cache L rq (adb L B a) (b_db B) acc"
  shows "acct_ok L B a acc'" "meaning L B a acc' = meaning L B a acc"
    "ac_storage_root acc' = ac_storage_root acc"
proof -
  consider "acc' = acc" | x where "\<not> Account_is_cached L acc"
      "hd_get (adb L B a) (b_db B) (ac_code_hash acc) = Some x"
      "acc' = acc\<lparr>ac_code_size := Some (length x), ac_code_cache := x\<rparr>"
    using u by (auto simp: update_account_cache_def Account_cache_code_def split: if_splits option.splits)
  then have "acct_ok L B a acc' \<and> meaning L B a acc' = meaning L B a acc \<and>
      ac_storage_root acc' = ac_storage_root acc"
  proof cases
    case 2
    have "code_of L B a acc' = code_of L B a acc"
      using 2 by (simp add: code_of_def Account_is_cached_def)
    then show ?thesis using 2 ok
      by (simp add: acct_ok_def meaning_def storage_of_def [abs_def] Account_storage_root_def
          Account_storage_is_clean_def cong: option.case_cong)
  qed (use ok in simp)
  then show "acct_ok L B a acc'" "meaning L B a acc' = meaning L B a acc"
    "ac_storage_root acc' = ac_storage_root acc" by simp_all
qed

lemma account_db_base [simp]: "account_db L s (addr_hash L a) = adb L (base_of s) a"
  by (simp add: account_db_def adb_def base_of_def)

lemma refresh_spec:
  assumes "acct_ok L (base_of s) a acc"
  shows "acct_ok L (base_of s) a (refresh_account L s rq a acc)"
    "meaning L (base_of s) a (refresh_account L s rq a acc) = meaning L (base_of s) a acc"
    "ac_storage_root (refresh_account L s rq a acc) = ac_storage_root acc"
proof -
  obtain h acc' where h: "Account_address_hash L a acc = (h, acc')" by fastforce
  note H = address_hash_spec [OF assms h]
  have r: "refresh_account L s rq a acc = update_account_cache L rq (adb L (base_of s) a) (b_db (base_of s)) acc'"
    using H(1) by (simp add: refresh_account_def h) (simp add: base_of_def)
  note U = update_account_cache_spec [OF H(2) r]
  show "acct_ok L (base_of s) a (refresh_account L s rq a acc)"
    "meaning L (base_of s) a (refresh_account L s rq a acc) = meaning L (base_of s) a acc"
    "ac_storage_root (refresh_account L s rq a acc) = ac_storage_root acc"
    using U H by simp_all
qed


lemma refresh_code:
  assumes "acct_ok L (base_of s) a acc"
  shows "Account_code L (refresh_account L s RC_Code a acc) = code_of L (base_of s) a acc"
proof -
  obtain h acc' where h: "Account_address_hash L a acc = (h, acc')" by fastforce
  note H = address_hash_spec [OF assms h]
  have c: "code_of L (base_of s) a acc = code_of L (base_of s) a acc'"
    using H(3) by (simp add: meaning_def)
  have r: "refresh_account L s RC_Code a acc =
      update_account_cache L RC_Code (adb L (base_of s) a) (b_db (base_of s)) acc'"
    using H(1) by (simp add: refresh_account_def h) (simp add: base_of_def)
  show ?thesis unfolding r c
    by (auto simp: update_account_cache_def Account_cache_code_def Account_code_def code_of_def
        Account_is_cached_def split: option.splits)
qed

section \<open>Columns\<close>

text \<open>What a checkpoint that holds \<open>c\<close> for an address makes of its cache entry.\<close>

definition rev_entry ::
  "('d, 'm, 'l) Libs \<Rightarrow> 'l AccountEntry option \<Rightarrow> 'l AccountEntry option option \<Rightarrow>
   'l AccountEntry option" where
  "rev_entry L e c =
     (case c of
        None \<Rightarrow> e
      | Some None \<Rightarrow> (case e of Some x \<Rightarrow> if Entry_is_dirty x then None else e | None \<Rightarrow> None)
      | Some (Some v) \<Rightarrow> Some (case e of Some x \<Rightarrow> Entry_overwrite_with L v x | None \<Rightarrow> v))"

primrec views ::
  "('d, 'm, 'l) Libs \<Rightarrow> 'd base \<Rightarrow> address \<Rightarrow> 'l AccountEntry option \<Rightarrow>
   'l AccountEntry option option list \<Rightarrow> view option trie_result list" where
  "views L B a e [] = [entry_view L B a e]"
| "views L B a e (c # cs) = entry_view L B a e # views L B a (rev_entry L e c) cs"

text \<open>A noted address has a dirty entry; where the note holds an account, so does the entry, with the
  same storage root.\<close>

definition has_root :: "'l AccountEntry \<Rightarrow> 'l AccountEntry \<Rightarrow> bool" where
  "has_root v x \<longleftrightarrow> (\<forall>av. en_account v = Some av \<longrightarrow>
     (\<exists>ax. en_account x = Some ax \<and> ac_storage_root ax = ac_storage_root av))"

definition linked ::
  "('d, 'm, 'l) Libs \<Rightarrow> 'd base \<Rightarrow> address \<Rightarrow> 'l AccountEntry option \<Rightarrow>
   'l AccountEntry option option \<Rightarrow> bool" where
  "linked L B a e c \<longleftrightarrow>
     (case c of None \<Rightarrow> True
      | Some n \<Rightarrow> (\<exists>x. e = Some x \<and> Entry_is_dirty x \<and> entry_ok L B a n \<and>
          (\<forall>v. n = Some v \<longrightarrow> has_root v x)))"

primrec column_ok ::
  "('d, 'm, 'l) Libs \<Rightarrow> 'd base \<Rightarrow> address \<Rightarrow> 'l AccountEntry option \<Rightarrow>
   'l AccountEntry option option list \<Rightarrow> bool" where
  "column_ok L B a e [] = entry_ok L B a e"
| "column_ok L B a e (c # cs) =
     (entry_ok L B a e \<and> linked L B a e c \<and> column_ok L B a (rev_entry L e c) cs)"

lemma column_ok_entry: "column_ok L B a e cs \<Longrightarrow> entry_ok L B a e"
  by (cases cs) simp_all

lemma views_Cons: "views L B a e cs = entry_view L B a e # tl (views L B a e cs)"
  by (cases cs) simp_all

lemma linked_simps [simp]:
  "linked L B a e None"
  "linked L B a (Some x) (Some None) = Entry_is_dirty x"
  "\<not> linked L B a None (Some n)"
  "linked L B a (Some x) (Some (Some v)) =
     (Entry_is_dirty x \<and> entry_ok L B a (Some v) \<and> has_root v x)"
  by (auto simp: linked_def)

lemma rev_entry_simps [simp]:
  "rev_entry L e None = e"
  "rev_entry L None (Some None) = None"
  "rev_entry L (Some x) (Some None) = (if Entry_is_dirty x then None else Some x)"
  "rev_entry L (Some x) (Some (Some v)) = Some (Entry_overwrite_with L v x)"
  by (simp_all add: rev_entry_def)

lemma has_root_refl [simp]: "has_root x x"
  by (simp add: has_root_def)

lemma has_root_trans: "has_root x y \<Longrightarrow> has_root y z \<Longrightarrow> has_root x z"
  by (fastforce simp: has_root_def)

lemma overwrite_entry:
  assumes "lru_ok L" "entry_ok L B a (Some v)" "entry_ok L B a (Some x)" "has_root v x"
  shows "entry_ok L B a (Some (Entry_overwrite_with L v x))"
    "entry_view L B a (Some (Entry_overwrite_with L v x)) = entry_view L B a (Some v)"
    "en_state (Entry_overwrite_with L v x) = en_state v"
    "has_root v (Entry_overwrite_with L v x)" "has_root (Entry_overwrite_with L v x) v"
  using assms
  by (auto simp: Entry_overwrite_with_def has_root_def entry_ok_def overwrite_ok split: option.splits)

text \<open>An entry that may stand for another one at the bottom of a column: same view, and whatever is
  noted over the one may be noted over the other.\<close>

definition sim ::
  "('d, 'm, 'l) Libs \<Rightarrow> 'd base \<Rightarrow> address \<Rightarrow> 'l AccountEntry option \<Rightarrow> 'l AccountEntry option \<Rightarrow> bool" where
  "sim L B a e e' \<longleftrightarrow>
     entry_view L B a e = entry_view L B a e' \<and> entry_ok L B a e' \<and>
     (\<forall>x. e = Some x \<longrightarrow> (\<exists>x'. e' = Some x' \<and> (Entry_is_dirty x \<longrightarrow> Entry_is_dirty x') \<and> has_root x x'))"

text \<open>The entries above differ, but a note brings them to the same.\<close>

lemma rev_entry_sim:
  assumes L: "lru_ok L" and l: "linked L B a (Some x) (Some n)"
    and ok: "entry_ok L B a (Some x)" "entry_ok L B a (Some y)"
    and y: "Entry_is_dirty y" "has_root x y"
  shows "sim L B a (rev_entry L (Some x) (Some n)) (rev_entry L (Some y) (Some n))"
proof (cases n)
  case None
  then show ?thesis using l y by (simp add: sim_def)
next
  case (Some v)
  then have v: "entry_ok L B a (Some v)" "has_root v x" using l by simp_all
  note X = overwrite_entry [OF L v(1) ok(1) v(2)]
  note Y = overwrite_entry [OF L v(1) ok(2) has_root_trans [OF v(2) y(2)]]
  show ?thesis unfolding Some
    using X Y has_root_trans [OF X(5) Y(4)] by (simp add: sim_def Entry_is_dirty_def)
qed

lemma sim_column:
  assumes L: "lru_ok L" and "sim L B a e e'" "column_ok L B a e cs"
  shows "column_ok L B a e' cs \<and> views L B a e' cs = views L B a e cs"
  using assms(2,3)
proof (induction cs arbitrary: e e')
  case Nil
  then show ?case by (simp add: sim_def)
next
  case (Cons c cs)
  show ?case
  proof (cases c)
    case None
    then show ?thesis using Cons.IH [of e e'] Cons.prems by (simp add: sim_def)
  next
    case (Some n)
    obtain x where x: "e = Some x" using Cons.prems(2) Some by (cases e) auto
    then obtain y where y: "e' = Some y" "Entry_is_dirty x \<longrightarrow> Entry_is_dirty y" "has_root x y"
      using Cons.prems(1) by (auto simp: sim_def)
    have d: "linked L B a (Some x) (Some n)" "Entry_is_dirty x"
      using Cons.prems(2) Some x by (auto simp: linked_def)
    have ok: "entry_ok L B a (Some x)" "entry_ok L B a (Some y)"
      using Cons.prems x y by (auto simp: sim_def)
    have "sim L B a (rev_entry L e c) (rev_entry L e' c)"
      unfolding Some x y(1) using rev_entry_sim [OF L d(1) ok] y d by blast
    moreover have "linked L B a e' c"
      using d y by (auto simp: Some linked_def intro: has_root_trans)
    ultimately show ?thesis using Cons.IH [of "rev_entry L e c"] Cons.prems by (auto simp: sim_def)
  qed
qed


text \<open>The active checkpoint takes a note where it has none.\<close>

fun note_col :: "'n \<Rightarrow> 'n option list \<Rightarrow> 'n option list" where
  "note_col n [] = []"
| "note_col n (None # cs) = Some n # cs"
| "note_col n (Some m # cs) = Some m # cs"

text \<open>A write over an entry: the note means what the entry meant.\<close>

lemma write_column:
  assumes L: "lru_ok L" and ok: "column_ok L B a (Some x) cs"
    and y: "entry_ok L B a (Some y)" "Entry_is_dirty y" "has_root x y"
    and v: "entry_ok L B a (Some v)" "entry_view L B a (Some v) = entry_view L B a (Some x)"
      "en_state v = en_state x" "has_root x v" "has_root v x"
  shows "column_ok L B a (Some y) (note_col (Some v) cs) \<and>
    views L B a (Some y) (note_col (Some v) cs) =
      entry_view L B a (Some y) # tl (views L B a (Some x) cs)"
proof (cases cs)
  case Nil
  then show ?thesis using y by simp
next
  case (Cons c cs')
  have x: "entry_ok L B a (Some x)" using ok by (rule column_ok_entry)
  show ?thesis
  proof (cases c)
    case None
    note O = overwrite_entry [OF L v(1) y(1) has_root_trans [OF v(5) y(3)]]
    have "sim L B a (Some x) (Some (Entry_overwrite_with L v y))"
      using O v has_root_trans [OF v(4) O(4)] by (simp add: sim_def Entry_is_dirty_def)
    then show ?thesis
      using sim_column [OF L, of B a "Some x" _ cs'] ok y v(1) has_root_trans [OF v(5) y(3)]
      by (auto simp: Cons None)
  next
    case (Some n)
    have l: "linked L B a (Some x) (Some n)" using ok by (simp add: Cons Some)
    have "sim L B a (rev_entry L (Some x) c) (rev_entry L (Some y) c)"
      unfolding Some by (rule rev_entry_sim [OF L l x y])
    moreover have "linked L B a (Some y) c"
      using l y by (auto simp: Some linked_def intro: has_root_trans)
    ultimately show ?thesis
      using sim_column [OF L, of B a "rev_entry L (Some x) c" _ cs'] ok y by (auto simp: Cons Some)
  qed
qed

text \<open>A write at an address that is not in the cache: reverting drops the entry again.\<close>

lemma column_absent: "column_ok L B a None cs \<Longrightarrow> set cs \<subseteq> {None}"
  by (induction cs) (auto simp: linked_def split: option.splits)

lemma write_absent:
  assumes ok: "column_ok L B a None cs" and y: "entry_ok L B a (Some y)" "Entry_is_dirty y"
  shows "column_ok L B a (Some y) (note_col None cs) \<and>
    views L B a (Some y) (note_col None cs) =
      entry_view L B a (Some y) # tl (views L B a None cs)"
proof (cases cs)
  case (Cons c cs')
  then have "c = None" using column_absent [OF ok] by simp
  then show ?thesis using ok y by (simp add: Cons)
qed (use y in simp)

text \<open>Discarding a checkpoint: the note below is older.\<close>

lemma discard_column:
  assumes L: "lru_ok L" and ok: "column_ok L B a e (c # c' # cs)"
  shows "column_ok L B a e ((if c' = None then c else c') # cs) \<and>
    views L B a e ((if c' = None then c else c') # cs) =
      entry_view L B a e # tl (tl (views L B a e (c # c' # cs)))"
proof (cases "c = None \<or> c' = None")
  case True
  then show ?thesis using ok by (auto split: if_splits)
next
  case False
  then obtain n n' where n: "c = Some n" "c' = Some n'" by auto
  obtain x where e: "e = Some x" using ok n by (cases e) auto
  have x: "entry_ok L B a (Some x)" "Entry_is_dirty x" using ok n e by (auto simp: linked_def)
  obtain v where v: "n = Some v" using ok n e x by (cases n) auto
  have vx: "entry_ok L B a (Some v)" "has_root v x" using ok n e v by auto
  note O = overwrite_entry [OF L vx(1) x(1) vx(2)]
  let ?o = "Entry_overwrite_with L v x"
  have l: "linked L B a (Some ?o) (Some n')" using ok n e v by simp
  have "sim L B a (rev_entry L (Some ?o) (Some n')) (rev_entry L (Some x) (Some n'))"
    by (rule rev_entry_sim [OF L l O(1) x(1,2) has_root_trans [OF O(5) vx(2)]])
  moreover have "linked L B a (Some x) (Some n')"
    using l x O(5) vx(2) by (auto simp: linked_def intro: has_root_trans)
  ultimately show ?thesis
    using sim_column [OF L, of B a "rev_entry L (Some ?o) (Some n')" _ cs] ok x
    by (auto simp: n e v)
qed

section \<open>The state\<close>

definition notes_of :: "('d, 'l) State \<Rightarrow> address \<Rightarrow> 'l AccountEntry option option list" where
  "notes_of s a = map (\<lambda>cp. map_of cp a) (rev (st_checkpoints s))"

definition state_ok :: "('d, 'm, 'l) Libs \<Rightarrow> ('d, 'l) State \<Rightarrow> bool" where
  "state_ok L s \<longleftrightarrow>
     (\<forall>cp \<in> set (st_checkpoints s). distinct (map fst cp)) \<and>
     (\<forall>a. column_ok L (base_of s) a (map_of (st_cache s) a) (notes_of s a))"

text \<open>The stack of views of an address, the current one first.\<close>

definition vstack :: "('d, 'm, 'l) Libs \<Rightarrow> ('d, 'l) State \<Rightarrow> address \<Rightarrow> view option trie_result list" where
  "vstack L s a = views L (base_of s) a (map_of (st_cache s) a) (notes_of s a)"

lemma base_of_updates [simp]:
  "base_of (s\<lparr>st_cache := c\<rparr>) = base_of s" "base_of (s\<lparr>st_checkpoints := cps\<rparr>) = base_of s"
  by (simp_all add: base_of_def)

lemma notes_cache [simp]: "notes_of (s\<lparr>st_cache := c\<rparr>) = notes_of s"
  by (simp add: notes_of_def fun_eq_iff)

lemma map_of_update: "map_of (AList.update k v al) k' = (if k' = k then Some v else map_of al k')"
  by (simp add: update_conv')

lemma map_of_delete: "map_of (AList.delete k al) k' = (if k' = k then None else map_of al k')"
  by (simp add: delete_conv')

lemma notes_note:
  "map (\<lambda>cp. map_of cp b) (rev (note_in_checkpoint a v cps)) =
     (if b = a then note_col v (map (\<lambda>cp. map_of cp b) (rev cps)) else map (\<lambda>cp. map_of cp b) (rev cps))"
proof (cases "rev cps")
  case (Cons cp rest)
  then have c: "cps = rev rest @ [cp]" by (metis rev.simps(2) rev_rev_ident)
  show ?thesis unfolding c
    by (cases "map_of cp a") (auto simp: note_in_checkpoint_def map_of_update)
qed (simp add: note_in_checkpoint_def)

lemma distinct_note:
  "(\<forall>cp \<in> set cps. distinct (map fst cp)) \<Longrightarrow>
   \<forall>cp \<in> set (note_in_checkpoint a v cps). distinct (map fst cp)"
  by (auto simp: note_in_checkpoint_def distinct_update dest: in_set_butlastD)

lemma state_okD:
  assumes "state_ok L s"
  shows "column_ok L (base_of s) a (map_of (st_cache s) a) (notes_of s a)"
    and "entry_ok L (base_of s) a (map_of (st_cache s) a)"
  using assms by (auto simp: state_ok_def intro: column_ok_entry)

lemma vstack_Cons: "vstack L s a = entry_view L (base_of s) a (map_of (st_cache s) a) # tl (vstack L s a)"
  unfolding vstack_def by (rule views_Cons)

text \<open>A change at one address.\<close>

lemma state_change:
  assumes ok: "state_ok L s" and b: "base_of s' = base_of s"
    and d: "\<forall>cp \<in> set (st_checkpoints s'). distinct (map fst cp)"
    and other: "\<And>b. b \<noteq> a \<Longrightarrow> map_of (st_cache s') b = map_of (st_cache s) b \<and> notes_of s' b = notes_of s b"
    and here: "column_ok L (base_of s) a (map_of (st_cache s') a) (notes_of s' a) \<and>
      views L (base_of s) a (map_of (st_cache s') a) (notes_of s' a) = vs"
  shows "state_ok L s' \<and> vstack L s' = (vstack L s)(a := vs)"
proof -
  have "column_ok L (base_of s') b (map_of (st_cache s') b) (notes_of s' b)" for b
    using ok other [of b] here b by (cases "b = a") (auto simp: state_ok_def)
  moreover have "vstack L s' b = ((vstack L s)(a := vs)) b" for b
    using other [of b] here b by (auto simp: vstack_def)
  ultimately show ?thesis using d by (auto simp: state_ok_def)
qed


section \<open>Checkpoints refine a stack\<close>

lemma checkpoint_stack:
  assumes "state_ok L s"
  shows "state_ok L (checkpoint s) \<and> vstack L (checkpoint s) a = hd (vstack L s a) # vstack L s a"
proof -
  have "notes_of (checkpoint s) b = None # notes_of s b" for b
    by (simp add: notes_of_def checkpoint_def)
  moreover have "base_of (checkpoint s) = base_of s" "st_cache (checkpoint s) = st_cache s"
    by (simp_all add: checkpoint_def)
  moreover have "hd (vstack L s a) = entry_view L (base_of s) a (map_of (st_cache s) a)"
    by (subst vstack_Cons) simp
  ultimately show ?thesis using assms state_okD(2) [OF assms]
    by (auto simp: state_ok_def vstack_def) (auto simp: checkpoint_def)
qed

lemma map_of_revert_entry:
  "map_of (revert_entry L (k, v) cache) a =
     (if a = k then rev_entry L (map_of cache a) (Some v) else map_of cache a)"
  by (auto simp: revert_entry_def rev_entry_def map_of_update map_of_delete split: option.splits)

lemma map_of_revert:
  assumes "distinct (map fst cp)"
  shows "map_of (fold (revert_entry L) cp cache) a = rev_entry L (map_of cache a) (map_of cp a)"
  using assms
proof (induction cp arbitrary: cache)
  case (Cons kv cp)
  obtain k v where kv: "kv = (k, v)" by fastforce
  have "map_of cp k = None" using Cons.prems kv by (simp add: map_of_eq_None_iff)
  then show ?case using Cons by (auto simp: kv map_of_revert_entry)
qed simp

lemma notes_split:
  assumes "st_checkpoints s \<noteq> []"
  shows "notes_of s a = map_of (last (st_checkpoints s)) a #
    map (\<lambda>cp. map_of cp a) (rev (butlast (st_checkpoints s)))"
  using assms by (cases "st_checkpoints s" rule: rev_cases) (simp_all add: notes_of_def)

lemma revert_stack:
  assumes ok: "state_ok L s" and c: "st_checkpoints s \<noteq> []"
  shows "state_ok L (revert_to_checkpoint L s) \<and>
    vstack L (revert_to_checkpoint L s) a = tl (vstack L s a)"
proof -
  let ?r = "revert_to_checkpoint L s"
  have d: "distinct (map fst (last (st_checkpoints s)))" using ok c by (auto simp: state_ok_def)
  have n: "notes_of s b = map_of (last (st_checkpoints s)) b # notes_of ?r b" for b
    using notes_split [OF c] c by (simp add: notes_of_def revert_to_checkpoint_def)
  have e: "map_of (st_cache ?r) b =
      rev_entry L (map_of (st_cache s) b) (map_of (last (st_checkpoints s)) b)" for b
    using c d by (simp add: revert_to_checkpoint_def map_of_revert)
  have b: "base_of ?r = base_of s" by (simp add: revert_to_checkpoint_def base_of_def)
  have "column_ok L (base_of ?r) x (map_of (st_cache ?r) x) (notes_of ?r x)" for x
    using state_okD(1) [OF ok, of x] n [of x] e [of x] b by simp
  moreover have "\<forall>cp \<in> set (st_checkpoints ?r). distinct (map fst cp)"
    using ok by (auto simp: revert_to_checkpoint_def state_ok_def dest: in_set_butlastD)
  moreover have "vstack L ?r a = tl (vstack L s a)"
    using n [of a] e [of a] b by (simp add: vstack_def)
  ultimately show ?thesis by (simp add: state_ok_def)
qed

lemma map_of_or_insert:
  "map_of (or_insert kv prev) a =
     (if a = fst kv \<and> map_of prev a = None then Some (snd kv) else map_of prev a)"
  by (auto simp: or_insert_def map_of_update split: option.splits)

lemma map_of_merge:
  assumes "distinct (map fst cp)"
  shows "map_of (fold or_insert cp prev) a = (if map_of prev a = None then map_of cp a else map_of prev a)"
  using assms
proof (induction cp arbitrary: prev)
  case (Cons kv cp)
  have "map_of cp (fst kv) = None" using Cons.prems by (simp add: map_of_eq_None_iff)
  then show ?case using Cons by (cases kv) (auto simp: map_of_or_insert)
qed auto

lemma distinct_merge: "distinct (map fst prev) \<Longrightarrow> distinct (map fst (fold or_insert cp prev))"
  by (induction cp arbitrary: prev) (simp_all add: or_insert_def distinct_update split: option.split)

lemma discard_stack:
  assumes L: "lru_ok L" and ok: "state_ok L s" and c: "st_checkpoints s \<noteq> []"
  shows "state_ok L (discard_checkpoint s) \<and>
    vstack L (discard_checkpoint s) a = hd (vstack L s a) # tl (tl (vstack L s a))"
proof -
  let ?d = "discard_checkpoint s"
  obtain rest cp where cps: "st_checkpoints s = rest @ [cp]" using c by (metis append_butlast_last_id)
  have base: "base_of ?d = base_of s" "st_cache ?d = st_cache s"
    by (simp_all add: discard_checkpoint_def Let_def base_of_def)
  have hd: "hd (vstack L s a) = entry_view L (base_of s) a (map_of (st_cache s) a)"
    by (subst vstack_Cons) simp
  have dist: "distinct (map fst cp)" "\<forall>q \<in> set rest. distinct (map fst q)"
    using ok by (auto simp: state_ok_def cps)
  show ?thesis
  proof (cases "rest = []")
    case True
    have "notes_of s b = [map_of cp b]" "notes_of ?d b = []" "st_checkpoints ?d = []" for b
      using True by (simp_all add: notes_of_def cps discard_checkpoint_def)
    then show ?thesis using ok base hd state_okD(2) [OF ok] by (auto simp: state_ok_def vstack_def)
  next
    case False
    then obtain lower prev where r: "rest = lower @ [prev]" by (metis append_butlast_last_id)
    let ?m = "if prev = [] then cp else fold or_insert cp prev"
    have "last (st_checkpoints s) = cp" "butlast (st_checkpoints s) = rest" by (simp_all add: cps)
    moreover have "rest \<noteq> []" "last rest = prev" "butlast rest = lower" using r by simp_all
    ultimately have st: "st_checkpoints ?d = lower @ [?m]" using c by (simp add: discard_checkpoint_def)
    have m: "map_of ?m b = (if map_of prev b = None then map_of cp b else map_of prev b)" for b
      using dist(1) by (simp add: map_of_merge)
    have n: "notes_of s b = map_of cp b # map_of prev b # map (\<lambda>q. map_of q b) (rev lower)"
      "notes_of ?d b = map_of ?m b # map (\<lambda>q. map_of q b) (rev lower)" for b
      by (simp_all add: notes_of_def cps r st)
    have col: "column_ok L (base_of s) b (map_of (st_cache s) b) (notes_of ?d b) \<and>
        views L (base_of s) b (map_of (st_cache s) b) (notes_of ?d b) =
          entry_view L (base_of s) b (map_of (st_cache s) b) # tl (tl (vstack L s b))" for b
      using discard_column [OF L, of "base_of s" b "map_of (st_cache s) b"] state_okD(1) [OF ok, of b]
      unfolding n m vstack_def by blast
    have "\<forall>q \<in> set (st_checkpoints ?d). distinct (map fst q)"
      using dist by (auto simp: st r distinct_merge)
    then show ?thesis using col base hd by (auto simp: state_ok_def vstack_def [of L ?d])
  qed
qed

end
