(* ===== verification/State_Operations.thy ===== *)
theory State_Operations
  imports State_Refinement
begin

text \<open>
  The operations of the state against the stack of views: what each read returns and that it
  changes no view, what each write changes, and that a revert brings back every view whatever
  happened since the checkpoint, nested checkpoints included. Two cases lie outside: an account
  killed under a checkpoint, which a revert does not restore, and a new contract in place of a
  cached account.
\<close>

section \<open>Reads\<close>

lemma load_account_base [simp]: "load_account L s a = load L (base_of s) a"
  by (simp add: load_account_def load_def trie_account_def base_of_def)

lemma load_ok:
  assumes "lru_ok L" "load L B a = Ok (Some acc)"
  shows "acct_ok L B a acc"
  using assms by (auto simp: load_def Account_from_rlp_def split: option.splits)

text \<open>Replacing the entry of an address by one that means the same.\<close>

lemma touch:
  assumes L: "lru_ok L" and ok: "state_ok L s"
    and sim: "sim L (base_of s) a (map_of (st_cache s) a) (Some x)"
  shows "state_ok L (s\<lparr>st_cache := AList.update a x (st_cache s)\<rparr>) \<and>
    vstack L (s\<lparr>st_cache := AList.update a x (st_cache s)\<rparr>) = vstack L s"
proof -
  let ?s = "s\<lparr>st_cache := AList.update a x (st_cache s)\<rparr>"
  have "state_ok L ?s \<and> vstack L ?s = (vstack L s)(a := vstack L s a)"
  proof (rule state_change [OF ok])
    show "\<forall>cp \<in> set (st_checkpoints ?s). distinct (map fst cp)" using ok by (simp add: state_ok_def)
    show "column_ok L (base_of s) a (map_of (st_cache ?s) a) (notes_of ?s a) \<and>
        views L (base_of s) a (map_of (st_cache ?s) a) (notes_of ?s a) = vstack L s a"
      using sim_column [OF L sim state_okD(1) [OF ok]] by (simp add: map_of_update vstack_def)
  qed (simp_all add: map_of_update)
  then show ?thesis by simp
qed

lemma insert_clean [simp]:
  "insert_cache a (Entry_new_clean m) s = s\<lparr>st_cache := AList.update a (Entry_new_clean m) (st_cache s)\<rparr>"
  by (simp add: insert_cache_def Entry_new_clean_def Entry_is_dirty_def)

lemma sim_account:
  assumes "acct_ok L B a acc'" "meaning L B a acc' = meaning L B a acc"
    "ac_storage_root acc' = ac_storage_root acc" "en_account x = Some acc"
  shows "sim L B a (Some x) (Some (x\<lparr>en_account := Some acc'\<rparr>))"
  using assms by (auto simp: sim_def entry_ok_def has_root_def Entry_is_dirty_def)

lemma sim_load:
  assumes "load L B a = Ok m" "\<And>acc. m = Some acc \<Longrightarrow> \<exists>acc'. m' = Some acc' \<and> acct_ok L B a acc' \<and>
      meaning L B a acc' = meaning L B a acc" "m = None \<Longrightarrow> m' = None"
  shows "sim L B a None (Some (Entry_new_clean m'))"
  using assms by (cases m) (auto simp: sim_def entry_view_def Entry_new_clean_def)

text \<open>A read fills the cache and nothing else; what it computes it computes from the refreshed
  account, which means what the address stands for.\<close>

lemma ensure_cached_spec:
  assumes L: "lru_ok L" and ok: "state_ok L s" and r: "ensure_cached L a rq f s = (r, s')"
  shows "state_ok L s' \<and> vstack L s' = vstack L s \<and> base_of s' = base_of s \<and>
    st_checkpoints s' = st_checkpoints s \<and>
    (\<exists>m. r = res_map f (res_map (map_option (refresh_account L s rq a)) m) \<and>
       res_map (map_option (meaning L (base_of s) a)) m = hd (vstack L s a) \<and>
       (\<forall>acc. m = Ok (Some acc) \<longrightarrow> acct_ok L (base_of s) a acc))"
proof (cases "map_of (st_cache s) a")
  case (Some e)
  have h: "hd (vstack L s a) = Ok (map_option (meaning L (base_of s) a) (en_account e))"
    by (subst vstack_Cons) (simp add: Some)
  show ?thesis
  proof (cases "en_account e")
    case None
    then show ?thesis using r ok Some h by (auto simp: ensure_cached_def intro!: exI [of _ "Ok None"])
  next
    case (Some acc)
    have acc: "acct_ok L (base_of s) a acc"
      using state_okD(2) [OF ok, of a] \<open>map_of (st_cache s) a = Some e\<close> Some by (simp add: entry_ok_def)
    have "sim L (base_of s) a (map_of (st_cache s) a)
        (Some (e\<lparr>en_account := Some (refresh_account L s rq a acc)\<rparr>))"
      unfolding \<open>map_of (st_cache s) a = Some e\<close>
      by (rule sim_account [OF refresh_spec [OF acc] Some])
    from touch [OF L ok this] show ?thesis
      using r \<open>map_of (st_cache s) a = Some e\<close> Some h acc
      by (auto simp: ensure_cached_def Let_def intro!: exI [of _ "Ok (Some acc)"])
  qed
next
  case None
  have h: "hd (vstack L s a) = res_map (map_option (meaning L (base_of s) a)) (load L (base_of s) a)"
    by (subst vstack_Cons) (simp add: None entry_view_def)
  show ?thesis
  proof (cases "load L (base_of s) a")
    case (Ok m)
    let ?m = "map_option (refresh_account L s rq a) m"
    have m: "\<And>acc. m = Some acc \<Longrightarrow> acct_ok L (base_of s) a acc" using load_ok [OF L] Ok by blast
    have "sim L (base_of s) a (map_of (st_cache s) a) (Some (Entry_new_clean ?m))"
      unfolding None by (rule sim_load [OF Ok]) (auto simp: refresh_spec m)
    from touch [OF L ok this] show ?thesis using r None Ok h m
      by (auto simp: ensure_cached_def Let_def intro!: exI [of _ "Ok m"])
  qed (use r None h ok in \<open>auto simp: ensure_cached_def intro!: exI [of _ "load L (base_of s) a"]\<close>)
qed

definition current :: "('d, 'm, 'l) Libs \<Rightarrow> ('d, 'l) State \<Rightarrow> address \<Rightarrow> view option trie_result" where
  "current L s a = hd (vstack L s a)"

lemma current_eq: "current L s a = entry_view L (base_of s) a (map_of (st_cache s) a)"
  unfolding current_def by (subst vstack_Cons) simp

text \<open>What an operation that only reads leaves alone.\<close>

definition untouched :: "('d, 'm, 'l) Libs \<Rightarrow> ('d, 'l) State \<Rightarrow> ('d, 'l) State \<Rightarrow> bool" where
  "untouched L s s' \<longleftrightarrow> state_ok L s' \<and> vstack L s' = vstack L s \<and> base_of s' = base_of s \<and>
     st_checkpoints s' = st_checkpoints s"

lemma ensure_cached_reads:
  assumes "lru_ok L" "state_ok L s" "ensure_cached L a rq f s = (r, s')"
    and f: "\<And>acc. acct_ok L (base_of s) a acc \<Longrightarrow>
      f (Some (refresh_account L s rq a acc)) = g (Some (meaning L (base_of s) a acc))"
    and fN: "f None = g None"
  shows "untouched L s s' \<and> r = res_map g (current L s a)"
proof -
  obtain m where m: "r = res_map f (res_map (map_option (refresh_account L s rq a)) m)"
    "res_map (map_option (meaning L (base_of s) a)) m = current L s a"
    "\<And>acc. m = Ok (Some acc) \<Longrightarrow> acct_ok L (base_of s) a acc"
    using ensure_cached_spec [OF assms(1-3)] unfolding current_def by blast
  have "res_map f (res_map (map_option (refresh_account L s rq a)) m) =
      res_map g (res_map (map_option (meaning L (base_of s) a)) m)"
  proof (cases m)
    case (Ok o')
    then show ?thesis using m(3) f fN by (cases o') auto
  qed auto
  then show ?thesis using ensure_cached_spec [OF assms(1-3)] m by (auto simp: untouched_def)
qed

lemma refresh_fields:
  assumes "acct_ok L (base_of s) a acc"
  shows "ac_nonce (refresh_account L s rq a acc) = ac_nonce acc"
    "ac_code_hash (refresh_account L s rq a acc) = ac_code_hash acc"
    "Account_storage_root (refresh_account L s rq a acc) = Account_storage_root acc"
  using refresh_spec(2) [OF assms, of rq] by (simp_all add: meaning_def)

lemma State_nonce_spec:
  assumes "lru_ok L" "state_ok L s" "State_nonce L a s = (r, s')"
  shows "untouched L s s' \<and> r = res_map (\<lambda>v. case v of None \<Rightarrow> st_account_start_nonce s
    | Some w \<Rightarrow> vw_nonce w) (current L s a)"
  by (rule ensure_cached_reads [OF assms(1,2) assms(3) [unfolded State_nonce_def]])
    (simp_all add: refresh_fields meaning_def)

lemma State_exists_spec:
  assumes "lru_ok L" "state_ok L s" "State_exists L a s = (r, s')"
  shows "untouched L s s' \<and> r = res_map (\<lambda>v. v \<noteq> None) (current L s a)"
  by (rule ensure_cached_reads [OF assms(1,2) assms(3) [unfolded State_exists_def]]) simp_all

lemma State_exists_and_not_null_spec:
  assumes "lru_ok L" "state_ok L s" "State_exists_and_not_null L a s = (r, s')"
  shows "untouched L s s' \<and> r = res_map (\<lambda>v. case v of None \<Rightarrow> False
    | Some w \<Rightarrow> \<not> (vw_nonce w = 0 \<and> vw_code_hash w = HASH_EMPTY L)) (current L s a)"
  by (rule ensure_cached_reads [OF assms(1,2) assms(3) [unfolded State_exists_and_not_null_def]])
    (simp_all add: refresh_fields meaning_def Account_is_null_def)

lemma State_storage_root_spec:
  assumes "lru_ok L" "state_ok L s" "State_storage_root L a s = (r, s')"
  shows "untouched L s s' \<and> r = res_map (\<lambda>v. case v of None \<Rightarrow> None | Some w \<Rightarrow> vw_root w) (current L s a)"
  by (rule ensure_cached_reads [OF assms(1,2) assms(3) [unfolded State_storage_root_def]])
    (simp_all add: refresh_fields meaning_def)

lemma State_code_hash_spec:
  assumes "lru_ok L" "state_ok L s" "State_code_hash L a s = (r, s')"
  shows "untouched L s s' \<and> r = res_map (\<lambda>v. case v of None \<Rightarrow> HASH_EMPTY L
    | Some w \<Rightarrow> vw_code_hash w) (current L s a)"
  by (rule ensure_cached_reads [OF assms(1,2) assms(3) [unfolded State_code_hash_def]])
    (simp_all add: refresh_fields meaning_def)

lemma State_code_spec:
  assumes "lru_ok L" "state_ok L s" "State_code L a s = (r, s')"
  shows "untouched L s s' \<and> r = res_map (\<lambda>v. case v of None \<Rightarrow> None | Some w \<Rightarrow> vw_code w) (current L s a)"
  by (rule ensure_cached_reads [OF assms(1,2) assms(3) [unfolded State_code_def]])
    (simp_all add: refresh_code meaning_def)

text \<open>The size of the code, where there is code.\<close>

lemma code_size_length:
  assumes ok: "acct_ok L (base_of s) a acc" and c: "code_of L (base_of s) a acc = Some c"
  shows "(case ac_code_size (refresh_account L s RC_CodeSize a acc) of None \<Rightarrow> 0 | Some n \<Rightarrow> n) = length c"
proof -
  let ?x = "refresh_account L s RC_CodeSize a acc"
  have same: "refresh_account L s RC_CodeSize a acc = refresh_account L s RC_Code a acc"
    by (simp add: refresh_account_def update_account_cache_def split: prod.split)
  have ok': "acct_ok L (base_of s) a ?x" by (rule refresh_spec(1) [OF ok])
  have "Account_code L ?x = Some c" using refresh_code [OF ok] c by (simp add: same)
  then have "ac_code_cache ?x = c" by (simp add: Account_code_def split: if_splits)
  then show ?thesis using ok' by (auto simp: acct_ok_def split: option.splits)
qed

lemma State_code_size_spec:
  assumes "lru_ok L" "state_ok L s" "State_code_size L a s = (r, s')"
  shows "untouched L s s' \<and> (\<forall>w c. current L s a = Ok (Some w) \<and> vw_code w = Some c \<longrightarrow>
    (\<exists>n. r = Ok n \<and> (case n of None \<Rightarrow> 0 | Some n \<Rightarrow> n) = length c))"
proof -
  note E = ensure_cached_spec [OF assms(1,2) assms(3) [unfolded State_code_size_def]]
  then obtain m where m: "r = res_map (\<lambda>acc. case acc of None \<Rightarrow> None | Some a \<Rightarrow> ac_code_size a)
      (res_map (map_option (refresh_account L s RC_CodeSize a)) m)"
    "res_map (map_option (meaning L (base_of s) a)) m = current L s a"
    "\<And>acc. m = Ok (Some acc) \<Longrightarrow> acct_ok L (base_of s) a acc"
    unfolding current_def by blast
  have "\<exists>n. r = Ok n \<and> (case n of None \<Rightarrow> 0 | Some n \<Rightarrow> n) = length c"
    if w: "current L s a = Ok (Some w)" "vw_code w = Some c" for w c
  proof -
    obtain acc where acc: "m = Ok (Some acc)" "w = meaning L (base_of s) a acc"
      using m(2) w(1) by (cases m) (auto split: option.splits)
    then show ?thesis using m w(2) code_size_length [OF m(3) [OF acc(1)]] by (simp add: meaning_def)
  qed
  then show ?thesis using E by (auto simp: untouched_def)
qed

text \<open>A state is created with a root that its database has, so that the state trie opens.\<close>

definition root_ok :: "('d, 'm, 'l) Libs \<Rightarrow> ('d, 'l) State \<Rightarrow> bool" where
  "root_ok L s \<longleftrightarrow> tf_readonly (lib_trie L) (lib_db L) (st_db s) (st_root s) = Ok ()"

lemma storage_at_cached:
  assumes L: "lru_ok L" and ok: "state_ok L s" and r: "State_storage_at L a k s = (r, s')"
    and e: "map_of (st_cache s) a = Some e" "en_account e = Some acc"
  shows "untouched L s s' \<and> r = storage_of L (base_of s) a acc k"
proof -
  let ?B = "base_of s"
  have acc: "acct_ok L ?B a acc" using state_okD(2) [OF ok, of a] e by (simp add: entry_ok_def)
  obtain c acc1 where c: "Account_cached_storage_at L k acc = (c, acc1)" by fastforce
  note C = cached_storage_at [OF L acc c]
  obtain h acc2 where h: "Account_address_hash L a acc1 = (h, acc2)" by fastforce
  note H = address_hash_spec [OF C(1) h]
  obtain q acc3 where q: "Account_storage_at L (adb L ?B a) (b_db ?B) k acc2 = (q, acc3)" by fastforce
  note Q = Account_storage_at_spec [OF L H(2) q]
  define x where "x = (case c of Some _ \<Rightarrow> acc1 | None \<Rightarrow> acc3)"
  have x: "acct_ok L ?B a x" "meaning L ?B a x = meaning L ?B a acc"
    "ac_storage_root x = ac_storage_root acc"
    using C H Q by (auto simp: x_def split: option.splits)
  have same: "storage_of L ?B a acc2 = storage_of L ?B a acc"
    using C(2) H(3) by (simp add: meaning_def)
  have s': "s' = s\<lparr>st_cache := AList.update a (e\<lparr>en_account := Some x\<rparr>) (st_cache s)\<rparr> \<and>
      r = storage_of L ?B a acc k"
    using r e c h q C(6) H(1) Q(1) same
    by (auto simp: State_storage_at_def x_def base_of_def adb_def account_db_def Let_def split: option.splits)
  have "sim L ?B a (map_of (st_cache s) a) (Some (e\<lparr>en_account := Some x\<rparr>))"
    unfolding e(1) by (rule sim_account [OF x e(2)])
  from touch [OF L ok this] show ?thesis using s' by (auto simp: untouched_def)
qed

lemma storage_at_loaded:
  assumes L: "lru_ok L" and ok: "state_ok L s" and root: "root_ok L s"
    and r: "State_storage_at L a k s = (r, s')" and ret: "returns r"
    and e: "map_of (st_cache s) a = None" "load L (base_of s) a = Ok (Some acc)"
  shows "untouched L s s' \<and> r = storage_of L (base_of s) a acc k"
proof -
  let ?B = "base_of s"
  have tr: "trie_account L s a = load L ?B a"
    using root by (simp add: trie_account_def load_def base_of_def root_ok_def)
  have acc: "acct_ok L ?B a acc" using load_ok [OF L] e by blast
  obtain h acc2 where h: "Account_address_hash L a acc = (h, acc2)" by fastforce
  note H = address_hash_spec [OF acc h]
  obtain q acc3 where q: "Account_storage_at L (adb L ?B a) (b_db ?B) k acc2 = (q, acc3)" by fastforce
  note Q = Account_storage_at_spec [OF L H(2) q]
  have same: "storage_of L ?B a acc2 = storage_of L ?B a acc" using H(3) by (simp add: meaning_def)
  have sr: "r = q \<and> (returns q \<longrightarrow> s' = s\<lparr>st_cache :=
      AList.update a (Entry_new_clean (Some acc3)) (st_cache s)\<rparr>)"
    using r e h q H(1) root [unfolded root_ok_def]
    by (auto simp: State_storage_at_def tr base_of_def adb_def account_db_def)
  have "sim L ?B a (map_of (st_cache s) a) (Some (Entry_new_clean (Some acc3)))"
    unfolding e(1) by (rule sim_load [OF e(2)]) (use Q H in auto)
  from touch [OF L ok this] show ?thesis using sr ret Q(1) same by (auto simp: untouched_def)
qed

lemma State_storage_at_spec:
  assumes L: "lru_ok L" and ok: "state_ok L s" and root: "root_ok L s"
    and r: "State_storage_at L a k s = (r, s')" and ret: "returns r"
  shows "untouched L s s' \<and> r = res_bind (current L s a)
    (\<lambda>v. case v of None \<Rightarrow> Ok 0 | Some w \<Rightarrow> vw_storage w k)"
proof (cases "map_of (st_cache s) a")
  case (Some e)
  then show ?thesis
    using storage_at_cached [OF L ok r Some] r ok
    by (cases "en_account e") (auto simp: State_storage_at_def current_eq untouched_def meaning_def)
next
  case None
  let ?B = "base_of s"
  have cur: "current L s a = res_map (map_option (meaning L ?B a)) (load L ?B a)"
    by (simp add: current_eq None entry_view_def)
  have tr: "trie_account L s a = load L ?B a"
    using root by (simp add: trie_account_def load_def base_of_def root_ok_def)
  note r' = r [unfolded State_storage_at_def None, simplified tr, simplified root [unfolded root_ok_def]]
  show ?thesis
  proof (cases "load L ?B a")
    case (Ok m)
    show ?thesis
    proof (cases m)
      case None
      have "sim L ?B a (map_of (st_cache s) a) (Some (Entry_new_clean None))"
        unfolding \<open>map_of (st_cache s) a = None\<close> by (rule sim_load [OF Ok]) (simp_all add: None)
      from touch [OF L ok this] show ?thesis using r' Ok None cur by (auto simp: untouched_def)
    next
      case (Some acc)
      then show ?thesis
        using storage_at_loaded [OF L ok root r ret \<open>map_of (st_cache s) a = None\<close>] Ok cur
        by (simp add: meaning_def)
    qed
  qed (use r' ok cur in \<open>auto simp: untouched_def\<close>)
qed

section \<open>Writes\<close>

text \<open>The change of a write at the top of the stack of one address.\<close>

definition written ::
  "('d, 'm, 'l) Libs \<Rightarrow> address \<Rightarrow> view option \<Rightarrow> ('d, 'l) State \<Rightarrow> ('d, 'l) State \<Rightarrow> bool" where
  "written L a v s s' \<longleftrightarrow> state_ok L s' \<and> base_of s' = base_of s \<and>
     length (st_checkpoints s') = length (st_checkpoints s) \<and>
     vstack L s' = (vstack L s)(a := Ok v # tl (vstack L s a))"

lemma length_note [simp]: "length (note_in_checkpoint a v cps) = length cps"
  by (cases cps rule: rev_cases) (simp_all add: note_in_checkpoint_def)

lemma notes_of_note [simp]:
  "notes_of (s\<lparr>st_checkpoints := note_in_checkpoint a v (st_checkpoints s)\<rparr>) b =
     (if b = a then note_col v (notes_of s b) else notes_of s b)"
  by (simp add: notes_of_def notes_note)

lemma clone_entry:
  assumes "lru_ok L" "entry_ok L B a (Some x)"
  shows "entry_ok L B a (Some (Entry_clone_dirty L x))"
    "entry_view L B a (Some (Entry_clone_dirty L x)) = entry_view L B a (Some x)"
    "en_state (Entry_clone_dirty L x) = en_state x"
    "has_root x (Entry_clone_dirty L x)" "has_root (Entry_clone_dirty L x) x"
  using assms by (auto simp: Entry_clone_dirty_def entry_ok_def has_root_def option.map_comp
      clone_dirty_ok comp_def split: option.splits)

text \<open>An entry replaced by a dirty one, with the old one noted as \<open>v\<close>.\<close>

lemma write_entry:
  assumes L: "lru_ok L" and ok: "state_ok L s" and e: "map_of (st_cache s) a = Some x"
    and y: "entry_ok L (base_of s) a (Some y)" "Entry_is_dirty y" "has_root x y"
    and v: "entry_ok L (base_of s) a (Some v)"
      "entry_view L (base_of s) a (Some v) = entry_view L (base_of s) a (Some x)"
      "en_state v = en_state x" "has_root x v" "has_root v x"
  shows "written L a (map_option (meaning L (base_of s) a) (en_account y)) s
    (s\<lparr>st_checkpoints := note_in_checkpoint a (Some v) (st_checkpoints s),
       st_cache := AList.update a y (st_cache s)\<rparr>)"
proof -
  let ?s = "s\<lparr>st_checkpoints := note_in_checkpoint a (Some v) (st_checkpoints s),
       st_cache := AList.update a y (st_cache s)\<rparr>"
  have "state_ok L ?s \<and> vstack L ?s =
      (vstack L s)(a := entry_view L (base_of s) a (Some y) # tl (vstack L s a))"
  proof (rule state_change [OF ok])
    show "\<forall>cp \<in> set (st_checkpoints ?s). distinct (map fst cp)"
      using ok distinct_note [of "st_checkpoints s"] by (simp add: state_ok_def)
    show "column_ok L (base_of s) a (map_of (st_cache ?s) a) (notes_of ?s a) \<and>
        views L (base_of s) a (map_of (st_cache ?s) a) (notes_of ?s a) =
          entry_view L (base_of s) a (Some y) # tl (vstack L s a)"
      using write_column [OF L _ y v, of "notes_of s a"] state_okD(1) [OF ok, of a]
      by (simp add: e map_of_update vstack_def)
  qed (simp_all add: map_of_update)
  then show ?thesis by (simp add: written_def)
qed

lemma untouched_written:
  assumes "untouched L s s1" "written L a v s1 s'"
  shows "written L a v s s'"
  using assms by (auto simp: untouched_def written_def)

text \<open>The loading half of \<open>require_or_from\<close>.\<close>

lemma require_load:
  assumes L: "lru_ok L" and ok: "state_ok L s"
    and r: "(if map_of (st_cache s) a = None
            then res_map (\<lambda>acc. insert_cache a (Entry_new_clean acc) s) (load_account L s a)
            else Ok s) = Ok s1"
  shows "untouched L s s1 \<and> (\<exists>x. map_of (st_cache s1) a = Some x)"
proof (cases "map_of (st_cache s) a")
  case None
  then obtain m where m: "load L (base_of s) a = Ok m"
    "s1 = s\<lparr>st_cache := AList.update a (Entry_new_clean m) (st_cache s)\<rparr>" using r by auto
  have "sim L (base_of s) a (map_of (st_cache s) a) (Some (Entry_new_clean m))"
    unfolding None by (rule sim_load [OF m(1)]) (use load_ok [OF L] m in auto)
  from touch [OF L ok this] show ?thesis by (simp add: m untouched_def map_of_update)
next
  case (Some x)
  then show ?thesis using r ok by (auto simp: untouched_def)
qed

lemma note_cache_cache [simp]: "st_cache (note_cache L a s) = st_cache s"
  by (simp add: note_cache_def)

lemma note_cache_base [simp]: "base_of (note_cache L a s) = base_of s"
  by (simp add: note_cache_def base_of_def)

lemma require_or_from_run:
  assumes "(if map_of (st_cache s) a = None
            then res_map (\<lambda>acc. insert_cache a (Entry_new_clean acc) s) (load_account L s a)
            else Ok s) = Ok s1" "map_of (st_cache s1) a = Some x"
  shows "require_or_from L a rq dflt g s =
    (let acc = (case en_account x of Some acc \<Rightarrow> acc | None \<Rightarrow> dflt);
         acc' = (if rq then refresh_account L (note_cache L a s1) RC_Code a acc else acc);
         put = (\<lambda>z. (note_cache L a s1)\<lparr>st_cache :=
           AList.update a \<lparr>en_account = Some z, en_state = DirtyState\<rparr> (st_cache s1)\<rparr>) in
     case g acc' of Ok z \<Rightarrow> (Ok (), put z)
        | Err e \<Rightarrow> (Err e, put acc') | Panic \<Rightarrow> (Panic, put acc') | Diverge \<Rightarrow> (Diverge, put acc'))"
  by (simp only: require_or_from_def assms res.case option.case Let_def note_cache_cache)

definition or_new :: "view \<Rightarrow> view option \<Rightarrow> view" where
  "or_new d v = (case v of None \<Rightarrow> d | Some w \<Rightarrow> w)"

lemma require_write:
  assumes L: "lru_ok L" and ok: "state_ok L s" and x: "map_of (st_cache s) a = Some x"
    and z: "acct_ok L (base_of s) a z"
      "\<And>acc. en_account x = Some acc \<Longrightarrow> ac_storage_root z = ac_storage_root acc"
  shows "written L a (Some (meaning L (base_of s) a z)) s ((note_cache L a s)\<lparr>st_cache :=
           AList.update a \<lparr>en_account = Some z, en_state = DirtyState\<rparr> (st_cache s)\<rparr>)"
proof -
  let ?y = "\<lparr>en_account = Some z, en_state = DirtyState\<rparr>"
  have xok: "entry_ok L (base_of s) a (Some x)" using state_okD(2) [OF ok, of a] x by simp
  have "written L a (map_option (meaning L (base_of s) a) (en_account ?y)) s
      (s\<lparr>st_checkpoints := note_in_checkpoint a (Some (Entry_clone_dirty L x)) (st_checkpoints s),
          st_cache := AList.update a ?y (st_cache s)\<rparr>)"
    by (rule write_entry [OF L ok x _ _ _ clone_entry [OF L xok]])
      (use z in \<open>auto simp: Entry_is_dirty_def has_root_def\<close>)
  then show ?thesis by (simp add: note_cache_def x)
qed

text \<open>A write through \<open>require_or_from\<close>: the update \<open>g\<close> of the account is the update \<open>h\<close> of the
  view.\<close>

lemma require_or_from_spec:
  assumes L: "lru_ok L" and ok: "state_ok L s"
    and r: "require_or_from L a rq dflt g s = (r, s')"
    and d: "acct_ok L (base_of s) a dflt"
    and g: "\<And>acc x. acct_ok L (base_of s) a acc \<Longrightarrow> g acc = Ok x \<Longrightarrow>
      acct_ok L (base_of s) a x \<and> ac_storage_root x = ac_storage_root acc \<and>
      meaning L (base_of s) a x = h (meaning L (base_of s) a acc)"
    and gE: "\<And>acc e. g acc \<noteq> Err e"
  shows "(r = Ok () \<longrightarrow> (\<exists>v. current L s a = Ok v \<and>
      written L a (Some (h (or_new (meaning L (base_of s) a dflt) v))) s s')) \<and>
    (\<forall>e. r = Err e \<longrightarrow> current L s a = Err e \<and> s' = s)"
proof (cases "if map_of (st_cache s) a = None
            then res_map (\<lambda>acc. insert_cache a (Entry_new_clean acc) s) (load_account L s a)
            else Ok s")
  let ?B = "base_of s"
  case (Ok s1)
  obtain x where x: "map_of (st_cache s1) a = Some x" and u: "untouched L s s1"
    using require_load [OF L ok Ok] by blast
  have B: "base_of s1 = ?B" and ok1: "state_ok L s1" using u by (simp_all add: untouched_def)
  have cur: "current L s a = Ok (map_option (meaning L ?B a) (en_account x))"
    using u x B current_eq [of L s1 a] by (simp add: current_def untouched_def)
  define acc where "acc = (case en_account x of Some acc \<Rightarrow> acc | None \<Rightarrow> dflt)"
  define acc' where "acc' = (if rq then refresh_account L (note_cache L a s1) RC_Code a acc else acc)"
  define put where "put = (\<lambda>z. (note_cache L a s1)\<lparr>st_cache :=
     AList.update a \<lparr>en_account = Some z, en_state = DirtyState\<rparr> (st_cache s1)\<rparr>)"
  have acc: "acct_ok L ?B a acc"
    using state_okD(2) [OF ok1, of a] x B d by (auto simp: acc_def entry_ok_def split: option.splits)
  have acc': "acct_ok L ?B a acc'" "meaning L ?B a acc' = meaning L ?B a acc"
    "ac_storage_root acc' = ac_storage_root acc"
    using acc refresh_spec [of L "note_cache L a s1" a acc] B by (auto simp: acc'_def)
  have res: "(r, s') = (case g acc' of Ok z \<Rightarrow> (Ok (), put z)
      | Err e \<Rightarrow> (Err e, put acc') | Panic \<Rightarrow> (Panic, put acc') | Diverge \<Rightarrow> (Diverge, put acc'))"
    unfolding r [symmetric] require_or_from_run [OF Ok x] Let_def put_def acc'_def acc_def
    by (rule refl)
  have "written L a (Some (h (or_new (meaning L ?B a dflt) (map_option (meaning L ?B a) (en_account x))))) s (put z)"
    if z: "g acc' = Ok z" for z
  proof -
    note G = g [OF acc'(1) z]
    have "written L a (Some (meaning L ?B a z)) s (put z)"
      unfolding put_def using require_write [OF L ok1 x, of z] G acc'(3) u B
      by (auto simp: acc_def intro: untouched_written)
    then show ?thesis using G acc'(2) by (simp add: acc_def or_new_def split: option.splits)
  qed
  then show ?thesis using res cur gE by (cases "g acc'") auto
next
  case (Err e)
  then have "map_of (st_cache s) a = None" "load L (base_of s) a = Err e"
    by (cases "load L (base_of s) a"; auto split: if_splits)+
  then show ?thesis using r Err by (auto simp: require_or_from_def current_eq entry_view_def)
qed (use r in \<open>auto simp: require_or_from_def\<close>)

text \<open>The permissions are no part of the views and stay as they are.\<close>

lemma ensure_cached_creators: "st_creators (snd (ensure_cached L a rq f s)) = st_creators s"
  by (simp add: ensure_cached_def Let_def insert_cache_def split: option.split res.split)

lemma require_or_from_creators: "st_creators (snd (require_or_from L a rq d g s)) = st_creators s"
proof (cases "if map_of (st_cache s) a = None
    then res_map (\<lambda>acc. insert_cache a (Entry_new_clean acc) s) (load_account L s a) else Ok s")
  case (Ok s1)
  then have "st_creators s1 = st_creators s"
    by (cases "load_account L s a") (auto simp: insert_cache_def split: if_splits)
  then show ?thesis
    unfolding require_or_from_def Ok res.case Let_def by (simp add: note_cache_def split: option.split res.split)
qed (simp_all only: require_or_from_def res.case snd_conv)

lemma nonce_creators:
  "st_creators (snd (State_nonce L a s)) = st_creators s" "st_creators (snd (State_inc_nonce L a s)) = st_creators s"
  by (simp_all add: State_nonce_def State_inc_nonce_def require_account_def ensure_cached_creators require_or_from_creators)

section \<open>The writing operations\<close>

definition fresh :: "('d, 'm, 'l) Libs \<Rightarrow> ('d, 'l) State \<Rightarrow> address \<Rightarrow> view" where
  "fresh L s a = meaning L (base_of s) a (Account_new_basic L (st_account_start_nonce s))"

lemma fresh_contract: "meaning L (base_of s) a (Account_new_contract L (st_account_start_nonce s)) = fresh L s a"
  unfolding fresh_def by (rule meaning_cong) (simp_all add: Account_new_contract_def Account_new_basic_def)

lemma State_inc_nonce_spec:
  assumes "lru_ok L" "state_ok L s" "State_inc_nonce L a s = (r, s')"
  shows "(r = Ok () \<longrightarrow> (\<exists>v. current L s a = Ok v \<and>
      written L a (Some ((or_new (fresh L s a) v)\<lparr>vw_nonce := vw_nonce (or_new (fresh L s a) v) + 1\<rparr>)) s s')) \<and>
    (\<forall>e. r = Err e \<longrightarrow> current L s a = Err e \<and> s' = s)"
  unfolding fresh_def
  by (rule require_or_from_spec [OF assms(1,2) assms(3) [unfolded State_inc_nonce_def require_account_def],
        where h = "\<lambda>w. w\<lparr>vw_nonce := vw_nonce w + 1\<rparr>"])
    (use assms(1) in \<open>auto simp: Account_inc_nonce_def plus_chk_eq_Ok acct_ok_updates meaning_def
        code_of_def storage_of_def [abs_def] Account_is_cached_def Account_storage_root_def
        Account_storage_is_clean_def plus_chk_def res_bind_eq_Err split: if_splits cong: option.case_cong\<close>)

lemma set_storage_meaning:
  "meaning L B a (Account_set_storage k v acc) =
     (meaning L B a acc)\<lparr>vw_storage := (vw_storage (meaning L B a acc))(k := Ok v), vw_root := None\<rparr>"
proof -
  have "AList.update k v xs \<noteq> []" for xs :: "(h256 \<times> h256) list" by (cases xs) auto
  then show ?thesis
    by (simp add: meaning_def Account_set_storage_def code_of_def Account_is_cached_def
        Account_storage_root_def Account_storage_is_clean_def storage_of_def map_of_update fun_eq_iff
        cong: option.case_cong)
qed

lemma set_storage_step:
  assumes "lru_ok L" "state_ok L s"
    "require_account L a False (\<lambda>acc. Ok (Account_set_storage k x acc)) s = (r, s')"
  shows "(r = Ok () \<longrightarrow> (\<exists>v. current L s a = Ok v \<and>
      written L a (Some ((or_new (fresh L s a) v)\<lparr>vw_storage := (vw_storage (or_new (fresh L s a) v))(k := Ok x),
        vw_root := None\<rparr>)) s s')) \<and>
    (\<forall>e. r = Err e \<longrightarrow> current L s a = Err e \<and> s' = s)"
  unfolding fresh_def
  by (rule require_or_from_spec [OF assms(1,2) assms(3) [unfolded require_account_def],
        where h = "\<lambda>w. w\<lparr>vw_storage := (vw_storage w)(k := Ok x), vw_root := None\<rparr>"])
    (use assms(1) in \<open>auto simp: acct_ok_updates set_storage_meaning\<close>, simp_all add: Account_set_storage_def)

lemma init_code_meaning:
  assumes "crypt_hash L [] = HASH_EMPTY L"
  shows "meaning L B a (Account_init_code L c acc) =
     (meaning L B a acc)\<lparr>vw_code_hash := crypt_hash L c, vw_code := Some c\<rparr>"
  using assms
  by (auto simp: meaning_def Account_init_code_def code_of_def Account_is_cached_def
      Account_storage_root_def Account_storage_is_clean_def storage_of_def [abs_def]
      cong: option.case_cong)

lemma State_init_code_spec:
  assumes "lru_ok L" "state_ok L s" "State_init_code L a c s = (r, s')" "crypt_hash L [] = HASH_EMPTY L"
  shows "(r = Ok () \<longrightarrow> (\<exists>v. current L s a = Ok v \<and>
      written L a (Some ((or_new (fresh L s a) v)\<lparr>vw_code_hash := crypt_hash L c, vw_code := Some c\<rparr>)) s s')) \<and>
    (\<forall>e. r = Err e \<longrightarrow> current L s a = Err e \<and> s' = s)"
  unfolding fresh_contract [symmetric]
  by (rule require_or_from_spec [OF assms(1,2) assms(3) [unfolded State_init_code_def],
        where h = "\<lambda>w. w\<lparr>vw_code_hash := crypt_hash L c, vw_code := Some c\<rparr>"])
    (use assms(1,4) in \<open>auto simp: acct_ok_updates init_code_meaning\<close>, simp_all add: Account_init_code_def)

lemma plus_chk_zero [simp]: "plus_chk a 0 = Ok a"
  using unsigned_less [of a] by (simp add: plus_chk_def)

text \<open>A new contract at an address that holds no cached account.\<close>

lemma State_new_contract_spec:
  assumes L: "lru_ok L" and ok: "state_ok L s" and r: "State_new_contract L a 0 s = (r, s')"
    and free: "\<And>x. map_of (st_cache s) a = Some x \<Longrightarrow> en_account x = None"
  shows "r = Ok () \<and> written L a (Some (fresh L s a)) s s'"
proof -
  let ?y = "Entry_new_dirty (Some (Account_new_contract L (st_account_start_nonce s)))"
  have d: "Entry_is_dirty ?y" "entry_ok L (base_of s) a (Some ?y)"
    using L by (simp_all add: Entry_new_dirty_def Entry_is_dirty_def)
  have s': "r = Ok ()" "s' = s\<lparr>st_checkpoints := note_in_checkpoint a (map_of (st_cache s) a) (st_checkpoints s),
      st_cache := AList.update a ?y (st_cache s)\<rparr>"
    using r d by (auto simp: State_new_contract_def insert_cache_def)
  have m: "map_option (meaning L (base_of s) a) (en_account ?y) = Some (fresh L s a)"
    by (simp add: Entry_new_dirty_def fresh_contract)
  show ?thesis
  proof (cases "map_of (st_cache s) a")
    case (Some x)
    have "written L a (map_option (meaning L (base_of s) a) (en_account ?y)) s s'"
      unfolding s' Some
      by (rule write_entry [OF L ok Some]) (use d free [OF Some] state_okD(2) [OF ok, of a] Some in
          \<open>auto simp: has_root_def\<close>)
    then show ?thesis using s' m by simp
  next
    case None
    have "state_ok L s' \<and> vstack L s' =
        (vstack L s)(a := entry_view L (base_of s) a (Some ?y) # tl (vstack L s a))"
    proof (rule state_change [OF ok])
      show "\<forall>cp \<in> set (st_checkpoints s'). distinct (map fst cp)"
        using ok distinct_note [of "st_checkpoints s"] by (simp add: state_ok_def s')
      show "column_ok L (base_of s) a (map_of (st_cache s') a) (notes_of s' a) \<and>
          views L (base_of s) a (map_of (st_cache s') a) (notes_of s' a) =
            entry_view L (base_of s) a (Some ?y) # tl (vstack L s a)"
        using write_absent [OF _ d(2,1), of "notes_of s a"] state_okD(1) [OF ok, of a]
        by (simp add: None map_of_update vstack_def s')
    qed (simp_all add: map_of_update s')
    then show ?thesis using s' m by (simp add: written_def)
  qed
qed

section \<open>Sequences of operations\<close>

text \<open>The operations execution performs between checkpoints, where they return. New contracts are
  placed at addresses without a cached account.\<close>

inductive state_op :: "('d, 'm, 'l) Libs \<Rightarrow> ('d, 'l) State \<Rightarrow> ('d, 'l) State \<Rightarrow> bool" for L where
  op_nonce: "State_nonce L a s = (r, s') \<Longrightarrow> state_op L s s'"
| op_exists: "State_exists L a s = (r, s') \<Longrightarrow> state_op L s s'"
| op_exists_and_not_null: "State_exists_and_not_null L a s = (r, s') \<Longrightarrow> state_op L s s'"
| op_code: "State_code L a s = (r, s') \<Longrightarrow> state_op L s s'"
| op_code_hash: "State_code_hash L a s = (r, s') \<Longrightarrow> state_op L s s'"
| op_code_size: "State_code_size L a s = (r, s') \<Longrightarrow> state_op L s s'"
| op_storage_at: "State_storage_at L a k s = (r, s') \<Longrightarrow> returns r \<Longrightarrow> state_op L s s'"
| op_set_storage: "State_set_storage L a k v s = (r, s') \<Longrightarrow> returns r \<Longrightarrow> state_op L s s'"
| op_inc_nonce: "State_inc_nonce L a s = (r, s') \<Longrightarrow> returns r \<Longrightarrow> state_op L s s'"
| op_init_code: "State_init_code L a c s = (r, s') \<Longrightarrow> returns r \<Longrightarrow> state_op L s s'"
| op_new_contract: "State_new_contract L a 0 s = (r, s') \<Longrightarrow>
    (\<And>x. map_of (st_cache s) a = Some x \<Longrightarrow> en_account x = None) \<Longrightarrow> state_op L s s'"

text \<open>Operations and nested checkpoints, each ended by a discard or by a revert.\<close>

inductive balanced :: "('d, 'm, 'l) Libs \<Rightarrow> ('d, 'l) State \<Rightarrow> ('d, 'l) State \<Rightarrow> bool" for L where
  none: "balanced L s s"
| op: "balanced L s s1 \<Longrightarrow> state_op L s1 s2 \<Longrightarrow> balanced L s s2"
| keep: "balanced L s s1 \<Longrightarrow> balanced L (checkpoint s1) s2 \<Longrightarrow> balanced L s (discard_checkpoint s2)"
| undo: "balanced L s s1 \<Longrightarrow> balanced L (checkpoint s1) s2 \<Longrightarrow> balanced L s (revert_to_checkpoint L s2)"

text \<open>What lies under the top of every stack is left alone.\<close>

definition below :: "('d, 'm, 'l) Libs \<Rightarrow> ('d, 'l) State \<Rightarrow> ('d, 'l) State \<Rightarrow> bool" where
  "below L s s' \<longleftrightarrow> state_ok L s' \<and> base_of s' = base_of s \<and>
     length (st_checkpoints s') = length (st_checkpoints s) \<and>
     (\<forall>a. tl (vstack L s' a) = tl (vstack L s a))"

lemma belowI:
  "untouched L s s' \<Longrightarrow> below L s s'" "written L a v s s' \<Longrightarrow> below L s s'" "state_ok L s \<Longrightarrow> below L s s"
  by (auto simp: untouched_def written_def below_def)

lemma below_trans: "below L s s1 \<Longrightarrow> below L s1 s2 \<Longrightarrow> below L s s2"
  by (simp add: below_def)

lemma root_ok_base: "base_of s' = base_of s \<Longrightarrow> root_ok L s' = root_ok L s"
  by (simp add: root_ok_def base_of_def)

lemma returns_cases: "returns r \<Longrightarrow> (\<exists>a. r = Ok a) \<or> (\<exists>e. r = Err e)"
  by (cases r) auto

lemma set_storage_below:
  assumes L: "lru_ok L" and ok: "state_ok L s" and root: "root_ok L s"
    and r: "State_set_storage L a k v s = (r, s')" and ret: "returns r"
  shows "below L s s'"
proof -
  obtain q s1 where q: "State_storage_at L a k s = (q, s1)" by fastforce
  have rq: "returns q" using r ret q by (cases q) (auto simp: State_set_storage_def sm_bind_def)
  have u: "untouched L s s1" using State_storage_at_spec [OF L ok root q rq] by blast
  then have ok1: "state_ok L s1" by (simp add: untouched_def)
  consider "s' = s1" | "require_account L a False (\<lambda>acc. Ok (Account_set_storage k v acc)) s1 = (r, s')"
    using r q rq by (cases q) (auto simp: State_set_storage_def sm_bind_def sm_ret_def split: if_splits)
  then show ?thesis
  proof cases
    case 1
    then show ?thesis using u belowI(1) by blast
  next
    case 2
    then have "below L s1 s'"
      using set_storage_step [OF L ok1 2] returns_cases [OF ret] ok1 by (elim disjE exE) (auto intro: belowI)
    then show ?thesis using belowI(1) [OF u] below_trans by blast
  qed
qed

lemma state_op_below:
  assumes L: "lru_ok L" "crypt_hash L [] = HASH_EMPTY L"
    and s: "state_op L s s'" "state_ok L s" "root_ok L s"
  shows "below L s s'"
  using s
proof cases
  case (op_inc_nonce a r)
  then show ?thesis
    using State_inc_nonce_spec [OF L(1) s(2) op_inc_nonce(1)] returns_cases [OF op_inc_nonce(2)] s(2)
    by (elim disjE exE) (auto intro: belowI)
next
  case (op_init_code a c r)
  then show ?thesis
    using State_init_code_spec [OF L(1) s(2) op_init_code(1) L(2)] returns_cases [OF op_init_code(2)] s(2)
    by (elim disjE exE) (auto intro: belowI)
next
  case (op_set_storage a k v r)
  then show ?thesis using set_storage_below [OF L(1) s(2,3)] by blast
next
  case (op_storage_at a k r)
  show ?thesis using conjunct1 [OF State_storage_at_spec [OF L(1) s(2,3) op_storage_at]] by (rule belowI)
next
  case (op_new_contract a r)
  show ?thesis using conjunct2 [OF State_new_contract_spec [OF L(1) s(2) op_new_contract]] by (rule belowI)
next
  case (op_nonce a r)
  show ?thesis using conjunct1 [OF State_nonce_spec [OF L(1) s(2) op_nonce(1)]] by (rule belowI)
next
  case (op_exists a r)
  show ?thesis using conjunct1 [OF State_exists_spec [OF L(1) s(2) op_exists(1)]] by (rule belowI)
next
  case (op_exists_and_not_null a r)
  show ?thesis using conjunct1 [OF State_exists_and_not_null_spec [OF L(1) s(2) op_exists_and_not_null(1)]] by (rule belowI)
next
  case (op_code a r)
  show ?thesis using conjunct1 [OF State_code_spec [OF L(1) s(2) op_code(1)]] by (rule belowI)
next
  case (op_code_hash a r)
  show ?thesis using conjunct1 [OF State_code_hash_spec [OF L(1) s(2) op_code_hash(1)]] by (rule belowI)
next
  case (op_code_size a r)
  show ?thesis using conjunct1 [OF State_code_size_spec [OF L(1) s(2) op_code_size(1)]] by (rule belowI)
qed

lemma checkpoints_checkpoint [simp]: "st_checkpoints (checkpoint s) = st_checkpoints s @ [[]]"
  by (simp add: checkpoint_def)

lemma base_of_checkpoint [simp]:
  "base_of (checkpoint s) = base_of s" "base_of (discard_checkpoint s) = base_of s"
  "base_of (revert_to_checkpoint L s) = base_of s"
  by (simp_all add: checkpoint_def discard_checkpoint_def revert_to_checkpoint_def base_of_def Let_def)

lemma length_discard [simp]:
  "length (st_checkpoints (discard_checkpoint s)) = length (st_checkpoints s) - 1"
  by (cases "st_checkpoints s" rule: rev_cases)
    (simp_all add: discard_checkpoint_def Let_def)

lemma length_revert [simp]:
  "length (st_checkpoints (revert_to_checkpoint L s)) = length (st_checkpoints s) - 1"
  by (simp add: revert_to_checkpoint_def)

lemma nested_below:
  assumes L: "lru_ok L" and s1: "state_ok L s1" and c: "below L (checkpoint s1) s2"
  shows "below L s1 (discard_checkpoint s2)" "below L s1 (revert_to_checkpoint L s2)"
    "vstack L (revert_to_checkpoint L s2) a = vstack L s1 a"
proof -
  have s2: "state_ok L s2" "base_of s2 = base_of s1"
    and n: "length (st_checkpoints s2) = Suc (length (st_checkpoints s1))"
    and t: "tl (vstack L s2 b) = vstack L s1 b" for b
    using c checkpoint_stack [OF s1] by (simp_all add: below_def)
  have ne: "st_checkpoints s2 \<noteq> []" using n by auto
  show "below L s1 (discard_checkpoint s2)"
    using discard_stack [OF L s2(1) ne] s2 n by (simp add: below_def t)
  show "below L s1 (revert_to_checkpoint L s2)"
    using revert_stack [OF s2(1) ne] s2 n by (simp add: below_def t)
  show "vstack L (revert_to_checkpoint L s2) a = vstack L s1 a"
    using revert_stack [OF s2(1) ne, of a] t by simp
qed

lemma checkpoint_ready:
  assumes "state_ok L s" "root_ok L s"
  shows "state_ok L (checkpoint s)" "root_ok L (checkpoint s)"
  using checkpoint_stack [OF assms(1)] assms(2) root_ok_base [of "checkpoint s" s L] by simp_all

lemma below_ready:
  assumes "below L s s1" "root_ok L s"
  shows "state_ok L s1" "root_ok L s1"
  using assms root_ok_base [of s1 s L] by (simp_all add: below_def)

lemma balanced_below:
  assumes L: "lru_ok L" "crypt_hash L [] = HASH_EMPTY L"
    and b: "balanced L s s'" "state_ok L s" "root_ok L s"
  shows "below L s s'"
  using b
proof (induction rule: balanced.induct)
  case (none s)
  then show ?case by (simp add: belowI)
next
  case (op s s1 s2)
  note b = op.IH [OF op.prems]
  from b state_op_below [OF L op.hyps(2) below_ready [OF b op.prems(2)]] show ?case by (rule below_trans)
next
  case (keep s s1 s2)
  note b = keep.IH(1) [OF keep.prems]
  note r = below_ready [OF b keep.prems(2)]
  from b nested_below(1) [OF L(1) r(1) keep.IH(2) [OF checkpoint_ready [OF r]]] show ?case
    by (rule below_trans)
next
  case (undo s s1 s2)
  note b = undo.IH(1) [OF undo.prems]
  note r = below_ready [OF b undo.prems(2)]
  from b nested_below(2) [OF L(1) r(1) undo.IH(2) [OF checkpoint_ready [OF r]]] show ?case
    by (rule below_trans)
qed

text \<open>The storage of the views after a write.\<close>

lemma written_current:
  "written L a v s s' \<Longrightarrow> current L s' b = (if b = a then Ok v else current L s b)"
  by (simp add: written_def current_def)

lemma untouched_current: "untouched L s s' \<Longrightarrow> current L s' = current L s"
  by (simp add: untouched_def current_def fun_eq_iff)

lemma untouched_ready: "untouched L s s' \<Longrightarrow> root_ok L s \<Longrightarrow> state_ok L s' \<and> root_ok L s'"
  by (simp add: untouched_def root_ok_base [of s' s])

lemma storage_at_start_nonce: "st_account_start_nonce (snd (State_storage_at L a k s)) = st_account_start_nonce s"
  by (simp add: State_storage_at_def Let_def insert_cache_def split: option.splits prod.splits res.splits)

lemma set_storage_written:
  assumes L: "lru_ok L" and ok: "state_ok L s" and root: "root_ok L s" and r: "State_set_storage L a k x s = (Ok (), s')"
  shows "\<exists>v. current L s a = Ok v \<and>
    (untouched L s s' \<and> fst (State_storage_at L a k s) = Ok x \<or>
     written L a (Some ((or_new (fresh L s a) v)\<lparr>vw_storage := (vw_storage (or_new (fresh L s a) v))(k := Ok x),
        vw_root := None\<rparr>)) s s')"
proof -
  obtain q s1 where q: "State_storage_at L a k s = (q, s1)" by fastforce
  have rq: "returns q" using r q by (cases q) (auto simp: State_set_storage_def sm_bind_def)
  have u: "untouched L s s1" and v: "q = res_bind (current L s a) (\<lambda>v. case v of None \<Rightarrow> Ok 0 | Some w \<Rightarrow> vw_storage w k)"
    using State_storage_at_spec [OF L ok root q rq] by blast+
  then have ok1: "state_ok L s1" by (simp add: untouched_def)
  have "st_account_start_nonce s1 = st_account_start_nonce s" using storage_at_start_nonce [of L a k s] q by simp
  then have f: "fresh L s1 a = fresh L s a" using u by (simp add: fresh_def untouched_def)
  consider "s' = s1" "q = Ok x" | "require_account L a False (\<lambda>acc. Ok (Account_set_storage k x acc)) s1 = (Ok (), s')"
    using r q rq by (cases q) (auto simp: State_set_storage_def sm_bind_def sm_ret_def split: if_splits)
  then show ?thesis
  proof cases
    case 1
    then show ?thesis using u q v by (cases "current L s a") auto
  next
    case 2
    then show ?thesis using set_storage_step [OF L ok1 2] untouched_current [OF u] untouched_written [OF u] f by auto
  qed
qed

lemma written_ready: "written L a v s s' \<Longrightarrow> root_ok L s \<Longrightarrow> state_ok L s' \<and> root_ok L s'"
  by (simp add: written_def root_ok_base [of s' s])

text \<open>Reverting undoes everything since the checkpoint, at every level of the stack.\<close>

lemma revert_restores:
  assumes L: "lru_ok L" "crypt_hash L [] = HASH_EMPTY L"
    and s: "state_ok L s" "root_ok L s" and b: "balanced L (checkpoint s) s'"
  shows "vstack L (revert_to_checkpoint L s') a = vstack L s a"
  by (rule nested_below(3) [OF L(1) s(1) balanced_below [OF L b checkpoint_ready [OF s]]])

text \<open>An account that is killed under a checkpoint is not brought back by the revert.\<close>

lemma kill_survives_revert:
  assumes "map_of (st_cache s) a = Some x"
  shows "current L (revert_to_checkpoint L (kill_account a (checkpoint s))) a = Ok None"
  using assms
  by (simp add: current_eq kill_account_def insert_cache_def Entry_new_dirty_def Entry_is_dirty_def
      revert_to_checkpoint_def checkpoint_def note_in_checkpoint_def revert_entry_def map_of_update
      Entry_overwrite_with_def split: option.split)

end
