(* ===== verification/Trace.thy ===== *)
theory Trace
  imports EVM_Ext
begin

text \<open>
  Tracing (\<^verbatim>\<open>cita-executor/core/src/trace\<close>): the data of a trace, the traits \<open>Tracer\<close> and
  \<open>VMTracer\<close> as records of operations, and their implementations, the tracer that records every
  call and create and the one that does nothing. The lemmas show that the addresses of a list of
  traces enumerate its forest, and that both tracers never panic when they are used as the
  executive uses them: this is the locale \<open>tracer_contract\<close>.
\<close>

section \<open>Trace data\<close>

record CallResult =
  cr_gas_used :: u256
  cr_output :: bytes

record CreateResult =
  cre_gas_used :: u256
  cre_code :: bytes
  cre_address :: address

record TraceCall =
  tc_from :: address
  tc_to :: address
  tc_value :: u256
  tc_gas :: u256
  tc_input :: bytes
  tc_call_type :: CallType

definition Call_from :: "ActionParams \<Rightarrow> TraceCall" where
  "Call_from p = \<lparr>
     tc_from = ap_sender p, tc_to = ap_address p, tc_value = action_value (ap_value p),
     tc_gas = ap_gas p, tc_input = (case ap_data p of Some d \<Rightarrow> d | None \<Rightarrow> []),
     tc_call_type = ap_call_type p\<rparr>"

record TraceCreate =
  tcr_from :: address
  tcr_value :: u256
  tcr_gas :: u256
  tcr_init :: bytes

definition Create_from :: "ActionParams \<Rightarrow> TraceCreate" where
  "Create_from p = \<lparr>
     tcr_from = ap_sender p, tcr_value = action_value (ap_value p), tcr_gas = ap_gas p,
     tcr_init = (case ap_code p of Some c \<Rightarrow> c | None \<Rightarrow> [])\<rparr>"

record TraceSuicide =
  ts_address :: address
  ts_refund_address :: address
  ts_balance :: u256

datatype TraceAction = ActCall TraceCall | ActCreate TraceCreate | ActSuicide TraceSuicide

datatype TraceError =
  TE_OutOfGas | TE_BadJumpDestination | TE_BadInstruction | TE_StackUnderflow | TE_OutOfStack | TE_Internal

fun TraceError_from :: "evm_error \<Rightarrow> TraceError" where
  "TraceError_from OutOfGas = TE_OutOfGas"
| "TraceError_from (BadJumpDestination d) = TE_BadJumpDestination"
| "TraceError_from (BadInstruction i) = TE_BadInstruction"
| "TraceError_from (StackUnderflow i w n) = TE_StackUnderflow"
| "TraceError_from (OutOfStack i w n) = TE_OutOfStack"
| "TraceError_from (Internal m) = TE_Internal"

text \<open>The byte an error is encoded as, and its decoder.\<close>

primrec TraceError_rlp_append :: "TraceError \<Rightarrow> u8" where
  "TraceError_rlp_append TE_OutOfGas = 0"
| "TraceError_rlp_append TE_BadJumpDestination = 1"
| "TraceError_rlp_append TE_BadInstruction = 2"
| "TraceError_rlp_append TE_StackUnderflow = 3"
| "TraceError_rlp_append TE_OutOfStack = 4"
| "TraceError_rlp_append TE_Internal = 5"

definition TraceError_decode :: "u8 \<Rightarrow> (string, TraceError) res" where
  "TraceError_decode value =
     (if value = 0 then Ok TE_OutOfGas
      else if value = 1 then Ok TE_BadJumpDestination
      else if value = 2 then Ok TE_BadInstruction
      else if value = 3 then Ok TE_StackUnderflow
      else if value = 4 then Ok TE_OutOfStack
      else if value = 5 then Ok TE_Internal
      else Err ''Invalid error type'')"

datatype TraceRes =
  ResCall CallResult | ResCreate CreateResult | ResFailedCall TraceError | ResFailedCreate TraceError
| ResNone

definition Res_succeeded :: "TraceRes \<Rightarrow> bool" where
  "Res_succeeded r = (case r of ResCall _ \<Rightarrow> True | ResCreate _ \<Rightarrow> True | _ \<Rightarrow> False)"

record FlatTrace =
  ft_action :: TraceAction
  ft_result :: TraceRes
  ft_subtraces :: nat
  ft_trace_address :: "nat list"

section \<open>The trait\<close>

record 't Tracer =
  tr_prepare_trace_call :: "'t \<Rightarrow> ActionParams \<Rightarrow> TraceCall option"
  tr_prepare_trace_create :: "'t \<Rightarrow> ActionParams \<Rightarrow> TraceCreate option"
  tr_prepare_trace_output :: "'t \<Rightarrow> bytes option"
  tr_trace_call :: "TraceCall option \<Rightarrow> u256 \<Rightarrow> bytes option \<Rightarrow> FlatTrace list \<Rightarrow> ('t, evm_error, unit) sm"
  tr_trace_create :: "TraceCreate option \<Rightarrow> u256 \<Rightarrow> bytes option \<Rightarrow> address \<Rightarrow> FlatTrace list \<Rightarrow>
                      ('t, evm_error, unit) sm"
  tr_trace_failed_call :: "TraceCall option \<Rightarrow> FlatTrace list \<Rightarrow> TraceError \<Rightarrow> ('t, evm_error, unit) sm"
  tr_trace_failed_create :: "TraceCreate option \<Rightarrow> FlatTrace list \<Rightarrow> TraceError \<Rightarrow> ('t, evm_error, unit) sm"
  tr_trace_suicide :: "address \<Rightarrow> u256 \<Rightarrow> address \<Rightarrow> 't \<Rightarrow> 't"
  tr_subtracer :: "'t \<Rightarrow> 't"
  tr_traces :: "'t \<Rightarrow> FlatTrace list"

section \<open>The executive tracer\<close>

record ExecutiveTracer =
  et_traces :: "FlatTrace list"

definition ExecutiveTracer_default :: ExecutiveTracer where
  "ExecutiveTracer_default = \<lparr>et_traces = []\<rparr>"

definition top_level_subtraces :: "FlatTrace list \<Rightarrow> nat" where
  "top_level_subtraces traces = length (filter (\<lambda>t. ft_trace_address t = []) traces)"

text \<open>The loop of \<open>prefix_subtrace_addresses\<close>, with its two local variables.\<close>

fun prefix_subtrace_loop :: "nat \<Rightarrow> bool \<Rightarrow> FlatTrace list \<Rightarrow> FlatTrace list" where
  "prefix_subtrace_loop current_subtrace_index first [] = []"
| "prefix_subtrace_loop current_subtrace_index first (t # rest) =
     (let (index, first') =
        (if first then (current_subtrace_index, False)
         else if ft_trace_address t = [] then (current_subtrace_index + 1, first)
         else (current_subtrace_index, first)) in
      t\<lparr>ft_trace_address := index # ft_trace_address t\<rparr> # prefix_subtrace_loop index first' rest)"

definition prefix_subtrace_addresses :: "FlatTrace list \<Rightarrow> FlatTrace list" where
  "prefix_subtrace_addresses traces = prefix_subtrace_loop 0 True traces"

text \<open>\<open>self.traces.push(trace); self.traces.extend(prefix_subtrace_addresses(subs))\<close>.\<close>

definition et_push :: "FlatTrace \<Rightarrow> FlatTrace list \<Rightarrow> ExecutiveTracer \<Rightarrow> ExecutiveTracer" where
  "et_push trace subs t = t\<lparr>et_traces := et_traces t @ [trace] @ prefix_subtrace_addresses subs\<rparr>"

definition et_trace_call ::
  "TraceCall option \<Rightarrow> u256 \<Rightarrow> bytes option \<Rightarrow> FlatTrace list \<Rightarrow> (ExecutiveTracer, evm_error, unit) sm" where
  "et_trace_call call gas_used output subs =
     sm_bind (sm_lift (expect call)) (\<lambda>c.
     sm_bind (sm_lift (expect output)) (\<lambda>out.
     sm_modify (et_push \<lparr>ft_action = ActCall c,
       ft_result = ResCall \<lparr>cr_gas_used = gas_used, cr_output = out\<rparr>,
       ft_subtraces = top_level_subtraces subs, ft_trace_address = []\<rparr> subs)))"

definition et_trace_create ::
  "TraceCreate option \<Rightarrow> u256 \<Rightarrow> bytes option \<Rightarrow> address \<Rightarrow> FlatTrace list \<Rightarrow>
   (ExecutiveTracer, evm_error, unit) sm" where
  "et_trace_create create gas_used code address subs =
     sm_bind (sm_lift (expect create)) (\<lambda>c.
     sm_bind (sm_lift (expect code)) (\<lambda>cd.
     sm_modify (et_push \<lparr>ft_action = ActCreate c,
       ft_result = ResCreate \<lparr>cre_gas_used = gas_used, cre_code = cd, cre_address = address\<rparr>,
       ft_subtraces = top_level_subtraces subs, ft_trace_address = []\<rparr> subs)))"

definition et_trace_failed_call ::
  "TraceCall option \<Rightarrow> FlatTrace list \<Rightarrow> TraceError \<Rightarrow> (ExecutiveTracer, evm_error, unit) sm" where
  "et_trace_failed_call call subs error =
     sm_bind (sm_lift (expect call)) (\<lambda>c.
     sm_modify (et_push \<lparr>ft_action = ActCall c, ft_result = ResFailedCall error,
       ft_subtraces = top_level_subtraces subs, ft_trace_address = []\<rparr> subs))"

definition et_trace_failed_create ::
  "TraceCreate option \<Rightarrow> FlatTrace list \<Rightarrow> TraceError \<Rightarrow> (ExecutiveTracer, evm_error, unit) sm" where
  "et_trace_failed_create create subs error =
     sm_bind (sm_lift (expect create)) (\<lambda>c.
     sm_modify (et_push \<lparr>ft_action = ActCreate c, ft_result = ResFailedCreate error,
       ft_subtraces = top_level_subtraces subs, ft_trace_address = []\<rparr> subs))"

definition et_trace_suicide :: "address \<Rightarrow> u256 \<Rightarrow> address \<Rightarrow> ExecutiveTracer \<Rightarrow> ExecutiveTracer" where
  "et_trace_suicide address balance refund_address t =
     t\<lparr>et_traces := et_traces t @ [\<lparr>
        ft_action = ActSuicide \<lparr>ts_address = address, ts_refund_address = refund_address,
                                ts_balance = balance\<rparr>,
        ft_result = ResNone, ft_subtraces = 0, ft_trace_address = []\<rparr>]\<rparr>"

definition executive_tracer :: "ExecutiveTracer Tracer" where
  "executive_tracer = \<lparr>
     tr_prepare_trace_call = (\<lambda>_ params. Some (Call_from params)),
     tr_prepare_trace_create = (\<lambda>_ params. Some (Create_from params)),
     tr_prepare_trace_output = (\<lambda>_. Some []),
     tr_trace_call = et_trace_call,
     tr_trace_create = et_trace_create,
     tr_trace_failed_call = et_trace_failed_call,
     tr_trace_failed_create = et_trace_failed_create,
     tr_trace_suicide = et_trace_suicide,
     tr_subtracer = (\<lambda>_. ExecutiveTracer_default),
     tr_traces = et_traces\<rparr>"

section \<open>The tracer that does nothing\<close>

definition noop_trace_call ::
  "TraceCall option \<Rightarrow> u256 \<Rightarrow> bytes option \<Rightarrow> FlatTrace list \<Rightarrow> (unit, evm_error, unit) sm" where
  "noop_trace_call call gas_used output subs =
     sm_bind (sm_lift (rust_assert (call = None))) (\<lambda>_. sm_lift (rust_assert (output = None)))"

definition noop_trace_create ::
  "TraceCreate option \<Rightarrow> u256 \<Rightarrow> bytes option \<Rightarrow> address \<Rightarrow> FlatTrace list \<Rightarrow> (unit, evm_error, unit) sm" where
  "noop_trace_create create gas_used code address subs =
     sm_bind (sm_lift (rust_assert (create = None))) (\<lambda>_. sm_lift (rust_assert (code = None)))"

definition noop_tracer :: "unit Tracer" where
  "noop_tracer = \<lparr>
     tr_prepare_trace_call = (\<lambda>_ _. None),
     tr_prepare_trace_create = (\<lambda>_ _. None),
     tr_prepare_trace_output = (\<lambda>_. None),
     tr_trace_call = noop_trace_call,
     tr_trace_create = noop_trace_create,
     tr_trace_failed_call = (\<lambda>call _ _. sm_lift (rust_assert (call = None))),
     tr_trace_failed_create = (\<lambda>create _ _. sm_lift (rust_assert (create = None))),
     tr_trace_suicide = (\<lambda>_ _ _ t. t),
     tr_subtracer = (\<lambda>_. ()),
     tr_traces = (\<lambda>_. [])\<rparr>"

section \<open>VM traces\<close>

record MemoryDiff =
  md_offset :: nat
  md_data :: bytes

record StorageDiff =
  sd_location :: u256
  sd_value :: u256

record VMExecutedOperation =
  ve_gas_used :: u256
  ve_stack_push :: "u256 list"
  ve_mem_diff :: "MemoryDiff option"
  ve_store_diff :: "StorageDiff option"

record VMOperation =
  vo_pc :: nat
  vo_instruction :: u8
  vo_gas_cost :: u256
  vo_executed :: "VMExecutedOperation option"

datatype VMTrace =
  VMTrace (vt_parent_step: nat) (vt_code: bytes) (vt_operations: "VMOperation list") (vt_subs: "VMTrace list")

definition ExecutiveVMTracer_toplevel :: VMTrace where
  "ExecutiveVMTracer_toplevel =
     VMTrace 0 [] [\<lparr>vo_pc = 0, vo_instruction = 0, vo_gas_cost = 0, vo_executed = None\<rparr>] []"

definition evt_trace_prepare_execute :: "nat \<Rightarrow> u8 \<Rightarrow> u256 \<Rightarrow> VMTrace \<Rightarrow> bool \<times> VMTrace" where
  "evt_trace_prepare_execute pc instruction gas_cost t =
     (True, VMTrace (vt_parent_step t) (vt_code t)
        (vt_operations t @ [\<lparr>vo_pc = pc, vo_instruction = instruction, vo_gas_cost = gas_cost,
                             vo_executed = None\<rparr>]) (vt_subs t))"

definition evt_trace_executed ::
  "u256 \<Rightarrow> u256 list \<Rightarrow> (nat \<times> bytes) option \<Rightarrow> (u256 \<times> u256) option \<Rightarrow> (VMTrace, evm_error, unit) sm" where
  "evt_trace_executed gas_used stack_push mem_diff store_diff t =
     (if vt_operations t = [] then (Panic, t)
      else let ex = \<lparr>ve_gas_used = gas_used, ve_stack_push = stack_push,
                 ve_mem_diff = map_option (\<lambda>(s, r). \<lparr>md_offset = s, md_data = r\<rparr>) mem_diff,
                 ve_store_diff = map_option (\<lambda>(l, v). \<lparr>sd_location = l, sd_value = v\<rparr>) store_diff\<rparr> in
        (Ok (), VMTrace (vt_parent_step t) (vt_code t)
           (butlast (vt_operations t) @ [(last (vt_operations t))\<lparr>vo_executed := Some ex\<rparr>]) (vt_subs t)))"

text \<open>\<open>self.data.operations.len() - 1\<close> underflows on a tracer that has recorded nothing.\<close>

definition evt_prepare_subtrace :: "VMTrace \<Rightarrow> bytes \<Rightarrow> (evm_error, VMTrace) res" where
  "evt_prepare_subtrace t code =
     (if vt_operations t = [] then Panic
      else Ok (VMTrace (length (vt_operations t) - 1) code [] []))"

definition evt_done_subtrace :: "VMTrace \<Rightarrow> VMTrace \<Rightarrow> VMTrace" where
  "evt_done_subtrace sub t =
     VMTrace (vt_parent_step t) (vt_code t) (vt_operations t) (vt_subs t @ [sub])"

definition evt_drain :: "VMTrace \<Rightarrow> VMTrace option" where
  "evt_drain t = (if vt_subs t = [] then None else Some (last (vt_subs t)))"

text \<open>The trait \<open>VMTracer\<close> and its two implementations.\<close>

record 'v VMTracer =
  vm_trace_prepare_execute :: "nat \<Rightarrow> u8 \<Rightarrow> u256 \<Rightarrow> 'v \<Rightarrow> bool \<times> 'v"
  vm_trace_executed :: "u256 \<Rightarrow> u256 list \<Rightarrow> (nat \<times> bytes) option \<Rightarrow> (u256 \<times> u256) option \<Rightarrow>
                        ('v, evm_error, unit) sm"
  vm_prepare_subtrace :: "'v \<Rightarrow> bytes \<Rightarrow> 'v evm_result"
  vm_done_subtrace :: "'v \<Rightarrow> 'v \<Rightarrow> 'v"
  vm_drain :: "'v \<Rightarrow> VMTrace option"

definition executive_vm_tracer :: "VMTrace VMTracer" where
  "executive_vm_tracer = \<lparr>
     vm_trace_prepare_execute = evt_trace_prepare_execute,
     vm_trace_executed = evt_trace_executed,
     vm_prepare_subtrace = evt_prepare_subtrace,
     vm_done_subtrace = evt_done_subtrace,
     vm_drain = evt_drain\<rparr>"

definition noop_vm_tracer :: "unit VMTracer" where
  "noop_vm_tracer = \<lparr>
     vm_trace_prepare_execute = (\<lambda>_ _ _ t. (False, t)),
     vm_trace_executed = (\<lambda>_ _ _ _. sm_ret ()),
     vm_prepare_subtrace = (\<lambda>_ _. Ok ()),
     vm_done_subtrace = (\<lambda>_ t. t),
     vm_drain = (\<lambda>_. None)\<rparr>"

section \<open>Errors round trip\<close>

lemma TraceError_roundtrip: "TraceError_decode (TraceError_rlp_append e) = Ok e"
  by (cases e) (simp_all add: TraceError_decode_def)

lemma TraceError_decode_append: "TraceError_decode v = Ok e \<Longrightarrow> TraceError_rlp_append e = v"
  by (auto simp: TraceError_decode_def split: if_splits)

section \<open>Trace addresses enumerate a forest\<close>

text \<open>The calls of an execution form a forest. A call has the empty address, and its subtree the
  addresses of its children's subtrees behind the index of the child.\<close>

datatype calltree = CallNode "calltree list"

fun shape :: "calltree \<Rightarrow> (nat list \<times> nat) list"
  and shapes :: "nat \<Rightarrow> calltree list \<Rightarrow> (nat list \<times> nat) list" where
  "shape (CallNode children) = ([], length children) # shapes 0 children"
| "shapes i [] = []"
| "shapes i (c # cs) = map (\<lambda>(a, n). (i # a, n)) (shape c) @ shapes (Suc i) cs"

definition located :: "FlatTrace \<Rightarrow> nat list \<times> nat" where
  "located t = (ft_trace_address t, ft_subtraces t)"

definition is_forest :: "calltree list \<Rightarrow> FlatTrace list \<Rightarrow> bool" where
  "is_forest F ts \<longleftrightarrow> map located ts = concat (map shape F)"

lemma shapes_address: "x \<in> set (shapes i cs) \<Longrightarrow> fst x \<noteq> []"
  by (induction cs arbitrary: i) (auto split: prod.splits)

lemma prefix_tail:
  assumes "\<forall>t \<in> set ts. ft_trace_address t \<noteq> []"
  shows "map located (prefix_subtrace_loop i False (ts @ rest)) =
    map (\<lambda>(a, n). (i # a, n)) (map located ts) @ map located (prefix_subtrace_loop i False rest)"
  using assms by (induction ts) (auto simp: located_def)

lemma prefix_node:
  assumes "map located ts = shape c"
  shows "map located (prefix_subtrace_loop i first (ts @ rest)) =
    map (\<lambda>(a, n). ((if first then i else Suc i) # a, n)) (shape c) @
    map located (prefix_subtrace_loop (if first then i else Suc i) False rest)"
proof -
  obtain cs where c: "c = CallNode cs" by (cases c)
  then obtain t ts' where ts: "ts = t # ts'" "located t = ([], length cs)" "map located ts' = shapes 0 cs"
    using assms by auto
  have "\<forall>u \<in> set ts'. ft_trace_address u \<noteq> []"
  proof
    fix u assume "u \<in> set ts'"
    then have "located u \<in> set (shapes 0 cs)" unfolding ts(3) [symmetric] by simp
    then show "ft_trace_address u \<noteq> []" using shapes_address by (fastforce simp: located_def)
  qed
  from prefix_tail [OF this, where rest = rest] show ?thesis using ts
    by (auto simp: c located_def Let_def)
qed

lemma prefix_forest:
  assumes "is_forest F ts"
  shows "map located (prefix_subtrace_loop i first ts) = shapes (if first then i else Suc i) F"
  using assms
proof (induction F arbitrary: ts i first)
  case (Cons c F)
  then have "map located ts = shape c @ concat (map shape F)" by (simp add: is_forest_def)
  then obtain us vs where ts: "ts = us @ vs" "map located us = shape c" "map located vs = concat (map shape F)"
    by (auto simp: map_eq_append_conv)
  have "map located (prefix_subtrace_loop (if first then i else Suc i) False vs) =
      shapes (Suc (if first then i else Suc i)) F"
    using Cons.IH [of vs _ False] ts(3) by (simp add: is_forest_def)
  then show ?case using prefix_node [OF ts(2), of i first vs] ts(1) by simp
qed (simp add: is_forest_def)

lemma prefix_subtrace_addresses_forest:
  "is_forest F ts \<Longrightarrow> map located (prefix_subtrace_addresses ts) = shapes 0 F"
  by (simp add: prefix_subtrace_addresses_def prefix_forest)

lemma top_level_forest:
  assumes "is_forest F ts"
  shows "top_level_subtraces ts = length F"
proof -
  have "filter (\<lambda>x. fst x = []) (shapes i cs) = []" for i cs
    using shapes_address by (force simp: filter_empty_conv)
  then have "filter (\<lambda>x. fst x = []) (shape c) = [([], case c of CallNode cs \<Rightarrow> length cs)]" for c
    by (cases c) simp
  then have "length (filter (\<lambda>x. fst x = []) (concat (map shape F))) = length F" by (induction F) simp_all
  moreover have "top_level_subtraces ts = length (filter (\<lambda>x. fst x = []) (map located ts))"
    by (simp add: top_level_subtraces_def filter_map o_def located_def)
  ultimately show ?thesis using assms by (simp only: is_forest_def)
qed

text \<open>A trace with its sub traces is one more tree.\<close>

lemma et_push_forest:
  assumes "is_forest F (et_traces t)" "is_forest G subs"
    "ft_trace_address x = []" "ft_subtraces x = top_level_subtraces subs"
  shows "is_forest (F @ [CallNode G]) (et_traces (et_push x subs t))"
  using assms prefix_subtrace_addresses_forest [OF assms(2)] top_level_forest [OF assms(2)]
  by (simp add: is_forest_def et_push_def located_def)

section \<open>The contract of a tracer\<close>

text \<open>The executive passes to a tracer what that tracer prepared; only the bytes of a prepared output
  may have been replaced.\<close>

locale tracer_contract =
  fixes T :: "'t Tracer"
  assumes call: "(out = None) = (tr_prepare_trace_output T t0 = None) \<Longrightarrow>
      \<exists>t'. tr_trace_call T (tr_prepare_trace_call T t1 p) g out subs t = (Ok (), t')"
    and create: "(out = None) = (tr_prepare_trace_output T t0 = None) \<Longrightarrow>
      \<exists>t'. tr_trace_create T (tr_prepare_trace_create T t1 p) g out a subs t = (Ok (), t')"
    and failed_call: "\<exists>t'. tr_trace_failed_call T (tr_prepare_trace_call T t1 p) subs err t = (Ok (), t')"
    and failed_create: "\<exists>t'. tr_trace_failed_create T (tr_prepare_trace_create T t1 p) subs err t = (Ok (), t')"

interpretation executive: tracer_contract executive_tracer
  by unfold_locales
    (auto simp: executive_tracer_def et_trace_call_def et_trace_create_def et_trace_failed_call_def
      et_trace_failed_create_def sm_run)

interpretation noop: tracer_contract noop_tracer
  by unfold_locales (auto simp: noop_tracer_def noop_trace_call_def noop_trace_create_def sm_run)

end
