(* ===== verification/Rlp.thy ===== *)
theory Rlp
  imports Cita_Prelude
begin

text \<open>
  The interface of the RLP library the encoders and decoders of the repository are written against.
  The library is not part of the sources: its items are a type parameter and its operations a
  record, \<open>rlp_ok\<close> states what its documentation promises of them. The locale \<open>codec\<close> is the
  contract of an encoder with its decoder; every pair of \<open>rlp_append\<close> and \<open>decode\<close> in the
  development is an interpretation of it.
\<close>

section \<open>The library\<close>

text \<open>\<open>rl_list\<close> is \<open>begin_list(n)\<close> followed by the \<open>n\<close> items, \<open>rl_at\<close> is \<open>UntrustedRlp::at\<close>, \<open>rl_items\<close> the
  iterator over the items, and the \<open>rl_\<close> and \<open>un_\<close> operations are the encoders and decoders of the
  primitive types. An option is an item of its own.\<close>

type_synonym 'a decoded = "(string, 'a) res"

record 'r Rlp =
  rl_list :: "'r list \<Rightarrow> 'r"
  rl_at :: "'r \<Rightarrow> nat \<Rightarrow> 'r decoded"
  rl_items :: "'r \<Rightarrow> 'r list decoded"
  rl_item_count :: "'r \<Rightarrow> nat decoded"
  rl_is_empty :: "'r \<Rightarrow> bool"
  rl_u8 :: "u8 \<Rightarrow> 'r"
  un_u8 :: "'r \<Rightarrow> u8 decoded"
  rl_u32 :: "u32 \<Rightarrow> 'r"
  un_u32 :: "'r \<Rightarrow> u32 decoded"
  rl_u64 :: "u64 \<Rightarrow> 'r"
  un_u64 :: "'r \<Rightarrow> u64 decoded"
  rl_u256 :: "u256 \<Rightarrow> 'r"
  un_u256 :: "'r \<Rightarrow> u256 decoded"
  rl_h256 :: "h256 \<Rightarrow> 'r"
  un_h256 :: "'r \<Rightarrow> h256 decoded"
  rl_h512 :: "u512 \<Rightarrow> 'r"
  un_h512 :: "'r \<Rightarrow> u512 decoded"
  rl_h2048 :: "h2048 \<Rightarrow> 'r"
  un_h2048 :: "'r \<Rightarrow> h2048 decoded"
  rl_address :: "address \<Rightarrow> 'r"
  un_address :: "'r \<Rightarrow> address decoded"
  rl_bytes :: "bytes \<Rightarrow> 'r"
  un_bytes :: "'r \<Rightarrow> bytes decoded"
  rl_string :: "string \<Rightarrow> 'r"
  un_string :: "'r \<Rightarrow> string decoded"
  rl_option :: "'r option \<Rightarrow> 'r"
  un_option :: "'r \<Rightarrow> 'r option decoded"

fun res_mapM :: "('a \<Rightarrow> ('e, 'b) res) \<Rightarrow> 'a list \<Rightarrow> ('e, 'b list) res" where
  "res_mapM f [] = Ok []"
| "res_mapM f (x # xs) = res_bind (f x) (\<lambda>y. res_bind (res_mapM f xs) (\<lambda>ys. Ok (y # ys)))"

text \<open>\<open>val_at\<close>, \<open>as_list\<close>, \<open>list_at\<close> and the codec of \<open>Option\<close> apply the codec of the element.\<close>

definition val_at :: "'r Rlp \<Rightarrow> ('r \<Rightarrow> 'a decoded) \<Rightarrow> 'r \<Rightarrow> nat \<Rightarrow> 'a decoded" where
  "val_at R dec r i = res_bind (rl_at R r i) dec"

definition as_list :: "'r Rlp \<Rightarrow> ('r \<Rightarrow> 'a decoded) \<Rightarrow> 'r \<Rightarrow> 'a list decoded" where
  "as_list R dec r = res_bind (rl_items R r) (res_mapM dec)"

definition append_list :: "'r Rlp \<Rightarrow> ('a \<Rightarrow> 'r) \<Rightarrow> 'a list \<Rightarrow> 'r" where
  "append_list R enc xs = rl_list R (map enc xs)"

definition append_option :: "'r Rlp \<Rightarrow> ('a \<Rightarrow> 'r) \<Rightarrow> 'a option \<Rightarrow> 'r" where
  "append_option R enc x = rl_option R (map_option enc x)"

definition as_option :: "'r Rlp \<Rightarrow> ('r \<Rightarrow> 'a decoded) \<Rightarrow> 'r \<Rightarrow> 'a option decoded" where
  "as_option R dec r = res_bind (un_option R r) (\<lambda>x. case x of None \<Rightarrow> Ok None | Some y \<Rightarrow> res_map Some (dec y))"

text \<open>The behaviour relied on: a decoder returns what its encoder was given, a list has its items and
  their number, the empty string is empty and an address is not, and an integer is encoded without
  regard to its width.\<close>

definition rlp_ok :: "'r Rlp \<Rightarrow> bool" where
  "rlp_ok R \<longleftrightarrow>
     (\<forall>xs i. i < length xs \<longrightarrow> rl_at R (rl_list R xs) i = Ok (xs ! i)) \<and>
     (\<forall>xs. rl_items R (rl_list R xs) = Ok xs) \<and> (\<forall>xs. rl_item_count R (rl_list R xs) = Ok (length xs)) \<and>
     (\<forall>v. un_u8 R (rl_u8 R v) = Ok v) \<and> (\<forall>v. un_u32 R (rl_u32 R v) = Ok v) \<and> (\<forall>v. un_u64 R (rl_u64 R v) = Ok v) \<and>
     (\<forall>v. un_u256 R (rl_u256 R v) = Ok v) \<and> (\<forall>v. un_h256 R (rl_h256 R v) = Ok v) \<and>
     (\<forall>v. un_h512 R (rl_h512 R v) = Ok v) \<and> (\<forall>v. un_h2048 R (rl_h2048 R v) = Ok v) \<and>
     (\<forall>v. un_address R (rl_address R v) = Ok v) \<and> (\<forall>v. un_bytes R (rl_bytes R v) = Ok v) \<and>
     (\<forall>v. un_string R (rl_string R v) = Ok v) \<and> (\<forall>v. un_option R (rl_option R v) = Ok v) \<and>
     rl_is_empty R (rl_string R []) \<and> (\<forall>a. \<not> rl_is_empty R (rl_address R a)) \<and>
     (\<forall>v. unat v < 2 ^ 8 \<longrightarrow> un_u8 R (rl_u32 R v) = Ok (ucast v)) \<and>
     (\<forall>v. un_u256 R (rl_u64 R v) = Ok (ucast v))"

named_theorems rlp_simps

lemma rlp_okD [rlp_simps]:
  assumes "rlp_ok R"
  shows "i < length xs \<Longrightarrow> rl_at R (rl_list R xs) i = Ok (xs ! i)" "rl_items R (rl_list R xs) = Ok xs"
    "rl_item_count R (rl_list R xs) = Ok (length xs)"
    "un_u8 R (rl_u8 R v8) = Ok v8" "un_u32 R (rl_u32 R v32) = Ok v32" "un_u64 R (rl_u64 R v64) = Ok v64"
    "un_u256 R (rl_u256 R v256) = Ok v256" "un_h256 R (rl_h256 R h) = Ok h" "un_h512 R (rl_h512 R h5) = Ok h5"
    "un_h2048 R (rl_h2048 R b) = Ok b" "un_address R (rl_address R a) = Ok a" "un_bytes R (rl_bytes R bs) = Ok bs"
    "un_string R (rl_string R s) = Ok s" "un_option R (rl_option R opt) = Ok opt" "rl_is_empty R (rl_string R [])"
    "\<not> rl_is_empty R (rl_address R a)" "unat v32 < 2 ^ 8 \<Longrightarrow> un_u8 R (rl_u32 R v32) = Ok (ucast v32)"
    "un_u256 R (rl_u64 R v64) = Ok (ucast v64)"
  using assms by (simp_all add: rlp_ok_def)

lemma val_at_list [rlp_simps]:
  "rlp_ok R \<Longrightarrow> i < length xs \<Longrightarrow> val_at R dec (rl_list R xs) i = dec (xs ! i)"
  by (simp add: val_at_def rlp_okD)

section \<open>The contract of a codec\<close>

locale codec =
  fixes append :: "'a \<Rightarrow> 'r" and decode :: "'r \<Rightarrow> 'a decoded" and ok :: "'a \<Rightarrow> bool"
  assumes decode_append: "ok x \<Longrightarrow> decode (append x) = Ok x"
begin

text \<open>Different values have different encodings, and with them different hashes of the encodings
  wherever the hash has no collision.\<close>

lemma append_inject: "ok x \<Longrightarrow> ok y \<Longrightarrow> append x = append y \<longleftrightarrow> x = y"
  by (metis decode_append res.inject(1))

lemma mapM_append: "list_all ok xs \<Longrightarrow> res_mapM decode (map append xs) = Ok xs"
  by (induction xs) (simp_all add: decode_append)

lemma append_list_roundtrip: "rlp_ok R \<Longrightarrow> list_all ok xs \<Longrightarrow> as_list R decode (append_list R append xs) = Ok xs"
  by (simp add: as_list_def append_list_def rlp_simps mapM_append)

lemma append_option_roundtrip:
  "rlp_ok R \<Longrightarrow> pred_option ok x \<Longrightarrow> as_option R decode (append_option R append x) = Ok x"
  by (cases x) (simp_all add: as_option_def append_option_def rlp_simps decode_append)

end

interpretation u8: codec "rl_u8 R" "un_u8 R" "\<lambda>_. rlp_ok R" for R :: "'r Rlp"
  by unfold_locales (simp add: rlp_simps)

interpretation u64: codec "rl_u64 R" "un_u64 R" "\<lambda>_. rlp_ok R" for R :: "'r Rlp"
  by unfold_locales (simp add: rlp_simps)

interpretation u256: codec "rl_u256 R" "un_u256 R" "\<lambda>_. rlp_ok R" for R :: "'r Rlp"
  by unfold_locales (simp add: rlp_simps)

interpretation h256: codec "rl_h256 R" "un_h256 R" "\<lambda>_. rlp_ok R" for R :: "'r Rlp"
  by unfold_locales (simp add: rlp_simps)

text \<open>Lists of numbers and hashes, in the form the decoders meet them.\<close>

lemma list_of_primitives [rlp_simps]:
  assumes "rlp_ok R"
  shows "as_list R (un_h256 R) (append_list R (rl_h256 R) hs) = Ok hs"
    "as_list R (un_u256 R) (append_list R (rl_u256 R) us) = Ok us"
    "as_list R (un_u64 R) (append_list R (rl_u64 R) ws) = Ok ws"
  using assms by (simp_all add: h256.append_list_roundtrip u256.append_list_roundtrip u64.append_list_roundtrip list_all_iff)

text \<open>\<open>usize\<close> fields of the traces are natural numbers below \<open>2 ^ 64\<close>.\<close>

definition rl_usize :: "'r Rlp \<Rightarrow> nat \<Rightarrow> 'r" where
  "rl_usize R n = rl_u64 R (of_nat n)"

definition un_usize :: "'r Rlp \<Rightarrow> 'r \<Rightarrow> nat decoded" where
  "un_usize R r = res_map unat (un_u64 R r)"

interpretation usize: codec "rl_usize R" "un_usize R" "\<lambda>n. rlp_ok R \<and> n < 2 ^ 64" for R :: "'r Rlp"
  by unfold_locales (auto simp: rlp_simps rl_usize_def un_usize_def unat_of_nat_small)

end
