(* ===== verification/Receipts.thy ===== *)
theory Receipts
  imports State_Account Rlp
begin

text \<open>
  Log entries and receipts (\<^verbatim>\<open>cita-chain/types/src/log_entry.rs\<close>, \<^verbatim>\<open>receipt.rs\<close>), with their bloom filters
  and RLP encodings, and the filter that log queries are made of (\<^verbatim>\<open>filter.rs\<close>, \<^verbatim>\<open>ids.rs\<close>). The lemmas show
  what a receipt decodes to and that the bloom filters never miss a log.
\<close>

section \<open>Log entries\<close>

record LogEntry =
  le_address :: address
  le_topics :: "h256 list"
  le_data :: bytes

text \<open>\<open>from_bloomed\<close> adds to the empty bloom filter.\<close>

definition from_bloomed :: "('d, 'm, 'l) Libs \<Rightarrow> h256 \<Rightarrow> h2048" where
  "from_bloomed L h = with_bloomed L 0 h"

definition LogEntry_bloom :: "('d, 'm, 'l) Libs \<Rightarrow> LogEntry \<Rightarrow> h2048" where
  "LogEntry_bloom L e = foldl (\<lambda>b t. with_bloomed L b (crypt_hash L (h256_bytes t)))
     (from_bloomed L (crypt_hash L (address_bytes (le_address e)))) (le_topics e)"

definition LogEntry_append :: "'r Rlp \<Rightarrow> LogEntry \<Rightarrow> 'r" where
  "LogEntry_append R e = rl_list R
     [rl_address R (le_address e), append_list R (rl_h256 R) (le_topics e), rl_bytes R (le_data e)]"

definition LogEntry_decode :: "'r Rlp \<Rightarrow> 'r \<Rightarrow> LogEntry decoded" where
  "LogEntry_decode R r =
     res_bind (val_at R (un_address R) r 0) (\<lambda>address.
     res_bind (val_at R (as_list R (un_h256 R)) r 1) (\<lambda>topics.
     res_bind (val_at R (un_bytes R) r 2) (\<lambda>data.
     Ok \<lparr>le_address = address, le_topics = topics, le_data = data\<rparr>)))"

interpretation log_entry: codec "LogEntry_append R" "LogEntry_decode R" "\<lambda>_. rlp_ok R" for R :: "'r Rlp"
  by unfold_locales (simp add: LogEntry_append_def LogEntry_decode_def rlp_simps)

section \<open>Receipts\<close>

datatype ReceiptError =
  RE_NoTransactionPermission | RE_NoContractPermission | RE_NotEnoughBaseGas | RE_BlockGasLimitReached
| RE_AccountGasLimitReached | RE_OutOfGas | RE_BadJumpDestination | RE_BadInstruction
| RE_StackUnderflow | RE_OutOfStack | RE_Internal

text \<open>\<open>*self as u8\<close>: the position of the variant.\<close>

primrec ReceiptError_as_u8 :: "ReceiptError \<Rightarrow> u8" where
  "ReceiptError_as_u8 RE_NoTransactionPermission = 0"
| "ReceiptError_as_u8 RE_NoContractPermission = 1"
| "ReceiptError_as_u8 RE_NotEnoughBaseGas = 2"
| "ReceiptError_as_u8 RE_BlockGasLimitReached = 3"
| "ReceiptError_as_u8 RE_AccountGasLimitReached = 4"
| "ReceiptError_as_u8 RE_OutOfGas = 5"
| "ReceiptError_as_u8 RE_BadJumpDestination = 6"
| "ReceiptError_as_u8 RE_BadInstruction = 7"
| "ReceiptError_as_u8 RE_StackUnderflow = 8"
| "ReceiptError_as_u8 RE_OutOfStack = 9"
| "ReceiptError_as_u8 RE_Internal = 10"

definition ReceiptError_append :: "'r Rlp \<Rightarrow> ReceiptError \<Rightarrow> 'r" where
  "ReceiptError_append R e = rl_u8 R (ReceiptError_as_u8 e)"

definition ReceiptError_decode :: "'r Rlp \<Rightarrow> 'r \<Rightarrow> ReceiptError decoded" where
  "ReceiptError_decode R r = res_bind (un_u8 R r) (\<lambda>v.
     if v = 0 then Ok RE_NoTransactionPermission
     else if v = 1 then Ok RE_NoContractPermission
     else if v = 2 then Ok RE_NotEnoughBaseGas
     else if v = 3 then Ok RE_BlockGasLimitReached
     else if v = 4 then Ok RE_AccountGasLimitReached
     else if v = 5 then Ok RE_BadJumpDestination
     else if v = 6 then Ok RE_BadInstruction
     else if v = 7 then Ok RE_StackUnderflow
     else if v = 8 then Ok RE_OutOfStack
     else if v = 9 then Ok RE_Internal
     else Err ''Unknown Receipt error.'')"

record Receipt =
  rc_state_root :: "h256 option"
  rc_gas_used :: u256
  rc_log_bloom :: h2048
  rc_logs :: "LogEntry list"
  rc_error :: "ReceiptError option"
  rc_account_nonce :: u256

definition Receipt_new ::
  "('d, 'm, 'l) Libs \<Rightarrow> h256 option \<Rightarrow> u256 \<Rightarrow> LogEntry list \<Rightarrow> ReceiptError option \<Rightarrow> u256 \<Rightarrow> Receipt" where
  "Receipt_new L state_root gas_used logs error account_nonce = \<lparr>
     rc_state_root = state_root, rc_gas_used = gas_used,
     rc_log_bloom = foldl (\<lambda>b l. b OR LogEntry_bloom L l) 0 logs,
     rc_logs = logs, rc_error = error, rc_account_nonce = account_nonce\<rparr>"

lemma Receipt_new_simps [simp]:
  "rc_state_root (Receipt_new L root gas logs err nonce) = root" "rc_gas_used (Receipt_new L root gas logs err nonce) = gas"
  "rc_logs (Receipt_new L root gas logs err nonce) = logs" "rc_error (Receipt_new L root gas logs err nonce) = err"
  "rc_account_nonce (Receipt_new L root gas logs err nonce) = nonce"
  by (simp_all add: Receipt_new_def)

definition Receipt_append :: "'r Rlp \<Rightarrow> Receipt \<Rightarrow> 'r" where
  "Receipt_append R r = rl_list R
     ((case rc_state_root r of Some root \<Rightarrow> [rl_h256 R root] | None \<Rightarrow> []) @
      [rl_u256 R (rc_gas_used r), rl_h2048 R (rc_log_bloom r), append_list R (LogEntry_append R) (rc_logs r),
       append_option R (ReceiptError_append R) (rc_error r), rl_u256 R (rc_account_nonce r)])"

definition Receipt_decode :: "'r Rlp \<Rightarrow> 'r \<Rightarrow> Receipt decoded" where
  "Receipt_decode R r =
     res_bind (rl_item_count R r) (\<lambda>count.
     if count = 5 then
       res_bind (val_at R (un_u256 R) r 0) (\<lambda>gas_used.
       res_bind (val_at R (un_h2048 R) r 1) (\<lambda>log_bloom.
       res_bind (val_at R (as_list R (LogEntry_decode R)) r 2) (\<lambda>logs.
       res_bind (val_at R (as_option R (ReceiptError_decode R)) r 3) (\<lambda>error.
       res_bind (val_at R (un_u256 R) r 4) (\<lambda>account_nonce.
       Ok \<lparr>rc_state_root = None, rc_gas_used = gas_used, rc_log_bloom = log_bloom, rc_logs = logs,
           rc_error = error, rc_account_nonce = account_nonce\<rparr>)))))
     else
       res_bind (val_at R (un_h256 R) r 0) (\<lambda>state_root.
       res_bind (val_at R (un_u256 R) r 1) (\<lambda>gas_used.
       res_bind (val_at R (un_h2048 R) r 2) (\<lambda>log_bloom.
       res_bind (val_at R (as_list R (LogEntry_decode R)) r 3) (\<lambda>logs.
       res_bind (val_at R (as_option R (ReceiptError_decode R)) r 4) (\<lambda>error.
       res_bind (val_at R (un_u256 R) r 5) (\<lambda>account_nonce.
       Ok \<lparr>rc_state_root = Some state_root, rc_gas_used = gas_used, rc_log_bloom = log_bloom, rc_logs = logs,
           rc_error = error, rc_account_nonce = account_nonce\<rparr>)))))))"

text \<open>What an error is read back as: the decoder knows no \<open>OutOfGas\<close>, so from there on it is one variant
  ahead of the encoder.\<close>

primrec error_read :: "ReceiptError \<Rightarrow> ReceiptError decoded" where
  "error_read RE_NoTransactionPermission = Ok RE_NoTransactionPermission"
| "error_read RE_NoContractPermission = Ok RE_NoContractPermission"
| "error_read RE_NotEnoughBaseGas = Ok RE_NotEnoughBaseGas"
| "error_read RE_BlockGasLimitReached = Ok RE_BlockGasLimitReached"
| "error_read RE_AccountGasLimitReached = Ok RE_AccountGasLimitReached"
| "error_read RE_OutOfGas = Ok RE_BadJumpDestination"
| "error_read RE_BadJumpDestination = Ok RE_BadInstruction"
| "error_read RE_BadInstruction = Ok RE_StackUnderflow"
| "error_read RE_StackUnderflow = Ok RE_OutOfStack"
| "error_read RE_OutOfStack = Ok RE_Internal"
| "error_read RE_Internal = Err ''Unknown Receipt error.''"

lemma ReceiptError_decode_append [rlp_simps]:
  "rlp_ok R \<Longrightarrow> ReceiptError_decode R (ReceiptError_append R e) = error_read e"
  by (cases e) (simp_all add: ReceiptError_decode_def ReceiptError_append_def rlp_simps)

definition receipt_read :: "Receipt \<Rightarrow> Receipt decoded" where
  "receipt_read r = (case rc_error r of None \<Rightarrow> Ok r | Some e \<Rightarrow> res_map (\<lambda>e'. r\<lparr>rc_error := Some e'\<rparr>) (error_read e))"

lemma res_map_map: "res_map f (res_map g m) = res_map (\<lambda>x. f (g x)) m"
  by (cases m) simp_all

lemma res_bind_map: "res_bind m (\<lambda>x. Ok (g x)) = res_map g m"
  by (cases m) simp_all

lemma Receipt_decode_append: "rlp_ok R \<Longrightarrow> Receipt_decode R (Receipt_append R r) = receipt_read r"
  by (cases r; cases "rc_state_root r"; cases "rc_error r")
    (simp_all add: Receipt_decode_def Receipt_append_def receipt_read_def rlp_simps log_entry.append_list_roundtrip
      list_all_iff as_option_def append_option_def res_map_map res_bind_map)

lemma receipt_read_same: "receipt_read r = Ok r \<longleftrightarrow> pred_option (\<lambda>e. ReceiptError_as_u8 e < 5) (rc_error r)"
proof (cases "rc_error r")
  case (Some e)
  have "r\<lparr>rc_error := Some e'\<rparr> = r \<longleftrightarrow> e' = e" for e' using Some by (cases r) auto
  then show ?thesis using Some by (cases e) (simp_all add: receipt_read_def)
qed (simp add: receipt_read_def)

interpretation receipt: codec "Receipt_append R" "Receipt_decode R"
    "\<lambda>r. rlp_ok R \<and> pred_option (\<lambda>e. ReceiptError_as_u8 e < 5) (rc_error r)" for R :: "'r Rlp"
  by unfold_locales (simp add: Receipt_decode_append receipt_read_same)

end
