(* ===== verification/Externalities.thy ===== *)
theory Externalities
  imports Trace Account_State Receipts EVM_Interpreter
begin

text \<open>
  The environment of a frame of execution: the substate a transaction accumulates
  (\<^verbatim>\<open>cita-executor/core/src/substate.rs\<close>) and the implementation of the trait \<open>Ext\<close> over the account
  state (\<^verbatim>\<open>externalities.rs\<close>). Nested calls and creates go back to the executive, which comes as a pair
  of functions here and is tied to them in the theory of the executive.
\<close>

section \<open>The substate\<close>

text \<open>The two hash sets are the lists of their elements in iteration order.\<close>

record Substate =
  sub_suicides :: "address list"
  sub_garbage :: "address list"
  sub_logs :: "LogEntry list"
  sub_sstore_clears_count :: u256
  sub_contracts_created :: "address list"

definition Substate_new :: Substate where
  "Substate_new = \<lparr>sub_suicides = [], sub_garbage = [], sub_logs = [], sub_sstore_clears_count = 0,
     sub_contracts_created = []\<rparr>"

definition accrue :: "Substate \<Rightarrow> (Substate, evm_error, unit) sm" where
  "accrue s self =
     (case plus_chk (sub_sstore_clears_count self) (sub_sstore_clears_count s) of
        Ok n \<Rightarrow> (Ok (), \<lparr>
          sub_suicides = fold List.insert (sub_suicides s) (sub_suicides self),
          sub_garbage = fold List.insert (sub_garbage s) (sub_garbage self),
          sub_logs = sub_logs self @ sub_logs s,
          sub_sstore_clears_count = n,
          sub_contracts_created = sub_contracts_created self @ sub_contracts_created s\<rparr>)
      | Err e \<Rightarrow> (Err e, self) | Panic \<Rightarrow> (Panic, self) | Diverge \<Rightarrow> (Diverge, self))"

datatype CleanupMode = ForceCreate | NoEmpty | KillEmpty "address list"

definition to_cleanup_mode :: "Schedule \<Rightarrow> Substate \<Rightarrow> CleanupMode" where
  "to_cleanup_mode schedule s =
     (case (no_empty schedule, kill_empty schedule) of
        (False, _) \<Rightarrow> ForceCreate
      | (True, False) \<Rightarrow> NoEmpty
      | (True, True) \<Rightarrow> KillEmpty (sub_garbage s))"

section \<open>The environment\<close>

text \<open>The reference to bytes that a call writes its output to: a vector, or a slice of fixed size.\<close>

datatype BytesRef = Flexible bytes | Fixed bytes

datatype OutputPolicy = OP_Return BytesRef "bytes option" | OP_InitContract "bytes option"

record OriginInfo =
  oi_address :: address
  oi_origin :: address
  oi_gas_price :: u256
  oi_value :: u256

definition OriginInfo_from :: "ActionParams \<Rightarrow> OriginInfo" where
  "OriginInfo_from params = \<lparr>
     oi_address = ap_address params, oi_origin = ap_origin params,
     oi_gas_price = ap_gas_price params,
     oi_value = (case ap_value params of Transfer val \<Rightarrow> val | Apparent val \<Rightarrow> val)\<rparr>"

text \<open>What a frame changes: the state, the substate and the tracers.\<close>

record ('d, 'l, 't, 'v) Ex =
  ex_state :: "('d, 'l) State"
  ex_substate :: Substate
  ex_tracer :: 't
  ex_vm_tracer :: 'v

text \<open>The executive, one level deeper: \<open>call\<close> also returns the output it was given to write to.\<close>

type_synonym ('d, 'l, 't, 'v) executive_call =
  "ActionParams \<Rightarrow> (BytesRef \<times> ('d, 'l, 't, 'v) Ex, evm_error, u256) sm"

type_synonym ('d, 'l, 't, 'v) executive_create =
  "ActionParams \<Rightarrow> (('d, 'l, 't, 'v) Ex, evm_error, u256) sm"

definition on_state :: "(('d, 'l) State, 'x, 'a) sm \<Rightarrow> (('d, 'l, 't, 'v) Ex, 'x, 'a) sm" where
  "on_state f ex = (case f (ex_state ex) of (r, s) \<Rightarrow> (r, ex\<lparr>ex_state := s\<rparr>))"

definition contract_address :: "('d, 'm, 'l) Libs \<Rightarrow> address \<Rightarrow> u256 \<Rightarrow> address" where
  "contract_address L address nonce =
     ucast (crypt_hash L (rlp_list (lib_rlp L) [rlp_address (lib_rlp L) address, rlp_u256 (lib_rlp L) nonce]))"

section \<open>The trait\<close>

definition ext_impl_blockhash :: "EnvInfo \<Rightarrow> u256 \<Rightarrow> h256 evm_result" where
  "ext_impl_blockhash info number =
     (if number < ucast (ei_number info) \<and>
         max 256 (unat (ei_number info)) - 256 \<le> unat (low_u64 number)
      then res_bind (minus_chk (ei_number info) (low_u64 number)) (\<lambda>x.
           res_bind (minus_chk x 1) (\<lambda>index.
           res_bind (rust_assert (unat index < length (ei_last_hashes info))) (\<lambda>_.
           Ok (ei_last_hashes info ! unat index))))
      else Ok 0)"

definition ext_impl_create ::
  "('d, 'm, 'l) Libs \<Rightarrow> OriginInfo \<Rightarrow> ('d, 'l, 't, 'v) executive_create \<Rightarrow> u256 \<Rightarrow> u256 \<Rightarrow> bytes \<Rightarrow>
   (('d, 'l, 't, 'v) Ex, evm_error, ContractCreateResult) sm" where
  "ext_impl_create L origin ex_create gas value code ex =
     (case on_state (State_nonce L (oi_address origin)) ex of
        (Ok nonce, ex1) \<Rightarrow>
          let address = contract_address L (oi_address origin) nonce;
              params = \<lparr>ap_code_address = address, ap_code_hash = crypt_hash L code,
                 ap_address = address, ap_sender = oi_address origin, ap_origin = oi_origin origin,
                 ap_gas = gas, ap_gas_price = oi_gas_price origin, ap_value = Transfer value,
                 ap_code = Some code, ap_data = None, ap_call_type = CT_None\<rparr> in
          (case on_state (State_inc_nonce L (oi_address origin)) ex1 of
             (Ok _, ex2) \<Rightarrow>
               (case ex_create params ex2 of
                  (Ok gas_left, ex3) \<Rightarrow>
                    (Ok (Created address gas_left),
                     ex3\<lparr>ex_substate := (ex_substate ex3)\<lparr>sub_contracts_created :=
                           sub_contracts_created (ex_substate ex3) @ [address]\<rparr>\<rparr>)
                | (Err _, ex3) \<Rightarrow> (Ok Create_Failed, ex3)
                | (Panic, ex3) \<Rightarrow> (Panic, ex3) | (Diverge, ex3) \<Rightarrow> (Diverge, ex3))
           | (Err _, ex2) \<Rightarrow> (Ok Create_Failed, ex2)
           | (Panic, ex2) \<Rightarrow> (Panic, ex2) | (Diverge, ex2) \<Rightarrow> (Diverge, ex2))
      | (Err _, ex1) \<Rightarrow> (Ok Create_Failed, ex1)
      | (Panic, ex1) \<Rightarrow> (Panic, ex1) | (Diverge, ex1) \<Rightarrow> (Diverge, ex1))"

primrec bytes_of :: "BytesRef \<Rightarrow> bytes" where
  "bytes_of (Flexible b) = b"
| "bytes_of (Fixed b) = b"

definition ext_impl_call ::
  "('d, 'm, 'l) Libs \<Rightarrow> OriginInfo \<Rightarrow> ('d, 'l, 't, 'v) executive_call \<Rightarrow> u256 \<Rightarrow> address \<Rightarrow> address \<Rightarrow>
   u256 option \<Rightarrow> bytes \<Rightarrow> address \<Rightarrow> bytes \<Rightarrow> CallType \<Rightarrow>
   (('d, 'l, 't, 'v) Ex, evm_error, MessageCallResult \<times> bytes) sm" where
  "ext_impl_call L origin ex_call gas sender_address receive_address value data code_address output call_type ex =
     (case sm_bind (on_state (State_code L code_address)) (\<lambda>code.
           sm_bind (on_state (State_code_hash L code_address)) (\<lambda>hash. sm_ret (code, hash))) ex of
        (Ok (code, code_hash), ex1) \<Rightarrow>
          let params = \<lparr>ap_code_address = code_address, ap_code_hash = code_hash,
                 ap_address = receive_address, ap_sender = sender_address, ap_origin = oi_origin origin,
                 ap_gas = gas, ap_gas_price = oi_gas_price origin,
                 ap_value = (case value of Some v \<Rightarrow> Transfer v | None \<Rightarrow> Apparent (oi_value origin)),
                 ap_code = code, ap_data = Some data, ap_call_type = call_type\<rparr> in
          (case ex_call params (Fixed output, ex1) of
             (Ok gas_left, out, ex2) \<Rightarrow> (Ok (Success gas_left, bytes_of out), ex2)
           | (Err _, out, ex2) \<Rightarrow> (Ok (Call_Failed, bytes_of out), ex2)
           | (Panic, out, ex2) \<Rightarrow> (Panic, ex2) | (Diverge, out, ex2) \<Rightarrow> (Diverge, ex2))
      | (Err _, ex1) \<Rightarrow> (Ok (Call_Failed, output), ex1)
      | (Panic, ex1) \<Rightarrow> (Panic, ex1) | (Diverge, ex1) \<Rightarrow> (Diverge, ex1))"

text \<open>The end of a run: the data goes to the output, or becomes the code of the new contract. The
  schedule of the externalities is always the frontier one.\<close>

definition ext_ret ::
  "('d, 'm, 'l) Libs \<Rightarrow> OriginInfo \<Rightarrow> u256 \<Rightarrow> bytes \<Rightarrow>
   (OutputPolicy \<times> ('d, 'l, 't, 'v) Ex, evm_error, u256) sm" where
  "ext_ret L origin gas data = (\<lambda>(output, ex).
      let handle_copy = map_option (\<lambda>_. data); schedule = new_frontier in
      case output of
        OP_Return (Fixed buf) copy \<Rightarrow>
          let len = min (length buf) (length data) in
          (Ok gas, OP_Return (Fixed (take len data @ drop len buf)) (handle_copy copy), ex)
      | OP_Return (Flexible v) copy \<Rightarrow> (Ok gas, OP_Return (Flexible data) (handle_copy copy), ex)
      | OP_InitContract copy \<Rightarrow>
          (case times_chk (of_nat (length data)) (of_nat (create_data_gas schedule)) of
             Ok return_cost \<Rightarrow>
               if gas < return_cost \<or> create_data_limit schedule < length data
               then (if exceptional_failed_code_deposit schedule then Err OutOfGas else Ok gas, output, ex)
               else (case on_state (State_init_code L (oi_address origin) data) ex of
                       (r, ex') \<Rightarrow>
                         (res_bind (from_trie r) (\<lambda>_. minus_chk gas return_cost),
                          OP_InitContract (handle_copy copy), ex'))
           | Err e \<Rightarrow> (Err e, output, ex) | Panic \<Rightarrow> (Panic, output, ex) | Diverge \<Rightarrow> (Diverge, output, ex)))"

definition ext_impl_log :: "OriginInfo \<Rightarrow> h256 list \<Rightarrow> bytes \<Rightarrow> (('d, 'l, 't, 'v) Ex, evm_error, unit) sm" where
  "ext_impl_log origin topics data = sm_modify (\<lambda>ex. ex\<lparr>ex_substate := (ex_substate ex)\<lparr>sub_logs :=
     sub_logs (ex_substate ex) @ [\<lparr>le_address = oi_address origin, le_topics = topics, le_data = data\<rparr>]\<rparr>\<rparr>)"

definition ext_impl_suicide ::
  "'t Tracer \<Rightarrow> OriginInfo \<Rightarrow> address \<Rightarrow> (('d, 'l, 't, 'v) Ex, string, unit) sm" where
  "ext_impl_suicide T origin refund_address = sm_modify (\<lambda>ex. ex\<lparr>
     ex_tracer := tr_trace_suicide T (oi_address origin) 0 refund_address (ex_tracer ex),
     ex_substate := (ex_substate ex)\<lparr>sub_suicides :=
       List.insert (oi_address origin) (sub_suicides (ex_substate ex))\<rparr>\<rparr>)"

definition ext_impl_inc_sstore_clears :: "(('d, 'l, 't, 'v) Ex, evm_error, unit) sm" where
  "ext_impl_inc_sstore_clears ex =
     (case plus_chk (sub_sstore_clears_count (ex_substate ex)) 1 of
        Ok n \<Rightarrow> (Ok (), ex\<lparr>ex_substate := (ex_substate ex)\<lparr>sub_sstore_clears_count := n\<rparr>\<rparr>)
      | Err e \<Rightarrow> (Err e, ex) | Panic \<Rightarrow> (Panic, ex) | Diverge \<Rightarrow> (Diverge, ex))"

text \<open>\<open>Externalities::new\<close> and \<open>impl Ext\<close>.\<close>

definition Externalities_new ::
  "('d, 'm, 'l) Libs \<Rightarrow> 't Tracer \<Rightarrow> 'v VMTracer \<Rightarrow> EnvInfo \<Rightarrow> nat \<Rightarrow> OriginInfo \<Rightarrow>
   ('d, 'l, 't, 'v) executive_call \<Rightarrow> ('d, 'l, 't, 'v) executive_create \<Rightarrow> ('d, 'l, 't, 'v) Ex Ext" where
  "Externalities_new L T V info depth origin ex_call ex_create = \<lparr>
     ext_storage_at = (\<lambda>key. on_state (State_storage_at L (oi_address origin) key)),
     ext_set_storage = (\<lambda>key value. on_state (State_set_storage L (oi_address origin) key value)),
     ext_exists = (\<lambda>address. on_state (State_exists L address)),
     ext_exists_and_not_null = (\<lambda>address. on_state (State_exists_and_not_null L address)),
     ext_origin_balance = sm_ret 0,
     ext_balance = (\<lambda>address. sm_ret 0),
     ext_blockhash = (\<lambda>number. sm_lift (ext_impl_blockhash info number)),
     ext_create = ext_impl_create L origin ex_create,
     ext_call = ext_impl_call L origin ex_call,
     ext_extcode = (\<lambda>address. sm_bind (on_state (State_code L address))
        (\<lambda>c. sm_ret (case c of Some c \<Rightarrow> c | None \<Rightarrow> []))),
     ext_extcodesize = (\<lambda>address. sm_bind (on_state (State_code_size L address))
        (\<lambda>n. sm_ret (case n of Some n \<Rightarrow> n | None \<Rightarrow> 0))),
     ext_log = ext_impl_log origin,
     ext_suicide = ext_impl_suicide T origin,
     ext_schedule = new_frontier,
     ext_env_info = info,
     ext_depth = depth,
     ext_inc_sstore_clears = ext_impl_inc_sstore_clears,
     ext_trace_prepare_execute = (\<lambda>pc i gas_cost ex.
        case vm_trace_prepare_execute V pc i gas_cost (ex_vm_tracer ex) of
          (b, v) \<Rightarrow> (Ok b, ex\<lparr>ex_vm_tracer := v\<rparr>)),
     ext_trace_executed = (\<lambda>gas_used stack_push mem_diff store_diff ex.
        case vm_trace_executed V gas_used stack_push mem_diff store_diff (ex_vm_tracer ex) of
          (r, v) \<Rightarrow> (r, ex\<lparr>ex_vm_tracer := v\<rparr>))\<rparr>"

end
