(* ===== verification/Transactions.thy ===== *)
theory Transactions
  imports Rlp
begin

text \<open>
  Transactions (\<^verbatim>\<open>cita-chain/types/src/transaction.rs\<close>): the plain, the unverified and the signed
  transaction, their RLP encodings and their conversions from and to the protobuf messages. The
  struct of a signed transaction wraps the unverified one and that the plain one, and \<open>Deref\<close> makes
  the inner fields those of the outer struct: the records extend each other. The lemmas show that
  both encodings round trip, and exactly where they do not.
\<close>

section \<open>Data\<close>

text \<open>The address that the string \<open>STORE_ADDRESS\<close> spells, and the string.\<close>

definition STORE_ADDRESS :: string where
  "STORE_ADDRESS = replicate 40 (CHR ''f'')"

definition store_addr :: address where
  "store_addr = - 1"

datatype Action = Action_Store | Action_Create | Action_Call address

datatype CryptoType = SECP | SM2

datatype TxError = ParseError | InvalidHash | InvalidSignature | InvalidPubKey

record Transaction =
  tx_nonce :: string
  tx_gas_price :: u256
  tx_gas_limit :: u256
  tx_action :: Action
  tx_value :: u256
  tx_data :: bytes
  tx_block_limit :: u64

record UnverifiedTransaction = Transaction +
  tx_signature :: bytes
  tx_crypto_type :: CryptoType
  tx_hash :: h256

record SignedTransaction = UnverifiedTransaction +
  tx_sender :: address
  tx_public :: u512
  tx_account_nonce :: u256

text \<open>The field \<open>unsigned\<close> of an unverified transaction and the field \<open>transaction\<close> of a signed one.\<close>

definition unsigned_tx :: "'a UnverifiedTransaction_scheme \<Rightarrow> Transaction" where
  "unsigned_tx u = \<lparr>tx_nonce = tx_nonce u, tx_gas_price = tx_gas_price u, tx_gas_limit = tx_gas_limit u,
     tx_action = tx_action u, tx_value = tx_value u, tx_data = tx_data u, tx_block_limit = tx_block_limit u\<rparr>"

definition unverified :: "Transaction \<Rightarrow> bytes \<Rightarrow> CryptoType \<Rightarrow> h256 \<Rightarrow> UnverifiedTransaction" where
  "unverified t signature crypto_type hash = \<lparr>tx_nonce = tx_nonce t, tx_gas_price = tx_gas_price t,
     tx_gas_limit = tx_gas_limit t, tx_action = tx_action t, tx_value = tx_value t, tx_data = tx_data t,
     tx_block_limit = tx_block_limit t, tx_signature = signature, tx_crypto_type = crypto_type, tx_hash = hash\<rparr>"

definition signed :: "UnverifiedTransaction \<Rightarrow> address \<Rightarrow> u512 \<Rightarrow> u256 \<Rightarrow> SignedTransaction" where
  "signed u sender public account_nonce = \<lparr>tx_nonce = tx_nonce u, tx_gas_price = tx_gas_price u,
     tx_gas_limit = tx_gas_limit u, tx_action = tx_action u, tx_value = tx_value u, tx_data = tx_data u,
     tx_block_limit = tx_block_limit u, tx_signature = tx_signature u, tx_crypto_type = tx_crypto_type u,
     tx_hash = tx_hash u, tx_sender = sender, tx_public = public, tx_account_nonce = account_nonce\<rparr>"

definition set_account_nonce :: "u256 \<Rightarrow> SignedTransaction \<Rightarrow> SignedTransaction" where
  "set_account_nonce n t = t\<lparr>tx_account_nonce := n\<rparr>"

text \<open>What the code takes from the crates \<open>crypto\<close> and \<open>util\<close>: the address of a public key, the length
  of a signature, and the hexadecimal form of an address with its parser.\<close>

record crypto =
  pubkey_to_address :: "u512 \<Rightarrow> address"
  signature_bytes_len :: nat
  address_hex :: "address \<Rightarrow> string"
  address_from_str :: "string \<Rightarrow> address option"

definition crypto_ok :: "crypto \<Rightarrow> bool" where
  "crypto_ok C \<longleftrightarrow> (\<forall>a. address_from_str C (address_hex C a) = Some a) \<and> (\<forall>a. address_hex C a \<noteq> []) \<and>
     address_hex C store_addr = STORE_ADDRESS"

section \<open>RLP\<close>

definition Action_append :: "'r Rlp \<Rightarrow> Action \<Rightarrow> 'r" where
  "Action_append R a =
     (case a of Action_Create \<Rightarrow> rl_string R []
      | Action_Call addr \<Rightarrow> rl_address R addr
      | Action_Store \<Rightarrow> rl_address R store_addr)"

definition Action_decode :: "'r Rlp \<Rightarrow> 'r \<Rightarrow> Action decoded" where
  "Action_decode R r =
     (if rl_is_empty R r then Ok Action_Create
      else res_bind (un_address R r) (\<lambda>addr.
        if addr = store_addr then Ok Action_Store else Ok (Action_Call addr)))"

definition CryptoType_append :: "'r Rlp \<Rightarrow> CryptoType \<Rightarrow> 'r" where
  "CryptoType_append R c = (case c of SECP \<Rightarrow> rl_u8 R 0 | SM2 \<Rightarrow> rl_u8 R 1)"

definition CryptoType_decode :: "'r Rlp \<Rightarrow> 'r \<Rightarrow> CryptoType decoded" where
  "CryptoType_decode R r = res_bind (un_u8 R r) (\<lambda>v.
     if v = 0 then Ok SECP else if v = 1 then Ok SM2 else Err ''Unknown Type.'')"

definition Transaction_append :: "'r Rlp \<Rightarrow> 'a Transaction_scheme \<Rightarrow> 'r" where
  "Transaction_append R t = rl_list R
     [rl_string R (tx_nonce t), rl_u256 R (tx_gas_price t), rl_u256 R (tx_gas_limit t), Action_append R (tx_action t),
      rl_u256 R (tx_value t), rl_bytes R (tx_data t), rl_u64 R (tx_block_limit t)]"

definition Transaction_decode :: "'r Rlp \<Rightarrow> 'r \<Rightarrow> Transaction decoded" where
  "Transaction_decode R d =
     res_bind (rl_item_count R d) (\<lambda>count.
     if count \<noteq> 7 then Err ''RlpIncorrectListLen'' else
     res_bind (val_at R (un_string R) d 0) (\<lambda>nonce.
     res_bind (val_at R (un_u256 R) d 1) (\<lambda>gas_price.
     res_bind (val_at R (un_u256 R) d 2) (\<lambda>gas.
     res_bind (val_at R (Action_decode R) d 3) (\<lambda>action.
     res_bind (val_at R (un_u256 R) d 4) (\<lambda>value.
     res_bind (val_at R (un_bytes R) d 5) (\<lambda>data.
     res_bind (val_at R (un_u64 R) d 6) (\<lambda>block_limit.
     Ok \<lparr>tx_nonce = nonce, tx_gas_price = gas_price, tx_gas_limit = gas, tx_action = action, tx_value = value,
         tx_data = data, tx_block_limit = block_limit\<rparr>))))))))"

definition UnverifiedTransaction_append :: "'r Rlp \<Rightarrow> 'a UnverifiedTransaction_scheme \<Rightarrow> 'r" where
  "UnverifiedTransaction_append R u = rl_list R
     [Transaction_append R (unsigned_tx u), rl_bytes R (tx_signature u), CryptoType_append R (tx_crypto_type u),
      rl_h256 R (tx_hash u)]"

definition UnverifiedTransaction_decode :: "'r Rlp \<Rightarrow> 'r \<Rightarrow> UnverifiedTransaction decoded" where
  "UnverifiedTransaction_decode R d =
     res_bind (rl_item_count R d) (\<lambda>count.
     if count \<noteq> 4 then Err ''RlpIncorrectListLen'' else
     res_bind (val_at R (Transaction_decode R) d 0) (\<lambda>unsigned.
     res_bind (val_at R (un_bytes R) d 1) (\<lambda>signature.
     res_bind (val_at R (CryptoType_decode R) d 2) (\<lambda>crypto_type.
     res_bind (val_at R (un_h256 R) d 3) (\<lambda>hash.
     Ok (unverified unsigned signature crypto_type hash))))))"

definition SignedTransaction_append :: "'r Rlp \<Rightarrow> SignedTransaction \<Rightarrow> 'r" where
  "SignedTransaction_append R t = rl_list R
     [rl_string R (tx_nonce t), rl_u256 R (tx_gas_price t), rl_u256 R (tx_gas_limit t), Action_append R (tx_action t),
      rl_u256 R (tx_value t), rl_bytes R (tx_data t), rl_u64 R (tx_block_limit t),
      rl_bytes R (tx_signature t), CryptoType_append R (tx_crypto_type t), rl_h256 R (tx_hash t),
      rl_h512 R (tx_public t), rl_u256 R (tx_account_nonce t)]"

definition SignedTransaction_decode :: "crypto \<Rightarrow> 'r Rlp \<Rightarrow> 'r \<Rightarrow> SignedTransaction decoded" where
  "SignedTransaction_decode C R d =
     res_bind (rl_item_count R d) (\<lambda>count.
     if count \<noteq> 12 then Err ''RlpIncorrectListLen'' else
     res_bind (val_at R (un_h512 R) d 10) (\<lambda>public.
     res_bind (val_at R (un_string R) d 0) (\<lambda>nonce.
     res_bind (val_at R (un_u256 R) d 1) (\<lambda>gas_price.
     res_bind (val_at R (un_u256 R) d 2) (\<lambda>gas.
     res_bind (val_at R (Action_decode R) d 3) (\<lambda>action.
     res_bind (val_at R (un_u256 R) d 4) (\<lambda>value.
     res_bind (val_at R (un_bytes R) d 5) (\<lambda>data.
     res_bind (val_at R (un_u64 R) d 6) (\<lambda>block_limit.
     res_bind (val_at R (un_bytes R) d 7) (\<lambda>signature.
     res_bind (val_at R (CryptoType_decode R) d 8) (\<lambda>crypto_type.
     res_bind (val_at R (un_h256 R) d 9) (\<lambda>hash.
     res_bind (val_at R (un_u256 R) d 11) (\<lambda>account_nonce.
     Ok \<lparr>tx_nonce = nonce, tx_gas_price = gas_price, tx_gas_limit = gas, tx_action = action, tx_value = value,
         tx_data = data, tx_block_limit = block_limit, tx_signature = signature, tx_crypto_type = crypto_type,
         tx_hash = hash, tx_sender = pubkey_to_address C public, tx_public = public,
         tx_account_nonce = account_nonce\<rparr>)))))))))))))"

section \<open>Protobuf\<close>

text \<open>A protobuf message is the record of its fields, which the generated getters read and the setters
  write. \<open>U256::as_u64\<close> panics where the number does not fit.\<close>

datatype ProtoCrypto = ProtoCrypto_SECP | ProtoCrypto_SM2

record ProtoTransaction =
  pt_nonce :: string
  pt_quota :: u64
  pt_to :: string
  pt_data :: bytes
  pt_valid_until_block :: u64

record ProtoUnverifiedTransaction =
  put_transaction :: ProtoTransaction
  put_signature :: bytes
  put_crypto :: ProtoCrypto

record ProtoSignedTransaction =
  pst_transaction_with_sig :: ProtoUnverifiedTransaction
  pst_tx_hash :: bytes
  pst_signer :: bytes

definition as_u64 :: "u256 \<Rightarrow> ('e, u64) res" where
  "as_u64 x = (if unat x < 2 ^ 64 then Ok (ucast x) else Panic)"

primrec CryptoType_from :: "ProtoCrypto \<Rightarrow> CryptoType" where
  "CryptoType_from ProtoCrypto_SECP = SECP"
| "CryptoType_from ProtoCrypto_SM2 = SM2"

definition Transaction_new :: "crypto \<Rightarrow> ProtoTransaction \<Rightarrow> (TxError, Transaction) res" where
  "Transaction_new C p =
     res_bind (if pt_to p = [] then Ok Action_Create
               else if pt_to p = STORE_ADDRESS then Ok Action_Store
               else (case address_from_str C (pt_to p) of Some a \<Rightarrow> Ok (Action_Call a) | None \<Rightarrow> Err ParseError)) (\<lambda>action.
     Ok \<lparr>tx_nonce = pt_nonce p, tx_gas_price = 0, tx_gas_limit = ucast (pt_quota p), tx_action = action, tx_value = 0,
         tx_data = pt_data p, tx_block_limit = pt_valid_until_block p\<rparr>)"

definition proto_transaction :: "crypto \<Rightarrow> 'a Transaction_scheme \<Rightarrow> (TxError, ProtoTransaction) res" where
  "proto_transaction C t =
     res_bind (as_u64 (tx_gas_limit t)) (\<lambda>quota.
     Ok \<lparr>pt_nonce = tx_nonce t, pt_quota = quota,
         pt_to = (case tx_action t of Action_Create \<Rightarrow> [] | Action_Call to \<Rightarrow> address_hex C to | Action_Store \<Rightarrow> STORE_ADDRESS),
         pt_data = tx_data t, pt_valid_until_block = tx_block_limit t\<rparr>)"

definition UnverifiedTransaction_new ::
  "crypto \<Rightarrow> ProtoUnverifiedTransaction \<Rightarrow> h256 \<Rightarrow> (TxError, UnverifiedTransaction) res" where
  "UnverifiedTransaction_new C utx hash =
     (if length (put_signature utx) \<noteq> signature_bytes_len C then Err InvalidSignature
      else res_bind (Transaction_new C (put_transaction utx)) (\<lambda>unsigned.
        Ok (unverified unsigned (put_signature utx) (CryptoType_from (put_crypto utx)) hash)))"

definition proto_unverified :: "crypto \<Rightarrow> 'a UnverifiedTransaction_scheme \<Rightarrow> (TxError, ProtoUnverifiedTransaction) res" where
  "proto_unverified C u =
     res_bind (proto_transaction C (unsigned_tx u)) (\<lambda>tx.
     Ok \<lparr>put_transaction = tx, put_signature = tx_signature u,
         put_crypto = (case tx_crypto_type u of SECP \<Rightarrow> ProtoCrypto_SECP | SM2 \<Rightarrow> ProtoCrypto_SM2)\<rparr>)"

text \<open>Hashes have 32 bytes and public keys 64.\<close>

definition h512_from_slice :: "bytes \<Rightarrow> u512" where
  "h512_from_slice bs = of_nat (be_nat bs)"

definition h512_to_vec :: "u512 \<Rightarrow> bytes" where
  "h512_to_vec h = nat_be 64 (unat h)"

definition SignedTransaction_new :: "crypto \<Rightarrow> ProtoSignedTransaction \<Rightarrow> (TxError, SignedTransaction) res" where
  "SignedTransaction_new C stx =
     (if length (pst_tx_hash stx) \<noteq> 32 then Err InvalidHash
      else if length (pst_signer stx) \<noteq> 64 then Err InvalidPubKey
      else
        let tx_hash = u256_from_be (pst_tx_hash stx); public = h512_from_slice (pst_signer stx);
            sender = pubkey_to_address C public in
        res_bind (UnverifiedTransaction_new C (pst_transaction_with_sig stx) tx_hash) (\<lambda>transaction.
        Ok (signed transaction sender public 0)))"

definition SignedTransaction_protobuf :: "crypto \<Rightarrow> SignedTransaction \<Rightarrow> (TxError, ProtoSignedTransaction) res" where
  "SignedTransaction_protobuf C t =
     res_bind (proto_unverified C t) (\<lambda>utx.
     Ok \<lparr>pst_transaction_with_sig = utx, pst_tx_hash = u256_to_be (tx_hash t), pst_signer = h512_to_vec (tx_public t)\<rparr>)"

section \<open>Round trips\<close>

text \<open>A call of the address of \<open>STORE_ADDRESS\<close> is the one action both encodings confuse with a store.\<close>

definition plain_action :: "Action \<Rightarrow> bool" where
  "plain_action a \<longleftrightarrow> a \<noteq> Action_Call store_addr"

definition action_read :: "Action \<Rightarrow> Action" where
  "action_read a = (if plain_action a then a else Action_Store)"

lemma Action_decode_append [rlp_simps]: "rlp_ok R \<Longrightarrow> Action_decode R (Action_append R a) = Ok (action_read a)"
  by (cases a) (simp_all add: Action_decode_def Action_append_def action_read_def plain_action_def rlp_simps)

lemma CryptoType_decode_append [rlp_simps]: "rlp_ok R \<Longrightarrow> CryptoType_decode R (CryptoType_append R c) = Ok c"
  by (cases c) (simp_all add: CryptoType_decode_def CryptoType_append_def rlp_simps)

lemma Transaction_decode_append [rlp_simps]:
  "rlp_ok R \<Longrightarrow> Transaction_decode R (Transaction_append R t) = Ok (t\<lparr>tx_action := action_read (tx_action t)\<rparr>)"
  by (simp add: Transaction_decode_def Transaction_append_def rlp_simps)

lemma SignedTransaction_decode_append:
  "rlp_ok R \<Longrightarrow> SignedTransaction_decode C R (SignedTransaction_append R t) =
     Ok (t\<lparr>tx_action := action_read (tx_action t), tx_sender := pubkey_to_address C (tx_public t)\<rparr>)"
  by (simp add: SignedTransaction_decode_def SignedTransaction_append_def rlp_simps)

interpretation transaction: codec "Transaction_append R" "Transaction_decode R"
    "\<lambda>t. rlp_ok R \<and> plain_action (tx_action t)" for R :: "'r Rlp"
  by unfold_locales (simp add: rlp_simps action_read_def)

interpretation unverified_tx: codec "UnverifiedTransaction_append R" "UnverifiedTransaction_decode R"
    "\<lambda>t. rlp_ok R \<and> plain_action (tx_action t)" for R :: "'r Rlp"
  by unfold_locales
    (simp add: UnverifiedTransaction_append_def UnverifiedTransaction_decode_def rlp_simps action_read_def
      unsigned_tx_def unverified_def)

interpretation signed_tx: codec "SignedTransaction_append R" "SignedTransaction_decode C R"
    "\<lambda>t. rlp_ok R \<and> plain_action (tx_action t) \<and> tx_sender t = pubkey_to_address C (tx_public t)" for C and R :: "'r Rlp"
  by unfold_locales (simp add: SignedTransaction_decode_append action_read_def)

lemma h512_roundtrip [simp]: "h512_from_slice (h512_to_vec h) = h" "length (h512_to_vec h) = 64"
proof -
  have "unat h < 256 ^ 64" using unsigned_less [of h] by simp
  then show "h512_from_slice (h512_to_vec h) = h" by (simp add: h512_from_slice_def h512_to_vec_def be_nat_nat_be)
qed (simp add: h512_to_vec_def)

lemma address_hex_store: "crypto_ok C \<Longrightarrow> address_hex C a = STORE_ADDRESS \<longleftrightarrow> a = store_addr"
  unfolding crypto_ok_def by (metis option.inject)

lemma Transaction_new_proto:
  assumes "crypto_ok C" "unat (tx_gas_limit t) < 2 ^ 64"
  shows "res_bind (proto_transaction C t) (Transaction_new C) =
    Ok (t\<lparr>tx_gas_price := 0, tx_value := 0, tx_action := action_read (tx_action t)\<rparr>)"
proof -
  have g: "ucast (ucast (tx_gas_limit t) :: u64) = tx_gas_limit t"
    using unat_ucast_up [where 'b = 256, of "ucast (tx_gas_limit t) :: u64"] low_u64_small [OF assms(2)]
    by (simp only: word_unat_eq_iff low_u64_def) simp
  have "STORE_ADDRESS \<noteq> []" "address_hex C a \<noteq> []" "address_from_str C (address_hex C a) = Some a" for a
    using assms(1) by (auto simp: crypto_ok_def STORE_ADDRESS_def)
  then show ?thesis using assms address_hex_store [OF assms(1)] g
    by (cases "tx_action t")
      (simp_all add: proto_transaction_def Transaction_new_def as_u64_def action_read_def plain_action_def del: res_bind_eq_Ok)
qed

lemma SignedTransaction_new_protobuf:
  assumes "crypto_ok C" "unat (tx_gas_limit t) < 2 ^ 64" "length (tx_signature t) = signature_bytes_len C"
  shows "res_bind (SignedTransaction_protobuf C t) (SignedTransaction_new C) =
    Ok (t\<lparr>tx_gas_price := 0, tx_value := 0, tx_action := action_read (tx_action t),
         tx_sender := pubkey_to_address C (tx_public t), tx_account_nonce := 0\<rparr>)"
proof -
  obtain p where p: "proto_transaction C (unsigned_tx t) = Ok p"
    using assms(2) by (auto simp: proto_transaction_def as_u64_def unsigned_tx_def)
  have n: "Transaction_new C p = Ok ((unsigned_tx t)\<lparr>tx_gas_price := 0, tx_value := 0, tx_action := action_read (tx_action t)\<rparr>)"
    using Transaction_new_proto [OF assms(1), of "unsigned_tx t"] assms(2) p by (simp add: unsigned_tx_def)
  show ?thesis using assms(3)
    by (cases "tx_crypto_type t")
      (simp_all add: SignedTransaction_protobuf_def proto_unverified_def p [unfolded unsigned_tx_def] SignedTransaction_new_def
        UnverifiedTransaction_new_def n Let_def signed_def unverified_def unsigned_tx_def del: res_bind_eq_Ok)
qed

end
