(* ===== verification/Executive.thy ===== *)
theory Executive
  imports Externalities Transactions
begin

text \<open>
  The executive (\<^verbatim>\<open>cita-executor/core/src/executive.rs\<close>): a call, a create, the run of the virtual
  machine between them, and a transaction around them, with the built-in contracts
  (\<^verbatim>\<open>builtin.rs\<close>, \<^verbatim>\<open>engines/mod.rs\<close>) and the native ones (\<^verbatim>\<open>native/mod.rs\<close>). The executive and the
  virtual machine call each other; \<open>executive n\<close> is their composition to the depth \<open>n\<close>, and
  \<open>Diverge\<close> below it.
\<close>

section \<open>Results as values\<close>

text \<open>\<open>let res = ...; match res\<close>: an error becomes a value, a panic stays one.\<close>

definition sm_try :: "('s, 'x, 'a) sm \<Rightarrow> ('s, 'x, 'x + 'a) sm" where
  "sm_try m s = (case m s of
     (Ok a, s') \<Rightarrow> (Ok (Inr a), s') | (Err e, s') \<Rightarrow> (Ok (Inl e), s')
   | (Panic, s') \<Rightarrow> (Panic, s') | (Diverge, s') \<Rightarrow> (Diverge, s'))"

definition of_try :: "'x + 'a \<Rightarrow> ('x, 'a) res" where
  "of_try r = (case r of Inl e \<Rightarrow> Err e | Inr a \<Rightarrow> Ok a)"

lemma wp_try [wp_rules]: "wp (sm_try m) Q E s = wp m (\<lambda>a. Q (Inr a)) (\<lambda>e. Q (Inl e)) s"
  by (auto simp: wp_def sm_try_def split: prod.splits res.splits)

section \<open>Built-in and native contracts\<close>

text \<open>A built-in has a linear price and an implementation, which is a parameter.\<close>

record Builtin =
  bi_base :: usize
  bi_word :: usize
  bi_native :: "bytes \<Rightarrow> BytesRef \<Rightarrow> BytesRef evm_result"

definition Linear_cost :: "usize \<Rightarrow> usize \<Rightarrow> usize \<Rightarrow> u256 evm_result" where
  "Linear_cost base word in_size =
     res_bind (plus_chk in_size 31) (\<lambda>n.
     res_bind (times_chk (ucast word) (ucast (n div 32))) (\<lambda>w. plus_chk (ucast base) w))"

definition Builtin_cost :: "Builtin \<Rightarrow> usize \<Rightarrow> u256 evm_result" where
  "Builtin_cost b s = Linear_cost (bi_base b) (bi_word b) s"

definition is_builtin :: "(address \<times> Builtin) list \<Rightarrow> address \<Rightarrow> bool" where
  "is_builtin builtins a \<longleftrightarrow> map_of builtins a \<noteq> None"

definition cost_of_builtin :: "(address \<times> Builtin) list \<Rightarrow> address \<Rightarrow> bytes \<Rightarrow> u256 evm_result" where
  "cost_of_builtin builtins a input =
     res_bind (expect (map_of builtins a)) (\<lambda>b. Builtin_cost b (of_nat (length input)))"

definition execute_builtin ::
  "(address \<times> Builtin) list \<Rightarrow> address \<Rightarrow> bytes \<Rightarrow> BytesRef \<Rightarrow> BytesRef evm_result" where
  "execute_builtin builtins a input output =
     res_bind (expect (map_of builtins a)) (\<lambda>b. bi_native b input output)"

text \<open>A native contract is code over the externalities; it runs with tracers that do nothing.\<close>

type_synonym ('d, 'l) native =
  "ActionParams \<Rightarrow> ('d, 'l, unit, unit) Ex Ext \<Rightarrow> (('d, 'l, unit, unit) Ex, evm_error, GasLeft) sm"

definition native_new_contract ::
  "(address \<times> ('d, 'l) native) list \<Rightarrow> address \<Rightarrow> ('d, 'l) native option" where
  "native_new_contract contracts address = map_of contracts address"

definition native_register ::
  "address \<Rightarrow> ('d, 'l) native \<Rightarrow> (address \<times> ('d, 'l) native) list \<Rightarrow> (address \<times> ('d, 'l) native) list" where
  "native_register address contract contracts = AList.update address contract contracts"

definition native_unregister ::
  "address \<Rightarrow> (address \<times> ('d, 'l) native) list \<Rightarrow> (address \<times> ('d, 'l) native) list" where
  "native_unregister address contracts = AList.delete address contracts"

section \<open>The executive\<close>

text \<open>What an executive refers to: the libraries, the block, the engine, the native contracts, and of
  the virtual machine its hash function and its lookup of jump destinations. The depth threshold
  is \<open>LOCAL_STACK_SIZE / STACK_SIZE_PER_DEPTH\<close>.\<close>

record ('d, 'm, 'l) Env =
  env_libs :: "('d, 'm, 'l) Libs"
  env_info :: EnvInfo
  env_builtins :: "(address \<times> Builtin) list"
  env_native :: "(address \<times> ('d, 'l) native) list"
  env_sha3 :: "bytes \<Rightarrow> h256"
  env_jumps :: "h256 \<Rightarrow> bytes \<Rightarrow> nat set evm_result"
  env_depth_threshold :: nat

text \<open>\<open>impl Finalize for Result<GasLeft>\<close>.\<close>

definition finalize_run ::
  "('d, 'm, 'l) Libs \<Rightarrow> OriginInfo \<Rightarrow> GasLeft \<Rightarrow> (OutputPolicy \<times> ('d, 'l, 't, 'v) Ex, evm_error, u256) sm" where
  "finalize_run L origin r = (case r of Known gas \<Rightarrow> sm_ret gas | NeedsReturn gas ret_code \<Rightarrow> ext_ret L origin gas ret_code)"

definition on_ex :: "('e, 'x, 'a) sm \<Rightarrow> ('o \<times> 'e, 'x, 'a) sm" where
  "on_ex f = (\<lambda>(o', e). case f e of (r, e') \<Rightarrow> (r, (o', e')))"

text \<open>The run of the virtual machine. Every \<open>depth_threshold\<close> levels it is moved to a thread of its
  own, with the same result.\<close>

definition exec_vm ::
  "('d, 'm, 'l) Env \<Rightarrow> 't Tracer \<Rightarrow> 'v VMTracer \<Rightarrow> nat \<Rightarrow> ('d, 'l, 't, 'v) executive_call \<Rightarrow>
   ('d, 'l, 't, 'v) executive_create \<Rightarrow> ActionParams \<Rightarrow>
   (OutputPolicy \<times> ('d, 'l, 't, 'v) Ex, evm_error, u256) sm" where
  "exec_vm E T V depth ex_call ex_create params =
     (let origin = OriginInfo_from params;
          ext = Externalities_new (env_libs E) T V (env_info E) depth origin ex_call ex_create in
      sm_bind (sm_lift (rust_assert (env_depth_threshold E \<noteq> 0))) (\<lambda>_.
      sm_bind (on_ex (factory_exec ext (env_sha3 E) (env_jumps E) params))
        (finalize_run (env_libs E) origin)))"

definition enact_result ::
  "('d, 'm, 'l) Libs \<Rightarrow> evm_error + u256 \<Rightarrow> Substate \<Rightarrow> (('d, 'l, 't, 'v) Ex, evm_error, unit) sm" where
  "enact_result L result un_substate =
     (let keep = (\<lambda>ex. case accrue un_substate (ex_substate ex) of
                     (r, sub) \<Rightarrow> (r, ex\<lparr>ex_state := discard_checkpoint (ex_state ex), ex_substate := sub\<rparr>));
          undo = sm_modify (\<lambda>ex. ex\<lparr>ex_state := revert_to_checkpoint L (ex_state ex)\<rparr>) in
      case result of
        Inl OutOfGas \<Rightarrow> undo
      | Inl (BadJumpDestination _) \<Rightarrow> undo
      | Inl (BadInstruction _) \<Rightarrow> undo
      | Inl (StackUnderflow _ _ _) \<Rightarrow> undo
      | Inl (OutOfStack _ _ _) \<Rightarrow> undo
      | Inr _ \<Rightarrow> keep
      | Inl (Internal _) \<Rightarrow> keep)"

text \<open>A nested frame: it starts with an empty substate and the tracers given, and its caller gets back
  the result, the output, the substate and the tracers.\<close>

definition sub_frame ::
  "'t2 \<Rightarrow> 'v2 \<Rightarrow> (OutputPolicy \<times> ('d, 'l, 't2, 'v2) Ex, evm_error, u256) sm \<Rightarrow> OutputPolicy \<Rightarrow>
   (('d, 'l, 't, 'v) Ex, evm_error, (evm_error + u256) \<times> OutputPolicy \<times> Substate \<times> 't2 \<times> 'v2) sm" where
  "sub_frame t v run policy = (\<lambda>ex.
     case sm_try run (policy, \<lparr>ex_state = ex_state ex, ex_substate = Substate_new,
                               ex_tracer = t, ex_vm_tracer = v\<rparr>) of
       (r, (policy', ex')) \<Rightarrow>
         (res_map (\<lambda>res. (res, policy', ex_substate ex', ex_tracer ex', ex_vm_tracer ex')) r,
          ex\<lparr>ex_state := ex_state ex'\<rparr>))"

definition on_tracer :: "('t, 'x, 'a) sm \<Rightarrow> (('d, 'l, 't, 'v) Ex, 'x, 'a) sm" where
  "on_tracer f = (\<lambda>ex. case f (ex_tracer ex) of (r, t) \<Rightarrow> (r, ex\<lparr>ex_tracer := t\<rparr>))"

definition with_state :: "(('d, 'l) State \<Rightarrow> ('d, 'l) State) \<Rightarrow> (('d, 'l, 't, 'v) Ex, 'x, unit) sm" where
  "with_state f = sm_modify (\<lambda>ex. ex\<lparr>ex_state := f (ex_state ex)\<rparr>)"

primrec op_output :: "OutputPolicy \<Rightarrow> BytesRef \<Rightarrow> BytesRef" where
  "op_output (OP_Return out copy) old = out"
| "op_output (OP_InitContract copy) old = old"

primrec op_copy :: "OutputPolicy \<Rightarrow> bytes option" where
  "op_copy (OP_Return out copy) = copy"
| "op_copy (OP_InitContract copy) = copy"

text \<open>The traces of a frame that has ended, and the end of the checkpoint.\<close>

definition trace_call_result ::
  "'t Tracer \<Rightarrow> TraceCall option \<Rightarrow> u256 \<Rightarrow> evm_error + u256 \<Rightarrow> bytes option \<Rightarrow> FlatTrace list \<Rightarrow>
   (('d, 'l, 't, 'v) Ex, evm_error, unit) sm" where
  "trace_call_result T trace_info gas res trace_output traces =
     (case res of
        Inr gas_left \<Rightarrow> sm_bind (sm_lift (minus_chk gas gas_left)) (\<lambda>used.
          on_tracer (tr_trace_call T trace_info used trace_output traces))
      | Inl e \<Rightarrow> on_tracer (tr_trace_failed_call T trace_info traces (TraceError_from e)))"

definition trace_create_result ::
  "'t Tracer \<Rightarrow> TraceCreate option \<Rightarrow> u256 \<Rightarrow> evm_error + u256 \<Rightarrow> bytes option \<Rightarrow> address \<Rightarrow> FlatTrace list \<Rightarrow>
   (('d, 'l, 't, 'v) Ex, evm_error, unit) sm" where
  "trace_create_result T trace_info gas res trace_output created traces =
     (case res of
        Inr gas_left \<Rightarrow> sm_bind (sm_lift (minus_chk gas gas_left)) (\<lambda>used.
          on_tracer (tr_trace_create T trace_info used trace_output created traces))
      | Inl e \<Rightarrow> on_tracer (tr_trace_failed_create T trace_info traces (TraceError_from e)))"

text \<open>\<open>call\<close>, after its checkpoint: a native contract, where the gas covers its price.\<close>

definition call_native ::
  "('d, 'm, 'l) Env \<Rightarrow> 't Tracer \<Rightarrow> nat \<Rightarrow> ('d, 'l, unit, unit) executive_call \<Rightarrow>
   ('d, 'l, unit, unit) executive_create \<Rightarrow> ('d, 'l) native \<Rightarrow> ActionParams \<Rightarrow> BytesRef \<Rightarrow>
   (('d, 'l, 't, 'v) Ex, evm_error, (evm_error + u256) \<times> BytesRef) sm" where
  "call_native E T depth n_call n_create contract params output =
     (let origin = OriginInfo_from params;
          ext = Externalities_new (env_libs E) noop_tracer noop_vm_tracer (env_info E) depth origin n_call n_create in
      sm_bind (sm_get (\<lambda>ex. tr_prepare_trace_output T (ex_tracer ex))) (\<lambda>trace_output.
      sm_bind (sub_frame () () (sm_bind (on_ex (contract params ext)) (finalize_run (env_libs E) origin))
                 (OP_Return output trace_output)) (\<lambda>(res, policy, sub, _, _).
      sm_bind (enact_result (env_libs E) res sub) (\<lambda>_.
      sm_ret (res, op_output policy output)))))"

text \<open>A built-in contract.\<close>

definition call_builtin ::
  "('d, 'm, 'l) Env \<Rightarrow> 't Tracer \<Rightarrow> nat \<Rightarrow> ActionParams \<Rightarrow> BytesRef \<Rightarrow>
   (('d, 'l, 't, 'v) Ex, evm_error, (evm_error + u256) \<times> BytesRef) sm" where
  "call_builtin E T depth params output =
     (let data = (case ap_data params of Some d \<Rightarrow> d | None \<Rightarrow> []) in
      sm_bind (sm_get (\<lambda>ex. tr_prepare_trace_call T (ex_tracer ex) params)) (\<lambda>trace_info.
      sm_bind (sm_lift (cost_of_builtin (env_builtins E) (ap_code_address params) data)) (\<lambda>cost.
      if cost \<le> ap_gas params then
        sm_bind (sm_lift (execute_builtin (env_builtins E) (ap_code_address params) data output)) (\<lambda>output'.
        sm_bind (with_state discard_checkpoint) (\<lambda>_.
        sm_bind (if depth = 0 then
                   sm_bind (sm_get (\<lambda>ex. tr_prepare_trace_output T (ex_tracer ex))) (\<lambda>trace_output.
                   on_tracer (tr_trace_call T trace_info cost
                     (map_option (\<lambda>_. bytes_of output') trace_output) []))
                 else sm_ret ()) (\<lambda>_.
        sm_bind (sm_lift (minus_chk (ap_gas params) cost)) (\<lambda>gas_left.
        sm_ret (Inr gas_left, output')))))
      else
        sm_bind (with_state (revert_to_checkpoint (env_libs E))) (\<lambda>_.
        sm_bind (on_tracer (tr_trace_failed_call T trace_info [] (TraceError_from OutOfGas))) (\<lambda>_.
        sm_ret (Inl OutOfGas, output))))))"

text \<open>The code of the account, or none: then nothing happens.\<close>

definition call_code ::
  "('d, 'm, 'l) Env \<Rightarrow> 't Tracer \<Rightarrow> 'v VMTracer \<Rightarrow> nat \<Rightarrow> ('d, 'l, 't, 'v) executive_call \<Rightarrow>
   ('d, 'l, 't, 'v) executive_create \<Rightarrow> ActionParams \<Rightarrow> BytesRef \<Rightarrow>
   (('d, 'l, 't, 'v) Ex, evm_error, (evm_error + u256) \<times> BytesRef) sm" where
  "call_code E T V depth ex_call ex_create params output =
     sm_bind (sm_get (\<lambda>ex. tr_prepare_trace_call T (ex_tracer ex) params)) (\<lambda>trace_info.
     sm_bind (sm_get (\<lambda>ex. tr_prepare_trace_output T (ex_tracer ex))) (\<lambda>trace_output.
     sm_bind (sm_get (\<lambda>ex. tr_subtracer T (ex_tracer ex))) (\<lambda>subtracer.
     let gas = ap_gas params in
     case ap_code params of
       Some code \<Rightarrow>
         sm_bind (\<lambda>ex. (vm_prepare_subtrace V (ex_vm_tracer ex) code, ex)) (\<lambda>subvmtracer.
         sm_bind (sub_frame subtracer subvmtracer (exec_vm E T V depth ex_call ex_create params)
                    (OP_Return output trace_output)) (\<lambda>(res, policy, sub, subtracer', subvmtracer').
         sm_bind (sm_modify (\<lambda>ex. ex\<lparr>ex_vm_tracer := vm_done_subtrace V subvmtracer' (ex_vm_tracer ex)\<rparr>)) (\<lambda>_.
         sm_bind (trace_call_result T trace_info gas res (op_copy policy) (tr_traces T subtracer')) (\<lambda>_.
         sm_bind (enact_result (env_libs E) res sub) (\<lambda>_.
         sm_ret (res, op_output policy output))))))
     | None \<Rightarrow>
         sm_bind (with_state discard_checkpoint) (\<lambda>_.
         sm_bind (on_tracer (tr_trace_call T trace_info 0 trace_output [])) (\<lambda>_.
         sm_ret (Inr gas, output))))))"

definition Executive_call ::
  "('d, 'm, 'l) Env \<Rightarrow> 't Tracer \<Rightarrow> 'v VMTracer \<Rightarrow> nat \<Rightarrow> ('d, 'l, 't, 'v) executive_call \<Rightarrow>
   ('d, 'l, 't, 'v) executive_create \<Rightarrow> ('d, 'l, unit, unit) executive_call \<Rightarrow>
   ('d, 'l, unit, unit) executive_create \<Rightarrow> ('d, 'l, 't, 'v) executive_call" where
  "Executive_call E T V depth ex_call ex_create n_call n_create params = (\<lambda>(output, ex).
     case sm_bind (with_state checkpoint) (\<lambda>_.
          case native_new_contract (env_native E) (ap_code_address params) of
            Some contract \<Rightarrow>
              if 100 \<le> ap_gas params then call_native E T depth n_call n_create contract params output
              else if is_builtin (env_builtins E) (ap_code_address params)
              then call_builtin E T depth params output
              else call_code E T V depth ex_call ex_create params output
          | None \<Rightarrow>
              if is_builtin (env_builtins E) (ap_code_address params)
              then call_builtin E T depth params output
              else call_code E T V depth ex_call ex_create params output) ex of
       (Ok (res, output'), ex') \<Rightarrow> (of_try res, (output', ex'))
     | (Err e, ex') \<Rightarrow> (Err e, (output, ex'))
     | (Panic, ex') \<Rightarrow> (Panic, (output, ex')) | (Diverge, ex') \<Rightarrow> (Diverge, (output, ex')))"

definition Executive_create ::
  "('d, 'm, 'l) Env \<Rightarrow> 't Tracer \<Rightarrow> 'v VMTracer \<Rightarrow> nat \<Rightarrow> ('d, 'l, 't, 'v) executive_call \<Rightarrow>
   ('d, 'l, 't, 'v) executive_create \<Rightarrow> ('d, 'l, 't, 'v) executive_create" where
  "Executive_create E T V depth ex_call ex_create params =
     sm_bind (with_state checkpoint) (\<lambda>_.
     sm_bind (\<lambda>ex. case on_state (State_new_contract (env_libs E) (ap_address params) 0) ex of
                      (r, ex') \<Rightarrow> (from_trie r, ex')) (\<lambda>_.
     sm_bind (sm_get (\<lambda>ex. tr_prepare_trace_create T (ex_tracer ex) params)) (\<lambda>trace_info.
     sm_bind (sm_get (\<lambda>ex. tr_prepare_trace_output T (ex_tracer ex))) (\<lambda>trace_output.
     sm_bind (sm_get (\<lambda>ex. tr_subtracer T (ex_tracer ex))) (\<lambda>subtracer.
     let gas = ap_gas params; created = ap_address params in
     sm_bind (sm_lift (expect (ap_code params))) (\<lambda>code.
     sm_bind (\<lambda>ex. (vm_prepare_subtrace V (ex_vm_tracer ex) code, ex)) (\<lambda>subvmtracer.
     sm_bind (sub_frame subtracer subvmtracer (exec_vm E T V depth ex_call ex_create params)
                (OP_InitContract trace_output)) (\<lambda>(res, policy, sub, subtracer', subvmtracer').
     sm_bind (sm_modify (\<lambda>ex. ex\<lparr>ex_vm_tracer := vm_done_subtrace V subvmtracer' (ex_vm_tracer ex)\<rparr>)) (\<lambda>_.
     sm_bind (trace_create_result T trace_info gas res (op_copy policy) created (tr_traces T subtracer')) (\<lambda>_.
     sm_bind (enact_result (env_libs E) res sub) (\<lambda>_.
     sm_lift (of_try res))))))))))))"

text \<open>The executive at a depth, with \<open>n\<close> levels below it. The native contracts run in an executive
  without tracers.\<close>

primrec noop_executive ::
  "nat \<Rightarrow> ('d, 'm, 'l) Env \<Rightarrow> nat \<Rightarrow>
   ('d, 'l, unit, unit) executive_call \<times> ('d, 'l, unit, unit) executive_create" where
  "noop_executive 0 E depth = (\<lambda>_. sm_lift Diverge, \<lambda>_. sm_lift Diverge)"
| "noop_executive (Suc n) E depth =
     (let (c, k) = noop_executive n E (depth + 1) in
      (Executive_call E noop_tracer noop_vm_tracer depth c k c k,
       Executive_create E noop_tracer noop_vm_tracer depth c k))"

primrec executive ::
  "nat \<Rightarrow> ('d, 'm, 'l) Env \<Rightarrow> 't Tracer \<Rightarrow> 'v VMTracer \<Rightarrow> nat \<Rightarrow>
   ('d, 'l, 't, 'v) executive_call \<times> ('d, 'l, 't, 'v) executive_create" where
  "executive 0 E T V depth = (\<lambda>_. sm_lift Diverge, \<lambda>_. sm_lift Diverge)"
| "executive (Suc n) E T V depth =
     (let (c, k) = executive n E T V (depth + 1); (nc, nk) = noop_executive n E (depth + 1) in
      (Executive_call E T V depth c k nc nk, Executive_create E T V depth c k))"

section \<open>Transactions\<close>

record TransactOptions =
  to_tracing :: bool
  to_vm_tracing :: bool
  to_check_permission :: bool
  to_check_quota :: bool

datatype ExecutionError =
  NotEnoughBaseGas u256 u256
| BlockGasLimitReached u256 u256 u256
| AccountGasLimitReached u256 u256
| InvalidNonce u256 u256
| NotEnoughCash u512 u512
| NoTransactionPermission
| NoContractPermission
| EE_Internal string
| TransactionMalformed string

record Executed =
  xd_exception :: "evm_error option"
  xd_gas :: u256
  xd_gas_used :: u256
  xd_refunded :: u256
  xd_cumulative_gas_used :: u256
  xd_logs :: "LogEntry list"
  xd_contracts_created :: "address list"
  xd_output :: bytes
  xd_trace :: "FlatTrace list"
  xd_vm_trace :: "VMTrace option"

text \<open>The conversions of the operator \<open>?\<close>, and an \<open>evm::Result\<close> in a function that cannot fail
  with it.\<close>

primrec of_trie :: "'a trie_result \<Rightarrow> (ExecutionError, 'a) res" where
  "of_trie (Ok a) = Ok a"
| "of_trie (Err e) = Err (EE_Internal e)"
| "of_trie Panic = Panic"
| "of_trie Diverge = Diverge"

definition tx_state :: "(('d, 'l) State, string, 'a) sm \<Rightarrow> (('d, 'l, 't, 'v) Ex, ExecutionError, 'a) sm" where
  "tx_state f ex = (case on_state f ex of (r, ex') \<Rightarrow> (of_trie r, ex'))"

text \<open>The loop over the accounts marked for garbage collection.\<close>

primrec collect_garbage ::
  "('d, 'm, 'l) Libs \<Rightarrow> address list \<Rightarrow> (('d, 'l) State, string, unit) sm" where
  "collect_garbage L [] = sm_ret ()"
| "collect_garbage L (a # rest) =
     sm_bind (State_exists L a) (\<lambda>ex.
     sm_bind (if ex then State_exists_and_not_null L a else sm_ret True) (\<lambda>nn.
     sm_bind (if ex \<and> \<not> nn then sm_modify (kill_account a) else sm_ret ()) (\<lambda>_.
     collect_garbage L rest)))"

text \<open>The gas accounting of \<open>finalize\<close>: what is refunded and what is used.\<close>

definition finalize_gas :: "SignedTransaction \<Rightarrow> Substate \<Rightarrow> u256 \<Rightarrow> (ExecutionError, u256 \<times> u256) res" where
  "finalize_gas t substate gas_left_prerefund =
     (let schedule = new_frontier in
      res_bind (times_chk (of_nat (sstore_refund_gas schedule)) (sub_sstore_clears_count substate)) (\<lambda>sstore_refunds.
      res_bind (times_chk (of_nat (suicide_refund_gas schedule)) (of_nat (length (sub_suicides substate)))) (\<lambda>suicide_refunds.
      res_bind (plus_chk sstore_refunds suicide_refunds) (\<lambda>refunds_bound.
      res_bind (minus_chk (tx_gas_limit t) gas_left_prerefund) (\<lambda>spent.
      let refunded = min refunds_bound (drop_bit 1 spent) in
      res_bind (plus_chk gas_left_prerefund refunded) (\<lambda>gas_left.
      res_bind (minus_chk (tx_gas_limit t) gas_left) (\<lambda>gas_used.
      res_bind (times_chk gas_left (tx_gas_price t)) (\<lambda>refund_value.
      res_bind (times_chk gas_used (tx_gas_price t)) (\<lambda>fees_value.
      Ok (refunded, gas_used))))))))))"

definition Executive_finalize ::
  "('d, 'm, 'l) Env \<Rightarrow> SignedTransaction \<Rightarrow> Substate \<Rightarrow> evm_error + u256 \<Rightarrow> bytes \<Rightarrow> FlatTrace list \<Rightarrow>
   VMTrace option \<Rightarrow> (('d, 'l, 't, 'v) Ex, ExecutionError, Executed) sm" where
  "Executive_finalize E t substate result output trace vm_trace =
     (let gas_left_prerefund = (case result of Inr x \<Rightarrow> x | Inl _ \<Rightarrow> 0) in
      sm_bind (sm_lift (finalize_gas t substate gas_left_prerefund)) (\<lambda>(refunded, gas_used).
      sm_bind (with_state (fold kill_account (sub_suicides substate))) (\<lambda>_.
      sm_bind (tx_state (collect_garbage (env_libs E) (sub_garbage substate))) (\<lambda>_.
      case result of
        Inl (Internal msg) \<Rightarrow> sm_err (EE_Internal msg)
      | Inl exception \<Rightarrow>
          sm_bind (sm_lift (plus_chk (ei_gas_used (env_info E)) (tx_gas_limit t))) (\<lambda>cumulative.
          sm_ret \<lparr>xd_exception = Some exception, xd_gas = tx_gas_limit t, xd_gas_used = tx_gas_limit t,
            xd_refunded = 0, xd_cumulative_gas_used = cumulative, xd_logs = [],
            xd_contracts_created = [], xd_output = output, xd_trace = trace, xd_vm_trace = vm_trace\<rparr>)
      | Inr _ \<Rightarrow>
          sm_bind (sm_lift (plus_chk (ei_gas_used (env_info E)) gas_used)) (\<lambda>cumulative.
          sm_ret \<lparr>xd_exception = None, xd_gas = tx_gas_limit t, xd_gas_used = gas_used,
            xd_refunded = refunded, xd_cumulative_gas_used = cumulative, xd_logs = sub_logs substate,
            xd_contracts_created = sub_contracts_created substate, xd_output = output, xd_trace = trace,
            xd_vm_trace = vm_trace\<rparr>)))))"

definition check_permission :: "('d, 'l) State \<Rightarrow> TransactOptions \<Rightarrow> SignedTransaction \<Rightarrow> (ExecutionError, unit) res" where
  "check_permission state options t =
     (if to_check_permission options then
        (case tx_action t of
           Action_Create \<Rightarrow>
             if tx_sender t \<noteq> 0 \<and> tx_sender t \<notin> st_creators state then Err NoContractPermission else Ok ()
         | _ \<Rightarrow>
             if tx_sender t \<noteq> 0 \<and> tx_sender t \<notin> st_senders state \<and> tx_sender t \<notin> st_creators state
             then Err NoTransactionPermission else Ok ())
      else Ok ())"

definition base_gas_required :: u256 where
  "base_gas_required = 100"

definition check_base_gas :: "SignedTransaction \<Rightarrow> (ExecutionError, unit) res" where
  "check_base_gas t =
     (if tx_sender t \<noteq> 0 \<and> tx_action t \<noteq> Action_Store \<and> tx_gas_limit t < base_gas_required
      then Err (NotEnoughBaseGas base_gas_required (tx_gas_limit t)) else Ok ())"

definition check_quota :: "EnvInfo \<Rightarrow> TransactOptions \<Rightarrow> SignedTransaction \<Rightarrow> (ExecutionError, unit) res" where
  "check_quota info options t =
     (if to_check_quota options \<and> tx_sender t \<noteq> 0 then
        res_bind (plus_chk (ei_gas_used info) (tx_gas_limit t)) (\<lambda>total.
        if ei_gas_limit info < total
        then Err (BlockGasLimitReached (ei_gas_limit info) (ei_gas_used info) (tx_gas_limit t))
        else if ei_account_gas_limit info < tx_gas_limit t
        then Err (AccountGasLimitReached (ei_account_gas_limit info) (tx_gas_limit t))
        else Ok ())
      else Ok ())"

text \<open>An \<open>evm::Result\<close> as a value inside \<open>transact\<close>, which fails with errors of its own.\<close>

definition evm_value :: "('s, evm_error, 'a) sm \<Rightarrow> ('s, ExecutionError, evm_error + 'a) sm" where
  "evm_value m = (\<lambda>s. case m s of
     (Ok a, s') \<Rightarrow> (Ok (Inr a), s') | (Err e, s') \<Rightarrow> (Ok (Inl e), s')
   | (Panic, s') \<Rightarrow> (Panic, s') | (Diverge, s') \<Rightarrow> (Diverge, s'))"

definition run_create ::
  "('d, 'm, 'l) Env \<Rightarrow> ('d, 'l, 't, 'v) executive_create \<Rightarrow> SignedTransaction \<Rightarrow> u256 \<Rightarrow>
   (('d, 'l, 't, 'v) Ex, ExecutionError, (evm_error + u256) \<times> bytes) sm" where
  "run_create E ex_create t nonce =
     (let new_address = contract_address (env_libs E) (tx_sender t) nonce in
      sm_bind (sm_lift (minus_chk (tx_gas_limit t) base_gas_required)) (\<lambda>gas.
      sm_bind (evm_value (ex_create \<lparr>ap_code_address = new_address,
          ap_code_hash = crypt_hash (env_libs E) (tx_data t), ap_address = new_address,
          ap_sender = tx_sender t, ap_origin = tx_sender t, ap_gas = gas, ap_gas_price = tx_gas_price t,
          ap_value = Transfer (tx_value t), ap_code = Some (tx_data t), ap_data = None,
          ap_call_type = CT_None\<rparr>)) (\<lambda>res. sm_ret (res, []))))"

definition run_call ::
  "('d, 'm, 'l) Env \<Rightarrow> ('d, 'l, 't, 'v) executive_call \<Rightarrow> SignedTransaction \<Rightarrow> address \<Rightarrow>
   (('d, 'l, 't, 'v) Ex, ExecutionError, (evm_error + u256) \<times> bytes) sm" where
  "run_call E ex_call t address =
     sm_bind (sm_lift (minus_chk (tx_gas_limit t) base_gas_required)) (\<lambda>gas.
     sm_bind (tx_state (State_code (env_libs E) address)) (\<lambda>code.
     sm_bind (tx_state (State_code_hash (env_libs E) address)) (\<lambda>code_hash.
     let params = \<lparr>ap_code_address = address, ap_code_hash = code_hash, ap_address = address,
          ap_sender = tx_sender t, ap_origin = tx_sender t, ap_gas = gas, ap_gas_price = tx_gas_price t,
          ap_value = Transfer (tx_value t), ap_code = code, ap_data = Some (tx_data t),
          ap_call_type = CT_Call\<rparr> in
     (\<lambda>ex. case evm_value (ex_call params) (Flexible [], ex) of
              (r, (out, ex')) \<Rightarrow> (res_map (\<lambda>res. (res, bytes_of out)) r, ex')))))"

text \<open>\<open>transact_with_tracer\<close>, with \<open>n\<close> levels of calls. The transaction itself is changed too: it
  is given the nonce of the account.\<close>

definition transact_with_tracer ::
  "nat \<Rightarrow> ('d, 'm, 'l) Env \<Rightarrow> 't Tracer \<Rightarrow> 'v VMTracer \<Rightarrow> TransactOptions \<Rightarrow>
   (SignedTransaction \<times> ('d, 'l, 't, 'v) Ex, ExecutionError, Executed) sm" where
  "transact_with_tracer n E T V options =
     sm_bind (sm_get fst) (\<lambda>t.
     sm_bind (on_ex (tx_state (State_nonce (env_libs E) (tx_sender t)))) (\<lambda>nonce.
     sm_bind (on_ex (tx_state (State_inc_nonce (env_libs E) (tx_sender t)))) (\<lambda>_.
     sm_bind (sm_get (ex_state \<circ> snd)) (\<lambda>state.
     sm_bind (sm_lift (check_permission state options t)) (\<lambda>_.
     sm_bind (sm_lift (check_base_gas t)) (\<lambda>_.
     sm_bind (sm_modify (\<lambda>(t, ex). (t\<lparr>tx_account_nonce := nonce\<rparr>, ex))) (\<lambda>_.
     sm_bind (sm_lift (check_quota (env_info E) options t)) (\<lambda>_.
     sm_bind (on_ex (case tx_action t of
                Action_Store \<Rightarrow> sm_ret (Inr (tx_gas_limit t), [])
              | Action_Create \<Rightarrow> run_create E (snd (executive n E T V 0)) t nonce
              | Action_Call address \<Rightarrow> run_call E (fst (executive n E T V 0)) t address)) (\<lambda>(gas_left, output).
     sm_bind (sm_get snd) (\<lambda>ex.
     on_ex (Executive_finalize E t (ex_substate ex) gas_left output (tr_traces T (ex_tracer ex))
       (vm_drain V (ex_vm_tracer ex)))))))))))))"

definition start ::
  "'t \<Rightarrow> 'v \<Rightarrow> SignedTransaction \<Rightarrow> ('d, 'l) State \<Rightarrow> SignedTransaction \<times> ('d, 'l, 't, 'v) Ex" where
  "start tracer vm_tracer t state = (t, \<lparr>ex_state = state, ex_substate = Substate_new, ex_tracer = tracer,
     ex_vm_tracer = vm_tracer\<rparr>)"

definition stop ::
  "(ExecutionError, 'a) res \<times> SignedTransaction \<times> ('d, 'l, 't, 'v) Ex \<Rightarrow>
   (ExecutionError, 'a) res \<times> SignedTransaction \<times> ('d, 'l) State" where
  "stop x = (case x of (r, (t, ex)) \<Rightarrow> (r, (t, ex_state ex)))"

definition transact ::
  "nat \<Rightarrow> ('d, 'm, 'l) Env \<Rightarrow> TransactOptions \<Rightarrow>
   (SignedTransaction \<times> ('d, 'l) State, ExecutionError, Executed) sm" where
  "transact n E options = (\<lambda>(t, state).
     (case (to_tracing options, to_vm_tracing options) of
        (True, True) \<Rightarrow> stop (transact_with_tracer n E executive_tracer executive_vm_tracer options
          (start ExecutiveTracer_default ExecutiveVMTracer_toplevel t state))
      | (True, False) \<Rightarrow> stop (transact_with_tracer n E executive_tracer noop_vm_tracer options
          (start ExecutiveTracer_default () t state))
      | (False, True) \<Rightarrow> stop (transact_with_tracer n E noop_tracer executive_vm_tracer options
          (start () ExecutiveVMTracer_toplevel t state))
      | (False, False) \<Rightarrow> stop (transact_with_tracer n E noop_tracer noop_vm_tracer options
          (start () () t state))))"

section \<open>Application to a state\<close>

fun receipt_error_of :: "evm_error \<Rightarrow> ReceiptError" where
  "receipt_error_of OutOfGas = RE_OutOfGas"
| "receipt_error_of (BadJumpDestination d) = RE_BadJumpDestination"
| "receipt_error_of (BadInstruction i) = RE_BadInstruction"
| "receipt_error_of (StackUnderflow i w n) = RE_StackUnderflow"
| "receipt_error_of (OutOfStack i w n) = RE_OutOfStack"
| "receipt_error_of (Internal m) = RE_Internal"

record ApplyOutcome =
  ao_receipt :: Receipt
  ao_trace :: "FlatTrace list"

text \<open>\<open>State::apply\<close>: the engine has no built-in contracts.\<close>

definition State_apply ::
  "nat \<Rightarrow> ('d, 'm, 'l) Env \<Rightarrow> bool \<Rightarrow> bool \<Rightarrow> bool \<Rightarrow>
   (SignedTransaction \<times> ('d, 'l) State, ExecutionError, ApplyOutcome) sm" where
  "State_apply n E tracing permission quota =
     sm_bind (transact n (E\<lparr>env_builtins := []\<rparr>)
       \<lparr>to_tracing = tracing, to_vm_tracing = False, to_check_permission = permission,
        to_check_quota = quota\<rparr>) (\<lambda>e.
     sm_bind (sm_get fst) (\<lambda>t.
     sm_ret \<lparr>ao_receipt = Receipt_new (env_libs E) None (xd_cumulative_gas_used e) (xd_logs e)
         (map_option receipt_error_of (xd_exception e)) (tx_account_nonce t),
       ao_trace = xd_trace e\<rparr>))"

end
