(* ===== verification/EVM_Frame.thy ===== *)
theory EVM_Frame
  imports EVM_Interpreter
begin

text \<open>
  The rules of the precondition transformer for the operations of a frame, the postcondition of an
  instruction, and the arms of the interpreter that only touch the frame: each, run with its
  operands on the stack and its memory paid for, returns and meets the postcondition. \<open>copied\<close>
  is the specification of \<open>copy_data_to_memory\<close>.
\<close>

section \<open>Rules for the frame\<close>

abbreviation frame :: "bytes \<Rightarrow> u256 list \<Rightarrow> u256 list \<Rightarrow> nat \<Rightarrow> 'e \<Rightarrow> 'e machine" where
  "frame mem xs l p e \<equiv> \<lparr>m_mem = mem, m_stack = stk xs l, m_pos = p, m_ext = e\<rparr>"

lemma wp_pop [wp_rules]: "wp pop_m Q E (frame mem (x # xs) l p e) = Q x (frame mem xs l p e)"
  by (simp add: wp_def pop_m_def on_stack_def)

lemma wp_on_stack [wp_rules]:
  "wp (on_stack f) Q E (frame mem xs l p e) =
     wp (sm_lift (f (stk xs l))) (\<lambda>(a, s) _. Q a \<lparr>m_mem = mem, m_stack = s, m_pos = p, m_ext = e\<rparr>)
       (\<lambda>x _. E x (frame mem xs l p e)) ()"
  by (auto simp: wp_def on_stack_def sm_lift_def split: res.splits prod.splits)

lemma wp_push [wp_rules]: "wp (push_m v) Q E (frame mem xs l p e) = Q () (frame mem (v # xs) l p e)"
  by (simp add: wp_def push_m_def sm_modify_def)

lemma wp_push_done [wp_rules]:
  "wp (push_done v) Q E (frame mem xs l p e) = Q IR_Ok (frame mem (v # xs) l p e)"
  by (simp add: push_done_def done_m_def wp_bind wp_push wp_ret)

lemma wp_done [wp_rules]: "wp done_m Q E m = Q IR_Ok m"
  by (simp add: done_m_def wp_ret)

lemma wp_get_mem [wp_rules]:
  "wp (get_mem f) Q E m = wp (sm_lift (f (m_mem m))) Q E m"
  by (simp add: wp_def get_mem_def sm_lift_def)

lemma wp_on_mem [wp_rules]:
  "wp (on_mem f) Q E (frame mem xs l p e) = wp (sm_lift (f mem)) (\<lambda>mem' _. Q () (frame mem' xs l p e))
     (\<lambda>x _. E x (frame mem xs l p e)) ()"
  by (simp add: wp_def on_mem_def sm_lift_def split: res.splits)

lemma wp_on_ext [wp_rules]:
  "wp (on_ext f) Q E (frame mem xs l p e) =
     wp f (\<lambda>a e'. Q a (frame mem xs l p e')) (\<lambda>x e'. E x (frame mem xs l p e')) e"
  by (auto simp: wp_def on_ext_def split: prod.splits res.splits)

section \<open>What an instruction may do\<close>

definition allowance :: "Schedule \<Rightarrow> Instruction \<Rightarrow> u256 list \<Rightarrow> usize option \<Rightarrow> nat" where
  "allowance s i xs prov =
     (case prov of
        None \<Rightarrow> 0
      | Some p \<Rightarrow> unat p + (if (i = CALL \<or> i = CALLCODE) \<and> xs ! 2 \<noteq> 0 then call_stipend s else 0))"

primrec unused :: "usize InstructionResult \<Rightarrow> nat" where
  "unused IR_Ok = 0"
| "unused (UnusedGas g) = unat g"
| "unused (JumpToPosition p) = 0"
| "unused (StopExecutionNeedsReturn g a b) = 0"
| "unused StopExecution = 0"

definition stops :: "'g InstructionResult \<Rightarrow> bool" where
  "stops r \<longleftrightarrow> (case r of StopExecutionNeedsReturn _ _ _ \<Rightarrow> True | StopExecution \<Rightarrow> True | _ \<Rightarrow> False)"

text \<open>After the instruction: the externalities are good, the scratch space of the stack and the size
  of the memory are as before, the stack has the size the table announces; what comes back unused
  and the storage clears are paid for; a stop comes only from an instruction that halts, and a
  return names the range the gasometer has charged for.\<close>

definition instr_post ::
  "('e \<Rightarrow> bool) \<Rightarrow> ('e \<Rightarrow> nat) \<Rightarrow> Schedule \<Rightarrow> Instruction \<Rightarrow> u256 list \<Rightarrow> usize option \<Rightarrow> usize \<Rightarrow> bytes \<Rightarrow>
   'e \<Rightarrow> usize InstructionResult \<Rightarrow> 'e machine \<Rightarrow> bool" where
  "instr_post good clears s i xs prov gas mem e r m \<longleftrightarrow>
     good (m_ext m) \<and> vs_inv (m_stack m) \<and> length (m_mem m) = length mem \<and>
     length (contents (m_stack m)) + info_args (INSTRUCTIONS i) = length xs + info_ret (INSTRUCTIONS i) \<and>
     unused r \<le> allowance s i xs prov \<and>
     clears (m_ext m) + unused r \<le> clears e + allowance s i xs prov + (if i = SSTORE \<or> i = CREATE then 1 else 0) \<and>
     (stops r \<longleftrightarrow> halts i) \<and>
     (\<forall>g off sz. r = StopExecutionNeedsReturn g off sz \<longrightarrow>
        g = gas \<and> (off, sz) \<in> set (mem_accesses i xs))"

definition instr_err ::
  "('e \<Rightarrow> bool) \<Rightarrow> ('e \<Rightarrow> nat) \<Rightarrow> Schedule \<Rightarrow> Instruction \<Rightarrow> u256 list \<Rightarrow> usize option \<Rightarrow>
   'e \<Rightarrow> 'e machine \<Rightarrow> bool" where
  "instr_err good clears s i xs prov e m \<longleftrightarrow>
     good (m_ext m) \<and>
     clears (m_ext m) \<le> clears e + allowance s i xs prov + (if i = SSTORE \<or> i = CREATE then 1 else 0)"

abbreviation instr_wp where
  "instr_wp good clears s i xs prov gas f m \<equiv>
     wp f (instr_post good clears s i xs prov gas (m_mem m) (m_ext m))
       (\<lambda>_. instr_err good clears s i xs prov (m_ext m)) m"

lemma instr_post_plain:
  assumes "kept good clears e e'" "length l = MAX_NO_OF_TOPICS" "length mem' = length mem"
    "length ys + info_args (INSTRUCTIONS i) = length xs + info_ret (INSTRUCTIONS i)"
    "unused r = 0" "\<not> stops r" "\<not> halts i"
  shows "instr_post good clears s i xs prov gas mem e r (frame mem' ys l p e')"
  using assms by (auto simp: instr_post_def kept_def stops_def)

lemma instr_err_kept:
  "kept good clears e e' \<Longrightarrow> instr_err good clears s i xs prov e (frame mem ys l p e')"
  by (simp add: instr_err_def kept_def)

lemmas post_simps = stops_def halts_def

lemma in_mem_covered:
  assumes "covered (mem_accesses i xs) (length mem)" "length mem < 2 ^ 64" "(off, sz) \<in> set (mem_accesses i xs)"
  shows "in_mem mem off sz"
  using assms by (auto simp: covered_def in_mem_def list_all_iff)

section \<open>The arms\<close>

text \<open>The hypotheses under which an instruction is run: its operands are on the stack, and the memory
  covers the ranges it names.\<close>

definition runnable :: "Instruction \<Rightarrow> bytes \<Rightarrow> u256 list \<Rightarrow> u256 list \<Rightarrow> bool" where
  "runnable i mem xs l \<longleftrightarrow>
     info_args (INSTRUCTIONS i) \<le> length xs \<and> length l = MAX_NO_OF_TOPICS \<and>
     covered (mem_accesses i xs) (length mem) \<and> length mem < 2 ^ 64"

lemma runnableD:
  assumes "runnable i mem xs l"
  shows "info_args (INSTRUCTIONS i) \<le> length xs" "length l = MAX_NO_OF_TOPICS" "length mem < 2 ^ 64"
    "(off, sz) \<in> set (mem_accesses i xs) \<Longrightarrow> in_mem mem off sz"
  using assms in_mem_covered [of i xs mem off sz] by (auto simp: runnable_def)

lemma take_args_1: "1 \<le> length xs \<Longrightarrow> \<exists>a ys. xs = a # ys"
  by (cases xs) auto

lemma take_args_2: "2 \<le> length xs \<Longrightarrow> \<exists>a b ys. xs = a # b # ys"
  by (auto simp: numeral_eq_Suc Suc_le_length_iff)

lemma take_args_3: "3 \<le> length xs \<Longrightarrow> \<exists>a b c ys. xs = a # b # c # ys"
  by (auto simp: numeral_eq_Suc Suc_le_length_iff)

lemma take_args_4: "4 \<le> length xs \<Longrightarrow> \<exists>a b c d ys. xs = a # b # c # d # ys"
  by (auto simp: numeral_eq_Suc Suc_le_length_iff)

lemma take_args_6: "6 \<le> length xs \<Longrightarrow> \<exists>a b c d f g ys. xs = a # b # c # d # f # g # ys"
  by (auto simp: numeral_eq_Suc Suc_le_length_iff)

lemma take_args_7: "7 \<le> length xs \<Longrightarrow> \<exists>a b c d f g h ys. xs = a # b # c # d # f # g # h # ys"
  by (auto simp: numeral_eq_Suc Suc_le_length_iff)

lemma push_arm:
  assumes "good e" "runnable i mem xs l" "has_arity (INSTRUCTIONS i) 0 1" "\<not> halts i"
  shows "instr_wp good clears s i xs prov gas (push_done v) (frame mem xs l p e)"
  using assms by (auto simp: wp_rules has_arity_def runnable_def stops_def intro!: instr_post_plain)

lemma JUMP_arm:
  assumes "good e" "runnable JUMP mem xs l"
  shows "instr_wp good clears s JUMP xs prov gas exec_JUMP (frame mem xs l p e)"
proof -
  obtain a ys where "xs = a # ys" using take_args_1 [of xs] runnableD(1) [OF assms(2)] by auto
  then show ?thesis using assms
    by (auto simp: exec_JUMP_def wp_rules runnable_def post_simps intro!: instr_post_plain)
qed

lemma JUMPI_arm:
  assumes "good e" "runnable JUMPI mem xs l"
  shows "instr_wp good clears s JUMPI xs prov gas exec_JUMPI (frame mem xs l p e)"
proof -
  obtain a b ys where "xs = a # b # ys" using take_args_2 [of xs] runnableD(1) [OF assms(2)] by auto
  then show ?thesis using assms
    by (auto simp: exec_JUMPI_def wp_rules runnable_def post_simps intro!: instr_post_plain)
qed

lemma JUMPDEST_arm:
  assumes "good e" "runnable JUMPDEST mem xs l"
  shows "instr_wp good clears s JUMPDEST xs prov gas done_m (frame mem xs l p e)"
  using assms by (auto simp: wp_rules runnable_def post_simps intro!: instr_post_plain)

lemma STOP_arm:
  assumes "good e" "runnable STOP mem xs l"
  shows "instr_wp good clears s STOP xs prov gas (sm_ret StopExecution) (frame mem xs l p e)"
  using assms by (auto simp: wp_rules instr_post_def runnable_def post_simps)

lemma RETURN_arm:
  assumes "good e" "runnable RETURN mem xs l"
  shows "instr_wp good clears s RETURN xs prov gas (exec_RETURN gas) (frame mem xs l p e)"
proof -
  obtain a b ys where "xs = a # b # ys" using take_args_2 [of xs] runnableD(1) [OF assms(2)] by auto
  then show ?thesis using assms
    by (auto simp: exec_RETURN_def wp_rules instr_post_def runnable_def post_simps mem_accesses_def)
qed

lemma PUSH_arm:
  assumes "good e" "runnable i mem xs l" "is_push i" "p \<le> length code"
  shows "instr_wp good clears s i xs prov gas (exec_PUSH code i) (frame mem xs l p e)"
proof -
  have nh: "\<not> halts i" using assms(3) by (auto simp: halts_def is_push_def)
  show ?thesis
    using assms nh push_arity [OF assms(3)]
    by (auto simp: exec_PUSH_def get_push_bytes_len code_read_def wp_rules slice_of_def has_arity_def runnable_def stops_def
        intro!: instr_post_plain)
qed

lemma MLOAD_arm:
  assumes "good e" "runnable MLOAD mem xs l"
  shows "instr_wp good clears s MLOAD xs prov gas exec_MLOAD (frame mem xs l p e)"
proof -
  obtain a ys where xs: "xs = a # ys" using take_args_1 [of xs] runnableD(1) [OF assms(2)] by auto
  have "in_mem mem a 32" using xs by (intro runnableD(4) [OF assms(2)]) (simp add: mem_accesses_def)
  then show ?thesis using assms(1) runnableD(2) [OF assms(2)] xs
    by (simp add: exec_MLOAD_def wp_rules mem_read_ok post_simps instr_post_plain)
qed

lemma MSTORE_arm:
  assumes "good e" "runnable MSTORE mem xs l"
  shows "instr_wp good clears s MSTORE xs prov gas exec_MSTORE (frame mem xs l p e)"
proof -
  obtain a b ys where xs: "xs = a # b # ys" using take_args_2 [of xs] runnableD(1) [OF assms(2)] by auto
  have "in_mem mem a 32" using xs by (intro runnableD(4) [OF assms(2)]) (simp add: mem_accesses_def)
  from mem_write_ok [OF this, of b] obtain mem' where
    "mem_write mem a b = (Ok mem' :: bytes evm_result)" "length mem' = length mem" by blast
  then show ?thesis using assms(1) runnableD(2) [OF assms(2)] xs
    by (simp add: exec_MSTORE_def wp_rules post_simps instr_post_plain)
qed

lemma MSTORE8_arm:
  assumes "good e" "runnable MSTORE8 mem xs l"
  shows "instr_wp good clears s MSTORE8 xs prov gas exec_MSTORE8 (frame mem xs l p e)"
proof -
  obtain a b ys where xs: "xs = a # b # ys" using take_args_2 [of xs] runnableD(1) [OF assms(2)] by auto
  have "in_mem mem a 1" using xs by (intro runnableD(4) [OF assms(2)]) (simp add: mem_accesses_def)
  from write_byte_ok [OF this, of b] obtain mem' where
    "write_byte mem a b = (Ok mem' :: bytes evm_result)" "length mem' = length mem" by blast
  then show ?thesis using assms(1) runnableD(2) [OF assms(2)] xs
    by (simp add: exec_MSTORE8_def wp_rules post_simps instr_post_plain)
qed

lemma SHA3_arm:
  assumes "good e" "runnable SHA3 mem xs l"
  shows "instr_wp good clears s SHA3 xs prov gas (exec_SHA3 sha3) (frame mem xs l p e)"
proof -
  obtain a b ys where xs: "xs = a # b # ys" using take_args_2 [of xs] runnableD(1) [OF assms(2)] by auto
  have "in_mem mem a b" using xs by (intro runnableD(4) [OF assms(2)]) (simp add: mem_accesses_def)
  then show ?thesis using assms(1) runnableD(2) [OF assms(2)] xs
    by (simp add: exec_SHA3_def wp_rules read_slice_in_mem post_simps instr_post_plain)
qed

lemma stack_arm:
  assumes "good e" "runnable i mem xs l" "is_stack_instruction i"
  shows "instr_wp good clears s i xs prov gas
    (sm_bind (on_stack (\<lambda>s. res_map (Pair ()) (exec_stack_instruction i s))) (\<lambda>_. done_m)) (frame mem xs l p e)"
proof -
  obtain ys where ys: "exec_stack_instruction i (stk xs l) = Ok (stk ys l)"
    "length ys + info_args (INSTRUCTIONS i) = length xs + info_ret (INSTRUCTIONS i)"
    using exec_stack_instruction_ok [OF assms(3) runnableD(1) [OF assms(2)], of l]
    by (auto simp: stack_ok_def)
  have "\<not> halts i" using assms(3) by (auto simp: halts_def is_stack_instruction_def)
  then show ?thesis using assms ys
    by (simp add: wp_rules runnable_def stops_def instr_post_plain)
qed

section \<open>Copying\<close>

text \<open>The bytes \<open>copy_data_to_memory\<close> writes: the source from \<open>off\<close> on, padded with zeros.\<close>

definition copied :: "bytes \<Rightarrow> nat \<Rightarrow> nat \<Rightarrow> bytes" where
  "copied source off n = take n (drop off source @ replicate n 0)"

lemma length_copied [simp]: "length (copied source off n) = n"
  by (simp add: copied_def)

lemma copy_zero_slice_eq:
  assumes "in_mem mem dest sz" "sz \<noteq> 0" "unat so \<le> unat ss" "unat ss < unat so + unat sz" "unat ss < 2 ^ 64"
  shows "copy_zero_slice mem dest so sz ss =
    Ok (unat dest + (unat ss - unat so), unat so + unat sz - unat ss)"
proof -
  have b: "unat dest + unat sz \<le> length mem" "length mem < 2 ^ 64"
    using in_mem_low [OF assms(1,2)] by auto
  have n: "\<not> so > ss" using assms(3) by (simp add: word_less_nat_alt)
  have t1: "plus_chk dest ss = (Ok (dest + ss) :: u256 evm_result)" "unat (dest + ss) = unat dest + unat ss"
    using b assms(5) by (simp_all add: plus_chk_def unat_add_small)
  have o1: "minus_chk (dest + ss) so = (Ok (dest + ss - so) :: u256 evm_result)"
    "unat (dest + ss - so) = unat dest + (unat ss - unat so)"
    using t1(2) assms(3) by (simp_all add: minus_chk_def word_le_nat_alt unat_minus_le)
  have t2: "plus_chk so sz = (Ok (so + sz) :: u256 evm_result)" "unat (so + sz) = unat so + unat sz"
    using b assms(3,5) by (simp_all add: plus_chk_def unat_add_small)
  have o2: "minus_chk (so + sz) ss = (Ok (so + sz - ss) :: u256 evm_result)"
    "unat (so + sz - ss) = unat so + unat sz - unat ss"
    using t2(2) assms(4) by (simp_all add: minus_chk_def word_le_nat_alt unat_minus_le)
  have nz: "so + sz - ss \<noteq> 0" using o2(2) assms(4) by (auto simp: unat_eq_zero [symmetric])
  have "in_mem mem (dest + ss - so) (so + sz - ss)"
    using b o1(2) o2(2) assms(3,4) by (simp add: in_mem_def)
  from writeable_slice_in_mem [OF this] show ?thesis
    using n t1 o1 t2 o2 nz by (simp add: copy_zero_slice_def)
qed

lemma copy_exceeds_eq:
  assumes "unat ss < 2 ^ 64"
  shows "copy_exceeds so sz ss = Ok (unat ss < unat so \<or> unat ss < unat so + unat sz)"
proof (cases "so > ss \<or> sz > ss")
  case True
  then show ?thesis by (auto simp: copy_exceeds_def word_less_nat_alt)
next
  case False
  then have le: "unat so \<le> unat ss" "unat sz \<le> unat ss" by (auto simp: word_less_nat_alt)
  then have "plus_chk so sz = (Ok (so + sz) :: u256 evm_result)" "unat (so + sz) = unat so + unat sz"
    using assms by (simp_all add: plus_chk_def unat_add_small)
  then show ?thesis using False le by (auto simp: copy_exceeds_def word_less_nat_alt)
qed

lemma copy_to_mem_zero:
  assumes "length source < 2 ^ 64"
  shows "copy_to_mem source dest so 0 mem = Ok mem"
proof -
  let ?ss = "of_nat (length source) :: u256"
  have ss: "unat ?ss = length source" using assms by (simp add: unat_of_nat_small)
  have ex: "copy_exceeds so 0 ?ss = Ok (length source < unat so)"
    using copy_exceeds_eq [of ?ss so 0] assms by (simp add: ss)
  show ?thesis
  proof (cases "length source < unat so")
    case True
    then have lt: "?ss < so" by (simp add: word_less_nat_alt ss)
    then have "\<not> so < ?ss" by simp
    moreover have "copy_zero_slice mem dest so 0 ?ss = Ok (0, 0)"
      using lt by (simp add: copy_zero_slice_def writeable_slice_def is_valid_range_iff)
    ultimately show ?thesis using True by (simp add: copy_to_mem_def ex Let_def write_range_def)
  next
    case False
    then have l: "unat (low_u64 so) = unat so" using assms by (simp add: low_u64_small)
    then have "plus_chk (low_u64 0) (low_u64 so) = (Ok (low_u64 so) :: u64 evm_result)"
      using False assms by (simp add: plus_chk_def)
    then show ?thesis using False l
      by (simp add: copy_to_mem_def ex Let_def slice_of_def write_slice_def)
  qed
qed

text \<open>The three cases of a copy: the source ends before the offset, inside the copied range, after it.\<close>

lemma copy_to_mem_beyond:
  assumes "in_mem mem dest sz" "sz \<noteq> 0" "length source < 2 ^ 64" "length source < unat so"
  shows "copy_to_mem source dest so sz mem =
    Ok (take (unat dest) mem @ copied source (unat so) (unat sz) @ drop (unat dest + unat sz) mem)"
proof -
  let ?ss = "of_nat (length source) :: u256" and ?d = "unat dest" and ?n = "unat sz"
  have ss: "unat ?ss = length source" using assms(3) by (simp add: unat_of_nat_small)
  note b = in_mem_low [OF assms(1,2)]
  have ex: "copy_exceeds so sz ?ss = Ok True"
    using copy_exceeds_eq [of ?ss so sz] assms(3,4) by (simp add: ss)
  have lt: "?ss < so" using assms(4) by (simp add: word_less_nat_alt ss)
  then have nlt: "\<not> so < ?ss" by simp
  have "copy_zero_slice mem dest so sz ?ss = Ok (?d, ?n)"
    using lt writeable_slice_in_mem [OF assms(1), where 'a = evm_error] assms(2) by (simp add: copy_zero_slice_def)
  then show ?thesis using assms(4) b nlt by (simp add: copy_to_mem_def ex Let_def write_range_def copied_def)
qed

lemma copy_to_mem_across:
  assumes "in_mem mem dest sz" "sz \<noteq> 0" "length source < 2 ^ 64"
    "unat so \<le> length source" "length source < unat so + unat sz"
  shows "copy_to_mem source dest so sz mem =
    Ok (take (unat dest) mem @ copied source (unat so) (unat sz) @ drop (unat dest + unat sz) mem)"
proof -
  let ?ss = "of_nat (length source) :: u256" and ?d = "unat dest" and ?n = "unat sz"
  have ss: "unat ?ss = length source" using assms(3) by (simp add: unat_of_nat_small)
  note b = in_mem_low [OF assms(1,2)]
  note l = assms(4,5)
  have ex: "copy_exceeds so sz ?ss = Ok True"
    using copy_exceeds_eq [of ?ss so sz] assms(3-5) by (simp add: ss)
  let ?k = "length source - unat so"
  have z: "copy_zero_slice mem dest so sz ?ss = Ok (?d + ?k, unat so + ?n - length source)"
    using copy_zero_slice_eq [OF assms(1,2), of so ?ss] l assms(3) by (simp add: ss)
  let ?m = "take (?d + ?k) mem @ replicate (unat so + ?n - length source) 0 @ drop (?d + ?n) mem"
  have w: "write_range mem (?d + ?k) (replicate (unat so + ?n - length source) 0) = (Ok ?m :: bytes evm_result)"
    using l b by (simp add: write_range_def)
  have lso: "unat (low_u64 so) = unat so" using l assms(3) by (simp add: low_u64_small)
  have lm: "length ?m = length mem" using l b by simp
  have ws: "write_slice ?m dest (drop (unat so) source) =
      (Ok (take ?d ?m @ drop (unat so) source @ drop (?d + ?k) ?m) :: bytes evm_result)"
    using write_slice_ok [of dest "drop (unat so) source" ?m, where 'a = evm_error] l b lm by simp
  have res: "take ?d ?m @ drop (unat so) source @ drop (?d + ?k) ?m =
      take ?d mem @ copied source (unat so) ?n @ drop (?d + ?n) mem"
    using l b by (simp add: copied_def)
  show ?thesis
  proof (cases "unat so < length source")
    case True
    then have "so < ?ss" by (simp add: word_less_nat_alt ss)
    then show ?thesis using l z w ws res lso
      by (simp add: copy_to_mem_def ex Let_def slice_of_def)
  next
    case False
    then have "unat so = length source" "\<not> so < ?ss" using l by (simp_all add: word_less_nat_alt ss)
    then show ?thesis using l z w by (simp add: copy_to_mem_def ex Let_def copied_def)
  qed
qed

lemma copy_to_mem_inside:
  assumes "in_mem mem dest sz" "sz \<noteq> 0" "length source < 2 ^ 64" "unat so + unat sz \<le> length source"
  shows "copy_to_mem source dest so sz mem =
    Ok (take (unat dest) mem @ copied source (unat so) (unat sz) @ drop (unat dest + unat sz) mem)"
proof -
  let ?ss = "of_nat (length source) :: u256" and ?d = "unat dest" and ?n = "unat sz"
  have ss: "unat ?ss = length source" using assms(3) by (simp add: unat_of_nat_small)
  note b = in_mem_low [OF assms(1,2)]
  note l = assms(4)
  have ex: "copy_exceeds so sz ?ss = Ok False"
    using copy_exceeds_eq [of ?ss so sz] assms(3,4) by (simp add: ss)
  have n0: "0 < ?n" using assms(2) by (simp add: unat_gt_0)
  then have "so < ?ss" using l by (simp add: word_less_nat_alt ss)
  moreover have lo: "unat (low_u64 so) = unat so" "unat (low_u64 sz) = ?n"
    using l assms(3) by (simp_all add: low_u64_small)
  moreover have "plus_chk (low_u64 sz) (low_u64 so) = (Ok (low_u64 sz + low_u64 so) :: u64 evm_result)"
    "unat (low_u64 sz + low_u64 so) = ?n + unat so"
    using lo l assms(3) by (simp_all add: plus_chk_def unat_add_small)
  moreover have "write_slice mem dest (take ?n (drop (unat so) source)) =
      (Ok (take ?d mem @ take ?n (drop (unat so) source) @ drop (?d + ?n) mem) :: bytes evm_result)"
    using write_slice_ok [of dest "take ?n (drop (unat so) source)" mem, where 'a = evm_error] l b by simp
  ultimately show ?thesis using l
    by (simp add: copy_to_mem_def ex Let_def slice_of_def copied_def)
qed

lemma copy_to_mem_eq:
  assumes "in_mem mem dest sz" "sz \<noteq> 0" "length source < 2 ^ 64"
  shows "copy_to_mem source dest so sz mem =
    Ok (take (unat dest) mem @ copied source (unat so) (unat sz) @ drop (unat dest + unat sz) mem)"
  using copy_to_mem_beyond [OF assms] copy_to_mem_across [OF assms] copy_to_mem_inside [OF assms] by (meson leI)

lemma copy_to_mem_returns:
  assumes "in_mem mem dest sz" "length source < 2 ^ 64"
  shows "\<exists>mem'. copy_to_mem source dest so sz mem = Ok mem' \<and> length mem' = length mem"
proof (cases "sz = 0")
  case True
  then show ?thesis using copy_to_mem_zero [OF assms(2)] by simp
next
  case False
  then show ?thesis using copy_to_mem_eq [OF assms(1) False assms(2)] in_mem_low [OF assms(1) False] by simp
qed

end
