(* ===== verification/EVM_Calls.thy ===== *)
theory EVM_Calls
  imports EVM_Frame
begin

text \<open>
  The arms of the interpreter that use the externalities, under the contract \<open>ext_contract\<close>: storage,
  environment, logs, and the nested frames of \<open>CREATE\<close> and the calls.
\<close>

lemma wp_keepsI:
  assumes "keeps good clears f" "good e"
    "\<And>a e'. kept good clears e e' \<Longrightarrow> Q a e'" "\<And>x e'. kept good clears e e' \<Longrightarrow> E x e'"
  shows "wp f Q E e"
proof -
  obtain r e' where f: "f e = (r, e')" by fastforce
  note k = keeps_run [OF assms(1,2) f]
  show ?thesis using k assms(3,4) [OF k(2)] f by (cases r) (simp_all add: wp_def)
qed

lemma wp_run:
  "f s = (Ok a, s') \<Longrightarrow> wp f Q E s = Q a s'"
  "f s = (Err x, s') \<Longrightarrow> wp f Q E s = E x s'"
  by (simp_all add: wp_def)

lemma try_trie_run:
  "f e = (Ok a, e') \<Longrightarrow> try_trie f e = (Ok a, e')"
  "f e = (Err x, e') \<Longrightarrow> try_trie f e = (Err (Internal (''Internal error: '' @ x)), e')"
  by (simp_all add: try_trie_def)

lemma calldataload_returns:
  assumes "\<And>d. data = Some d \<Longrightarrow> length d < 2 ^ 64"
  shows "\<exists>v. calldataload data big_id = Ok v"
proof (cases data)
  case (Some d)
  let ?id = "low_u64 big_id"
  have "unat (?id + 32) \<le> unat ?id + 32"
    by (simp add: unat_word_ariths)
  then show ?thesis using Some
    by (auto simp: calldataload_def Let_def slice_of_def write_range_def)
qed (simp add: calldataload_def)

lemma CALLDATALOAD_arm:
  assumes "good e" "runnable CALLDATALOAD mem xs l" "\<And>d. ap_data params = Some d \<Longrightarrow> length d < 2 ^ 64"
  shows "instr_wp good clears s CALLDATALOAD xs prov gas (exec_CALLDATALOAD params) (frame mem xs l p e)"
proof -
  obtain a ys where xs: "xs = a # ys" using take_args_1 [of xs] runnableD(1) [OF assms(2)] by auto
  obtain v where "calldataload (ap_data params) a = Ok v"
    using calldataload_returns [of "ap_data params" a] assms(3) by blast
  then show ?thesis using assms(1) runnableD(2) [OF assms(2)] xs
    by (simp add: exec_CALLDATALOAD_def wp_rules post_simps instr_post_plain)
qed

lemma copy_arm:
  assumes "good e" "in_mem mem d sz" "length source < 2 ^ 64" "length l = MAX_NO_OF_TOPICS"
    "length ys + info_args (INSTRUCTIONS i) = length xs + info_ret (INSTRUCTIONS i)" "\<not> halts i"
    "kept good clears e0 e"
  shows "wp (copy_data_to_memory source) (instr_post good clears s i xs prov gas mem e0) E
    (frame mem (d # so # sz # ys) l p e)"
proof -
  obtain mem' where "copy_to_mem source d so sz mem = Ok mem'" "length mem' = length mem"
    using copy_to_mem_returns [OF assms(2,3)] by blast
  then show ?thesis using assms
    by (simp add: copy_data_to_memory_def wp_rules stops_def instr_post_plain)
qed

lemma data_copy_arm:
  assumes "good e" "runnable i mem xs l" "i = CALLDATACOPY \<or> i = CODECOPY" "length source < 2 ^ 64"
  shows "instr_wp good clears s i xs prov gas (copy_data_to_memory source) (frame mem xs l p e)"
proof -
  have i: "info_args (INSTRUCTIONS i) = 3" "info_ret (INSTRUCTIONS i) = 0" "\<not> halts i"
    "mem_accesses i xs = [(xs ! 0, xs ! 2)]"
    using assms(3) by (elim disjE; simp add: halts_def mem_accesses_def)+
  then obtain a b c ys where xs: "xs = a # b # c # ys"
    using take_args_3 [of xs] runnableD(1) [OF assms(2)] by auto
  have "in_mem mem a c" using xs i by (intro runnableD(4) [OF assms(2)]) simp
  then show ?thesis using assms(1,4) runnableD(2) [OF assms(2)] xs i by (simp add: copy_arm)
qed

context ext_contract
begin

lemma SUICIDE_arm:
  assumes "good e" "runnable SUICIDE mem xs l"
  shows "instr_wp good clears s SUICIDE xs prov gas (exec_SUICIDE X) (frame mem xs l p e)"
proof -
  obtain a ys where xs: "xs = a # ys" using take_args_1 [of xs] runnableD(1) [OF assms(2)] by auto
  show ?thesis
    unfolding exec_SUICIDE_def xs wp_bind wp_pop wp_on_ext
    using runnableD(2) [OF assms(2)]
    by (intro wp_try_trie [OF suicide assms(1)])
      (auto simp: wp_ret instr_post_def post_simps kept_def xs instr_err_def)
qed

lemma BALANCE_arm:
  assumes "good e" "runnable BALANCE mem xs l"
  shows "instr_wp good clears s BALANCE xs prov gas (exec_BALANCE X) (frame mem xs l p e)"
proof -
  obtain a ys where xs: "xs = a # ys" using take_args_1 [of xs] runnableD(1) [OF assms(2)] by auto
  show ?thesis
    unfolding exec_BALANCE_def xs wp_bind wp_pop wp_on_ext
    using runnableD(2) [OF assms(2)]
    by (intro wp_try_trie [OF balance assms(1)])
      (auto simp: wp_rules post_simps instr_post_plain instr_err_kept)
qed

lemma EXTCODESIZE_arm:
  assumes "good e" "runnable EXTCODESIZE mem xs l"
  shows "instr_wp good clears s EXTCODESIZE xs prov gas (exec_EXTCODESIZE X) (frame mem xs l p e)"
proof -
  obtain a ys where xs: "xs = a # ys" using take_args_1 [of xs] runnableD(1) [OF assms(2)] by auto
  show ?thesis
    unfolding exec_EXTCODESIZE_def xs wp_bind wp_pop wp_on_ext
    using runnableD(2) [OF assms(2)]
    by (intro wp_try_trie [OF extcodesize assms(1)])
      (auto simp: wp_rules post_simps instr_post_plain instr_err_kept)
qed

lemma BLOCKHASH_arm:
  assumes "good e" "runnable BLOCKHASH mem xs l"
  shows "instr_wp good clears s BLOCKHASH xs prov gas (exec_BLOCKHASH X) (frame mem xs l p e)"
proof -
  obtain a ys where xs: "xs = a # ys" using take_args_1 [of xs] runnableD(1) [OF assms(2)] by auto
  show ?thesis
    unfolding exec_BLOCKHASH_def xs wp_bind wp_pop wp_on_ext
    using runnableD(2) [OF assms(2)]
    by (intro wp_keepsI [OF blockhash assms(1)])
      (auto simp: wp_rules post_simps instr_post_plain instr_err_kept)
qed

lemma SLOAD_arm:
  assumes "good e" "runnable SLOAD mem xs l"
  shows "instr_wp good clears s SLOAD xs prov gas (exec_SLOAD X) (frame mem xs l p e)"
proof -
  obtain a ys where xs: "xs = a # ys" using take_args_1 [of xs] runnableD(1) [OF assms(2)] by auto
  show ?thesis
    unfolding exec_SLOAD_def xs wp_bind wp_pop wp_on_ext
    using runnableD(2) [OF assms(2)]
    by (intro wp_try_trie [OF storage_at assms(1)])
      (auto simp: wp_rules post_simps instr_post_plain instr_err_kept)
qed

lemma EXTCODECOPY_arm:
  assumes "good e" "runnable EXTCODECOPY mem xs l"
  shows "instr_wp good clears s EXTCODECOPY xs prov gas (exec_EXTCODECOPY X) (frame mem xs l p e)"
proof -
  obtain a b c d ys where xs: "xs = a # b # c # d # ys"
    using take_args_4 [of xs] runnableD(1) [OF assms(2)] by auto
  have im: "in_mem mem b d" using xs by (intro runnableD(4) [OF assms(2)]) (simp add: mem_accesses_def)
  obtain r e' where f: "ext_extcode X (u256_to_address a) e = (r, e')" by fastforce
  note k = keeps_run [OF extcode assms(1) f]
  show ?thesis
  proof (cases r)
    case (Ok c')
    then have "length c' < 2 ^ 64" using extcode_size [OF assms(1), of "u256_to_address a" c' e'] f by simp
    then have "wp (copy_data_to_memory c') (instr_post good clears s EXTCODECOPY xs prov gas mem e)
        (\<lambda>_. instr_err good clears s EXTCODECOPY xs prov e) (frame mem (b # c # d # ys) l p e')"
      using im k runnableD(2) [OF assms(2)] xs by (intro copy_arm) (auto simp: halts_def dest: kept_good)
    then show ?thesis using f Ok
      by (simp add: exec_EXTCODECOPY_def xs wp_bind wp_pop wp_on_ext wp_run try_trie_run)
  next
    case (Err x)
    then show ?thesis using f k
      by (simp add: exec_EXTCODECOPY_def xs wp_bind wp_pop wp_on_ext wp_run(2) [OF try_trie_run(2)] instr_err_kept)
  qed (use k in auto)
qed

lemma LOG_arm:
  assumes "good e" "runnable i mem xs l" "LOG0 \<le> i \<and> i \<le> LOG4"
  shows "instr_wp good clears s i xs prov gas (exec_LOG X i) (frame mem xs l p e)"
proof -
  obtain n where n: "get_log_topics i = (Ok n :: nat evm_result)"
    using assms(3) by (auto simp: get_log_topics_def)
  note la = log_arity [OF n]
  have i: "\<not> halts i" "mem_accesses i xs = [(xs ! 0, xs ! 1)]"
    using log_instr [OF assms(3)] by (auto simp: halts_def mem_accesses_def)
  have "2 \<le> length xs" using la runnableD(1) [OF assms(2)] by (simp add: has_arity_def)
  then obtain a b ys where xs: "xs = a # b # ys" using take_args_2 by blast
  have len: "n \<le> length ys" using la runnableD(1) [OF assms(2)] xs by (simp add: has_arity_def)
  have im: "in_mem mem a b" using xs i by (intro runnableD(4) [OF assms(2)]) simp
  show ?thesis
    unfolding exec_LOG_def xs wp_bind n
    using len la runnableD(2) [OF assms(2)] im i
    by (auto simp: wp_rules pop_n_stk read_slice_in_mem has_arity_def stops_def
        intro!: wp_keepsI [OF log assms(1)] instr_post_plain instr_err_kept)
qed

lemma SSTORE_arm:
  assumes "good e" "runnable SSTORE mem xs l" "clears e < 2 ^ 256 - 1"
  shows "instr_wp good clears s SSTORE xs None gas (exec_SSTORE X) (frame mem xs l p e)"
proof -
  obtain a b ys where xs: "xs = a # b # ys" using take_args_2 [of xs] runnableD(1) [OF assms(2)] by auto
  have set: "wp (try_trie (ext_set_storage X a b))
      (\<lambda>_ e'. wp done_m (instr_post good clears s SSTORE xs None gas mem e)
        (\<lambda>_. instr_err good clears s SSTORE xs None e) (frame mem ys l p e'))
      (\<lambda>_ e'. instr_err good clears s SSTORE xs None e (frame mem ys l p e')) e'"
    if "good e'" "clears e' \<le> Suc (clears e)" for e'
    using that runnableD(2) [OF assms(2)]
    by (intro wp_try_trie [OF set_storage that(1)])
      (auto simp: wp_rules instr_post_def instr_err_def allowance_def kept_def post_simps xs)
  have inc: "wp (if b' then on_ext (ext_inc_sstore_clears X) else sm_ret ())
      (\<lambda>_. wp (sm_bind (on_ext (try_trie (ext_set_storage X a b))) (\<lambda>_. done_m))
        (instr_post good clears s SSTORE xs None gas mem e) (\<lambda>_. instr_err good clears s SSTORE xs None e))
      (\<lambda>_. instr_err good clears s SSTORE xs None e) (frame mem ys l p e')"
    if k: "kept good clears e e'" for e' b'
  proof -
    obtain e'' where "ext_inc_sstore_clears X e' = (Ok (), e'')" "good e''" "clears e'' = Suc (clears e')"
      using inc_sstore_clears [of e'] k assms(3) by (auto simp: kept_def)
    then show ?thesis
      using set [of e''] set [of e'] k
      by (auto simp: wp_bind wp_on_ext wp_ret wp_run kept_def)
  qed
  show ?thesis
    unfolding exec_SSTORE_def
    by (simp add: xs wp_bind wp_pop wp_on_ext, intro wp_try_trie [OF storage_at assms(1)])
      (use inc xs in \<open>auto simp: wp_bind instr_err_kept\<close>)
qed

end

lemma from_u256_small:
  assumes "unat v < 2 ^ 64"
  shows "\<exists>c. from_u256 v = Ok (c :: usize) \<and> unat c = unat v"
proof -
  have "unat (ucast v :: usize) = unat v" using assms low_u64_small [of v] by (simp add: low_u64_def)
  then have "unat (ucast (ucast v :: usize) :: u256) = unat v" by simp
  then have "(ucast (ucast v :: usize) :: u256) = v" by (simp only: word_unat_eq_iff)
  then show ?thesis using \<open>unat (ucast v :: usize) = unat v\<close> by (simp add: from_u256_def)
qed

lemma unat_as_u256 [simp]: "unat (as_u256 (g :: usize)) = unat g"
  by (simp add: as_u256_def)

lemma read_slice_length:
  assumes "in_mem mem off sz" "length mem < 2 ^ 64"
  shows "\<exists>d. read_slice mem off sz = Ok d \<and> length d < 2 ^ 64"
  unfolding read_slice_in_mem [OF assms(1)] using assms(2) by auto

text \<open>The result of a nested frame as the instruction hands it back.\<close>

lemma nested_unused:
  assumes "good e'" "length l = MAX_NO_OF_TOPICS" "length mem' = length mem" "is_call i" "prov = Some g"
    "unat gl \<le> A" "A < 2 ^ 64"
    "clears e' + unat gl \<le> clears e + A + (if i = SSTORE \<or> i = CREATE then 1 else 0)" "allowance s i xs prov = A"
    "length ys + info_args (INSTRUCTIONS i) = length xs + info_ret (INSTRUCTIONS i)"
  shows "wp (sm_bind (sm_lift (case from_u256 gl of Ok g \<Rightarrow> Ok g | _ \<Rightarrow> Panic)) (\<lambda>g. sm_ret (UnusedGas g)))
    (instr_post good clears s i xs prov gas mem e) E (frame mem' ys l p e')"
proof -
  obtain c where "from_u256 gl = Ok (c :: usize)" "unat c = unat gl"
    using from_u256_small [of gl] assms(6,7) by fastforce
  moreover have "\<not> halts i" using assms(4) by (auto simp: is_call_def halts_def)
  ultimately show ?thesis using assms by (auto simp: wp_rules instr_post_def stops_def)
qed

lemma nested_failed:
  assumes "good e'" "length l = MAX_NO_OF_TOPICS" "length mem' = length mem" "is_call i"
    "clears e' \<le> clears e + allowance s i xs prov + (if i = SSTORE \<or> i = CREATE then 1 else 0)"
    "length ys + info_args (INSTRUCTIONS i) = length xs + info_ret (INSTRUCTIONS i)"
  shows "instr_post good clears s i xs prov gas mem e IR_Ok (frame mem' ys l p e')"
proof -
  have "\<not> halts i" using assms(4) by (auto simp: is_call_def halts_def)
  then show ?thesis using assms by (auto simp: instr_post_def stops_def)
qed

lemma nested_refused:
  assumes "kept good clears e e'" "length l = MAX_NO_OF_TOPICS" "is_call i"
    "unat g = allowance s i xs prov"
    "length ys + info_args (INSTRUCTIONS i) = length xs + info_ret (INSTRUCTIONS i)"
  shows "instr_post good clears s i xs prov gas mem e (UnusedGas g) (frame mem ys l p e')"
proof -
  have "\<not> halts i" using assms(3) by (auto simp: is_call_def halts_def)
  then show ?thesis using assms by (auto simp: instr_post_def stops_def kept_def)
qed

context ext_contract
begin

lemma CREATE_arm:
  assumes "good e" "runnable CREATE mem xs l" "Suc (clears e + unat g) < 2 ^ 128"
  shows "instr_wp good clears s CREATE xs (Some g) gas (exec_CREATE X params (Some g)) (frame mem xs l p e)"
proof -
  obtain v off sz ys where xs: "xs = v # off # sz # ys"
    using take_args_3 [of xs] runnableD(1) [OF assms(2)] by auto
  have "in_mem mem off sz" using xs by (intro runnableD(4) [OF assms(2)]) (simp add: mem_accesses_def)
  then obtain c where c: "read_slice mem off sz = (Ok c :: bytes evm_result)" "length c < 2 ^ 64"
    using read_slice_length runnableD(3) [OF assms(2)] by blast
  have al: "allowance s CREATE zs (Some g) = unat g" for zs by (simp add: allowance_def)
  note l = runnableD(2) [OF assms(2)]
  let ?Q = "instr_post good clears s CREATE xs (Some g) gas mem e"
  let ?E = "\<lambda>_. instr_err good clears s CREATE xs (Some g) e"
  have nested: "wp (ext_create X (as_u256 g) v c)
      (\<lambda>r e''. wp (case r of
         Created a gas_left \<Rightarrow>
           sm_bind (push_m (address_to_u256 a)) (\<lambda>_.
           sm_bind (sm_lift (case from_u256 gas_left of Ok g \<Rightarrow> Ok g | _ \<Rightarrow> Panic)) (\<lambda>g.
           sm_ret (UnusedGas g)))
       | Create_Failed \<Rightarrow> push_done 0) ?Q ?E (frame mem ys l p e''))
      (\<lambda>x e''. ?E x (frame mem ys l p e'')) e'"
    if k: "kept good clears e e'" and d: "ext_depth X < max_depth (ext_schedule X)" for e'
  proof -
    have pre: "good e'" "unat (as_u256 g) < 2 ^ 64" "Suc (clears e' + unat (as_u256 g)) < 2 ^ 128"
      using k assms(3) unat_usize [of g] by (simp_all add: kept_def)
    from create [OF pre(1) d pre(2,3) c(2), of v] show ?thesis
  proof (elim disjE exE conjE, goal_cases)
    case (1 a gl e'')
    then show ?case using l k unat_usize [of g]
      by (simp add: wp_run wp_bind [of "push_m _"] wp_push)
        (rule nested_unused [where A = "unat g"], auto simp: xs al is_call_def kept_def)
  next
    case (2 e'')
    then show ?case using l k
      by (simp add: wp_run wp_push_done) (rule nested_failed, auto simp: xs al is_call_def kept_def)
  qed
  qed
  show ?thesis
    unfolding exec_CREATE_def
    apply (simp add: xs wp_bind wp_pop wp_get_mem wp_lift c wp_on_ext)
    apply (rule wp_try_trie [OF balance assms(1)])
    using nested l apply (auto simp: Let_def wp_bind wp_push wp_ret wp_on_ext xs al is_call_def
      intro!: nested_refused instr_err_kept)
    done
qed

end

context ext_contract
begin

lemma do_call_wp:
  fixes g :: usize
  assumes "good e" "ext_depth X < max_depth (ext_schedule X)" "clears e + unat g < 2 ^ 128"
    "in_mem mem in_off in_sz" "in_mem mem out_off out_sz" "length mem < 2 ^ 64"
    "\<And>gl mem' e'. good e' \<Longrightarrow> length mem' = length mem \<Longrightarrow> unat gl \<le> unat g \<Longrightarrow>
       clears e' + unat gl \<le> clears e + unat g \<Longrightarrow> Q (Success gl) (frame mem' ys l p e')"
    "\<And>mem' e'. good e' \<Longrightarrow> length mem' = length mem \<Longrightarrow> clears e' \<le> clears e + unat g \<Longrightarrow>
       Q Call_Failed (frame mem' ys l p e')"
  shows "wp (do_call X g sa ra v ca t in_off in_sz out_off out_sz) Q E (frame mem ys l p e)"
proof -
  obtain d where d: "read_slice mem in_off in_sz = (Ok d :: bytes evm_result)" "length d < 2 ^ 64"
    using read_slice_length [OF assms(4,6)] by blast
  obtain i n where w: "writeable_slice mem out_off out_sz = (Ok (i, n) :: (nat \<times> nat) evm_result)"
    using writeable_slice_in_mem [OF assms(5), where 'a = evm_error] by (cases "out_sz = 0") auto
  then have "i + n \<le> length mem" by (rule writeable_slice_bounds)
  then have o': "slice_of mem i (i + n) = (Ok (take n (drop i mem)) :: bytes evm_result)"
    "length (take n (drop i mem)) = n" by (simp_all add: slice_of_def)
  have wr: "\<exists>mem'. write_range mem i out' = (Ok mem' :: bytes evm_result) \<and> length mem' = length mem"
    if "length out' = length (take n (drop i mem))" for out'
    using that \<open>i + n \<le> length mem\<close> by (simp add: write_range_def)
  have pre: "unat (as_u256 g) < 2 ^ 64" "clears e + unat (as_u256 g) < 2 ^ 128"
    using assms(3) unat_usize [of g] by simp_all
  let ?out = "take n (drop i mem)"
  have "wp (ext_call X (as_u256 g) sa ra v d ca ?out t)
      (\<lambda>(r, out') e'. wp (sm_bind (on_mem (\<lambda>mem. write_range mem i out')) (\<lambda>_. sm_ret r)) Q E (frame mem ys l p e'))
      (\<lambda>x e'. E x (frame mem ys l p e')) e"
    using call [OF assms(1,2) pre d(2), of sa ra v ca ?out t]
  proof (elim disjE exE conjE, goal_cases)
    case (1 gl out' e')
    with wr [of out'] obtain mem' where "write_range mem i out' = (Ok mem' :: bytes evm_result)"
      "length mem' = length mem" by blast
    with 1 show ?case by (simp add: wp_run wp_bind wp_on_mem wp_lift wp_ret assms(7))
  next
    case (2 out' e')
    with wr [of out'] obtain mem' where "write_range mem i out' = (Ok mem' :: bytes evm_result)"
      "length mem' = length mem" by blast
    with 2 show ?case by (simp add: wp_run wp_bind wp_on_mem wp_lift wp_ret assms(8))
  qed
  then show ?thesis
    by (simp add: do_call_def wp_bind wp_get_mem wp_lift d w o' wp_on_ext case_prod_unfold)
qed

lemma call_addresses_wp:
  assumes "good e" "i = DELEGATECALL \<and> v = None \<or> (i = CALL \<or> i = CALLCODE) \<and> (\<exists>val. v = Some val)"
    "\<And>sa ra hb t e'. kept good clears e e' \<Longrightarrow> Q (sa, ra, hb, t) (frame mem ys l p e')"
    "\<And>x e'. kept good clears e e' \<Longrightarrow> E x (frame mem ys l p e')"
  shows "wp (call_addresses X params i ca v) Q E (frame mem ys l p e)"
  using assms(2)
proof (elim disjE conjE exE)
  assume "i = DELEGATECALL"
  then show ?thesis using assms(1) by (simp add: call_addresses_def wp_ret assms(3))
next
  fix val assume "i = CALL" "v = Some val"
  then show ?thesis
    by (simp add: call_addresses_def wp_bind wp_on_ext)
      (rule wp_try_trie [OF balance assms(1)], simp_all add: wp_lift wp_ret wp_bind assms(3,4))
next
  fix val assume "i = CALLCODE" "v = Some val"
  then show ?thesis
    by (simp add: call_addresses_def wp_bind wp_on_ext)
      (rule wp_try_trie [OF balance assms(1)], simp_all add: wp_lift wp_ret wp_bind assms(3,4))
qed

lemma stipend_add:
  fixes g :: usize
  assumes "unat g + A < 2 ^ 64" "A = (case v of None \<Rightarrow> 0 | Some val \<Rightarrow> if val = 0 then 0 else call_stipend s)"
  shows "\<exists>g'. plus_chk g (stipend s v) = (Ok g' :: usize evm_result) \<and> unat g' = unat g + A"
proof -
  have "unat (stipend s v :: usize) = A"
    using assms by (auto simp: stipend_def split: option.splits)
  then show ?thesis using assms(1) by (simp add: plus_chk_def unat_add_small)
qed

text \<open>The call once its operands are off the stack.\<close>

lemma CALL_tail:
  fixes g :: usize
  assumes "good e" "length l = MAX_NO_OF_TOPICS" "is_call i"
    "i = DELEGATECALL \<and> v = None \<or> (i = CALL \<or> i = CALLCODE) \<and> (\<exists>val. v = Some val)"
    "unat g = allowance s i xs prov" "prov = Some g0" "clears e + unat g < 2 ^ 128" "length mem < 2 ^ 64"
    "in_mem mem in_off in_sz" "in_mem mem out_off out_sz"
    "Suc (length ys) + info_args (INSTRUCTIONS i) = length xs + info_ret (INSTRUCTIONS i)"
  shows "wp (sm_bind (call_addresses X params i ca v)
       (\<lambda>(sa, ra, has_balance, t).
     let can_call = (has_balance \<and> ext_depth X < max_depth (ext_schedule X)) in
     if \<not> can_call then sm_bind (push_m 0) (\<lambda>_. sm_ret (UnusedGas g))
     else
       sm_bind (do_call X g sa ra v ca t in_off in_sz out_off out_sz) (\<lambda>call_result.
       case call_result of
         Success gas_left \<Rightarrow>
           sm_bind (push_m 1) (\<lambda>_.
           sm_bind (sm_lift (case from_u256 gas_left of Ok g \<Rightarrow> Ok g | _ \<Rightarrow> Panic)) (\<lambda>g.
           sm_ret (UnusedGas g)))
       | Call_Failed \<Rightarrow> push_done 0)))
    (instr_post good clears s i xs prov gas mem e) (\<lambda>_. instr_err good clears s i xs prov e)
    (frame mem ys l p e)"
  unfolding wp_bind [of "call_addresses X params i ca v"]
proof (rule call_addresses_wp [OF assms(1,4)], goal_cases)
  case (1 sa ra hb t e')
  have k: "good e'" "clears e' \<le> clears e" using 1 by (auto simp: kept_def)
  have refused: "instr_post good clears s i xs prov gas mem e (UnusedGas g) (frame mem (0 # ys) l p e')"
    using 1 assms by (intro nested_refused) auto
  have A: "unat g < 2 ^ 64" using unat_usize [of g] .
  show ?case
  proof (cases "hb \<and> ext_depth X < max_depth (ext_schedule X)")
    case True
    then have d: "ext_depth X < max_depth (ext_schedule X)" by simp
    have "clears e' + unat g < 2 ^ 128" using assms(7) k by simp
    note dc = do_call_wp [OF k(1) d this assms(9,10,8)]
    show ?thesis
      using True
      apply (simp add: wp_bind)
      apply (rule dc)
       apply (simp add: wp_bind [of "push_m _"] wp_push)
       apply (rule nested_unused [where A = "unat g", OF _ assms(2) _ assms(3,6) _ A])
      using assms k apply auto [6]
      apply (simp add: wp_push_done)
      apply (rule nested_failed [OF _ assms(2) _ assms(3)])
      using assms k by auto
  next
    case False
    then show ?thesis using refused by (auto simp: wp_bind wp_push wp_ret Let_def)
  qed
next
  case (2 x e')
  then show ?case by (rule instr_err_kept)
qed

end

context ext_contract
begin

lemma CALL_arm:
  fixes g :: usize
  assumes "good e" "runnable i mem xs l" "i = CALL \<or> i = CALLCODE"
    "allowance (ext_schedule X) i xs (Some g) < 2 ^ 64"
    "clears e + allowance (ext_schedule X) i xs (Some g) < 2 ^ 128"
  shows "instr_wp good clears (ext_schedule X) i xs (Some g) gas (exec_CALL X params i (Some g)) (frame mem xs l p e)"
proof -
  let ?S = "ext_schedule X"
  have st: "call_stipend ?S < call_value_transfer_gas ?S" using sched by (simp add: schedule_ok_def)
  have i: "is_call i" "info_args (INSTRUCTIONS i) = 7" "info_ret (INSTRUCTIONS i) = 1" "i \<noteq> DELEGATECALL"
    "mem_accesses i xs = [(xs ! 3, xs ! 4), (xs ! 5, xs ! 6)]"
    "allowance ?S i xs (Some g) = unat g + (if xs ! 2 \<noteq> 0 then call_stipend ?S else 0)"
    using assms(3) by (elim disjE; simp add: is_call_def mem_accesses_def allowance_def)+
  then obtain rq a v io is' oo os ys where xs: "xs = rq # a # v # io # is' # oo # os # ys"
    using take_args_7 [of xs] runnableD(1) [OF assms(2)] by auto
  have im: "in_mem mem io is'" "in_mem mem oo os"
    using xs i(5) by (auto intro!: runnableD(4) [OF assms(2)])
  have al: "allowance ?S i xs (Some g) = unat g + (if v = 0 then 0 else call_stipend ?S)"
    unfolding i(6) by (simp add: xs)
  have A: "unat g + (if v = 0 then 0 else call_stipend ?S) < 2 ^ 64" using assms(4) unfolding al .
  obtain g' where g': "plus_chk g (stipend ?S (Some v)) = (Ok g' :: usize evm_result)"
    "unat g' = allowance ?S i xs (Some g)"
    using stipend_add [OF A, where v = "Some v" and s = ?S] al by auto
  note tail = CALL_tail [OF assms(1) runnableD(2) [OF assms(2)] i(1), where v = "Some v" and g = g'
      and s = ?S and xs = xs and prov = "Some g" and ys = ys]
  show ?thesis
    unfolding exec_CALL_def
    by (simp only: xs wp_bind wp_lift wp_pop rust_assert_def st if_True res.case expect_simps Let_def
        call_value_def i(4) if_False wp_ret g'(1) machine.select_convs,
        rule tail [unfolded xs wp_bind Let_def])
      (use assms(3,5) g'(2) i(2,3) im runnableD(3) [OF assms(2)] in \<open>simp_all add: xs\<close>)
qed

lemma DELEGATECALL_arm:
  fixes g :: usize
  assumes "good e" "runnable DELEGATECALL mem xs l" "clears e + unat g < 2 ^ 128"
  shows "instr_wp good clears (ext_schedule X) DELEGATECALL xs (Some g) gas
    (exec_CALL X params DELEGATECALL (Some g)) (frame mem xs l p e)"
proof -
  let ?S = "ext_schedule X"
  have st: "call_stipend ?S < call_value_transfer_gas ?S" using sched by (simp add: schedule_ok_def)
  obtain rq a io is' oo os ys where xs: "xs = rq # a # io # is' # oo # os # ys"
    using take_args_6 [of xs] runnableD(1) [OF assms(2)] by auto
  have im: "in_mem mem io is'" "in_mem mem oo os"
    using xs by (auto intro!: runnableD(4) [OF assms(2)] simp: mem_accesses_def)
  have al: "allowance ?S DELEGATECALL zs (Some g) = unat g" for zs by (simp add: allowance_def)
  have ic: "is_call DELEGATECALL" by (simp add: is_call_def)
  obtain g' where g': "plus_chk g (stipend ?S None) = (Ok g' :: usize evm_result)" "unat g' = unat g"
    using stipend_add [where g = g and A = 0 and v = None and s = ?S] unat_usize [of g] by auto
  note tail = CALL_tail [OF assms(1) runnableD(2) [OF assms(2)] ic, where v = None and g = g'
      and s = ?S and xs = xs and prov = "Some g" and ys = ys]
  show ?thesis
    unfolding exec_CALL_def
    by (simp only: xs wp_bind wp_lift wp_pop rust_assert_def st if_True res.case expect_simps Let_def
        call_value_def simp_thms wp_ret g'(1) machine.select_convs,
        rule tail [unfolded xs wp_bind Let_def])
      (use assms(3) g'(2) al im runnableD(3) [OF assms(2)] in \<open>simp_all add: xs\<close>)
qed

end

end
