(* ===== verification/EVM_Safety.thy ===== *)
theory EVM_Safety
  imports EVM_Calls
begin

text \<open>
  The interpreter is safe and ends: under the contract of the externalities no instruction panics,
  every instruction keeps the invariant of the frame and either stops the frame or lowers its gas,
  and a run with gas \<open>g\<close> needs at most \<open>g + 1\<close> iterations of the loop.
\<close>

section \<open>Every instruction\<close>

text \<open>A valid instruction that no other arm takes is one of the stack instructions: the dispatcher
  never reaches its \<open>BadInstruction\<close>.\<close>

lemma remaining_is_stack_instruction:
  assumes "info_tier (INSTRUCTIONS i) \<noteq> Tier_Invalid"
    "i \<notin> {JUMP, JUMPI, JUMPDEST, CREATE, CALL, CALLCODE, DELEGATECALL, RETURN, STOP, SUICIDE}"
    "\<not> (LOG0 \<le> i \<and> i \<le> LOG4)" "\<not> (PUSH1 \<le> i \<and> i \<le> PUSH32)"
    "i \<notin> {MLOAD, MSTORE, MSTORE8, MSIZE, SHA3, SLOAD, SSTORE, GAS, PC, ADDRESS, ORIGIN, BALANCE, CALLER,
      CALLVALUE, CALLDATALOAD, CALLDATASIZE, CODESIZE, EXTCODESIZE, CALLDATACOPY, CODECOPY, EXTCODECOPY,
      GASPRICE, BLOCKHASH, COINBASE, TIMESTAMP, NUMBER, DIFFICULTY, GASLIMIT}"
  shows "is_stack_instruction i"
proof (rule ccontr)
  assume ns: "\<not> is_stack_instruction i"
  have r: "i \<noteq> c" if "LOG0 \<le> c \<and> c \<le> LOG4 \<or> PUSH1 \<le> c \<and> c \<le> PUSH32 \<or>
      DUP1 \<le> c \<and> c \<le> DUP16 \<or> SWAP1 \<le> c \<and> c \<le> SWAP16" for c
    using that assms(3,4) ns by (auto simp: is_stack_instruction_def)
  have s: "i \<notin> {POP, ADD, MUL, SUB, DIV, MOD, SDIV, SMOD, EXP, NOT_op, LT, SLT, GT, SGT, EQ, ISZERO,
           AND_op, OR_op, XOR_op, BYTE, ADDMOD, MULMOD, SIGNEXTEND}"
    using ns by (simp add: is_stack_instruction_def)
  have "INSTRUCTIONS i = InstructionInfo_default"
    using assms(2,5) s by (simp add: INSTRUCTIONS_def r)
  then show False using assms(1) by simp
qed

text \<open>The sizes of the byte vectors an instruction may copy from are machine integers.\<close>

definition params_ok :: "ActionParams \<Rightarrow> bool" where
  "params_ok params \<longleftrightarrow>
     length (bytes_or_empty (ap_data params)) < 2 ^ 64 \<and> length (bytes_or_empty (ap_code params)) < 2 ^ 64"

lemma PC_arm:
  assumes "good e" "runnable PC mem xs l"
  shows "instr_wp good clears s PC xs prov gas exec_PC (frame mem xs l p e)"
  using assms by (auto simp: exec_PC_def wp_rules runnable_def post_simps intro!: instr_post_plain)

lemma MSIZE_arm:
  assumes "good e" "runnable MSIZE mem xs l"
  shows "instr_wp good clears s MSIZE xs prov gas exec_MSIZE (frame mem xs l p e)"
  using assms by (auto simp: exec_MSIZE_def wp_rules runnable_def post_simps intro!: instr_post_plain)

context ext_contract
begin

lemma exec_env_instruction_wp:
  assumes "good e" "runnable i mem xs l" "params_ok params"
    "i \<notin> {PC, ADDRESS, ORIGIN, BALANCE, CALLER, CALLVALUE, CALLDATALOAD, CALLDATASIZE, CODESIZE,
      EXTCODESIZE, CALLDATACOPY, CODECOPY, EXTCODECOPY, GASPRICE, BLOCKHASH, COINBASE, TIMESTAMP, NUMBER,
      DIFFICULTY, GASLIMIT} \<Longrightarrow> is_stack_instruction i"
  shows "instr_wp good clears s i xs None gas (exec_env_instruction X params code i) (frame mem xs l p e)"
proof -
  have pushes: "instr_wp good clears s i xs None gas (push_done v) (frame mem xs l p e)"
    if "i = ADDRESS \<or> i = ORIGIN \<or> i = CALLER \<or> i = CALLVALUE \<or> i = CALLDATASIZE \<or> i = CODESIZE \<or>
      i = GASPRICE \<or> i = COINBASE \<or> i = TIMESTAMP \<or> i = NUMBER \<or> i = DIFFICULTY \<or> i = GASLIMIT" for v
    using that by (intro push_arm assms(1,2); elim disjE) (simp_all add: has_arity_def halts_def)
  have data: "length d < 2 ^ 64" if "ap_data params = Some d" for d
    using assms(3) that by (simp add: params_ok_def bytes_or_empty_def)
  have len: "length (bytes_or_empty (ap_data params)) < 2 ^ 64" "length (bytes_or_empty (ap_code params)) < 2 ^ 64"
    using assms(3) by (auto simp: params_ok_def)
  note r = assms(2)
  show ?thesis
    unfolding exec_env_instruction_def exec_CALLDATASIZE_def
    apply (intro wp_ifI)
    subgoal premises p using r unfolding p by (rule PC_arm [where good = good, OF assms(1)])
    subgoal by (rule pushes) simp
    subgoal by (rule pushes) simp
    subgoal premises p using r unfolding p by (rule BALANCE_arm [OF assms(1)])
    subgoal by (rule pushes) simp
    subgoal by (rule pushes) simp
    subgoal premises p using r unfolding p by (rule CALLDATALOAD_arm [where good = good, OF assms(1) _ data])
    subgoal by (rule pushes) simp
    subgoal by (rule pushes) simp
    subgoal premises p using r unfolding p by (rule EXTCODESIZE_arm [OF assms(1)])
    subgoal by (rule data_copy_arm [where good = good, OF assms(1,2) _ len(1)]) simp
    subgoal by (rule data_copy_arm [where good = good, OF assms(1,2) _ len(2)]) simp
    subgoal premises p using r unfolding p by (rule EXTCODECOPY_arm [OF assms(1)])
    subgoal by (rule pushes) simp
    subgoal premises p using r unfolding p by (rule BLOCKHASH_arm [OF assms(1)])
    subgoal by (rule pushes) simp
    subgoal by (rule pushes) simp
    subgoal by (rule pushes) simp
    subgoal by (rule pushes) simp
    subgoal by (rule pushes) simp
    subgoal by (rule stack_arm [where good = good, OF assms(1,2)], rule assms(4)) simp
    done
qed

lemma exec_instruction_wp:
  fixes prov :: "usize option"
  assumes "good e" "runnable i mem xs l" "params_ok params" "p \<le> length code"
    "info_tier (INSTRUCTIONS i) \<noteq> Tier_Invalid" "prov = None \<longleftrightarrow> \<not> is_call i"
    "allowance (ext_schedule X) i xs prov < 2 ^ 64"
    "clears e + allowance (ext_schedule X) i xs prov + (if i = CREATE then 1 else 0) < 2 ^ 128"
  shows "instr_wp good clears (ext_schedule X) i xs prov gas
    (exec_instruction X sha3 gas params code i prov) (frame mem xs l p e)"
proof -
  note r = assms(2)
  have call: "\<exists>g. prov = Some g" if "is_call i" using that assms(6) by auto
  have none: "prov = None" if "\<not> is_call i" using that assms(6) by auto
  have cl: "clears e < 2 ^ 256 - 1" using assms(8) by simp
  show ?thesis
    unfolding exec_instruction_def
    apply (intro wp_ifI)
    subgoal premises p using r unfolding p by (rule JUMP_arm [where good = good, OF assms(1)])
    subgoal premises p using r unfolding p by (rule JUMPI_arm [where good = good, OF assms(1)])
    subgoal premises p using r unfolding p by (rule JUMPDEST_arm [where good = good, OF assms(1)])
    subgoal premises p
    proof -
      obtain g where "prov = Some g" using call p by (auto simp: is_call_def)
      then show ?thesis using r assms(8) unfolding p(4)
        by (simp only:) (rule CREATE_arm [OF assms(1)], auto simp: allowance_def)
    qed
    subgoal premises p
    proof -
      obtain g where g: "prov = Some g" using call p by (auto simp: is_call_def)
      show ?thesis
      proof (cases "i = DELEGATECALL")
        case True
        then show ?thesis using r assms(8) unfolding g True
          by (intro DELEGATECALL_arm [OF assms(1)]) (auto simp: allowance_def)
      next
        case False
        then show ?thesis using p assms(7,8) unfolding g by (intro CALL_arm [OF assms(1,2)]) auto
      qed
    qed
    subgoal premises p using r unfolding p by (rule RETURN_arm [where good = good, OF assms(1)])
    subgoal premises p using r unfolding p by (rule STOP_arm [where good = good, OF assms(1)])
    subgoal premises p using r unfolding p by (rule SUICIDE_arm [OF assms(1)])
    subgoal by (rule LOG_arm [OF assms(1,2)])
    subgoal by (rule PUSH_arm [where good = good, OF assms(1,2) _ assms(4)]) (simp add: is_push_def)
    subgoal premises p using r unfolding p by (rule MLOAD_arm [where good = good, OF assms(1)])
    subgoal premises p using r unfolding p by (rule MSTORE_arm [where good = good, OF assms(1)])
    subgoal premises p using r unfolding p by (rule MSTORE8_arm [where good = good, OF assms(1)])
    subgoal premises p using r unfolding p by (rule MSIZE_arm [where good = good, OF assms(1)])
    subgoal premises p using r unfolding p by (rule SHA3_arm [where good = good, OF assms(1)])
    subgoal premises p using r unfolding p by (rule SLOAD_arm [OF assms(1)])
    subgoal premises p
    proof -
      have "prov = None" using none p by (simp add: is_call_def)
      then show ?thesis using r cl unfolding p(17) by (simp only:) (rule SSTORE_arm [OF assms(1)])
    qed
    subgoal premises p by (rule push_arm [where good = good, OF assms(1,2)]) (simp_all add: p(18) has_arity_def halts_def)
    subgoal premises p
    proof -
      have "prov = None" using none p by (simp add: is_call_def)
      moreover have "is_stack_instruction i"
        if "i \<notin> {PC, ADDRESS, ORIGIN, BALANCE, CALLER, CALLVALUE, CALLDATALOAD, CALLDATASIZE, CODESIZE,
          EXTCODESIZE, CALLDATACOPY, CODECOPY, EXTCODECOPY, GASPRICE, BLOCKHASH, COINBASE, TIMESTAMP, NUMBER,
          DIFFICULTY, GASLIMIT}"
        using p that by (intro remaining_is_stack_instruction assms(5)) auto
      ultimately show ?thesis
        by (simp only:) (rule exec_env_instruction_wp [OF assms(1-3)])
    qed
    done
qed

end

section \<open>One step of the loop\<close>

text \<open>The invariant of a frame. \<open>K\<close> bounds the storage clears seen so far plus the gas left; \<open>B\<close>, the gas
  the frame started with, bounds the price of its memory plus the gas left.\<close>

definition frame_inv ::
  "('e \<Rightarrow> bool) \<Rightarrow> ('e \<Rightarrow> nat) \<Rightarrow> Schedule \<Rightarrow> nat \<Rightarrow> nat \<Rightarrow> usize Gasometer \<Rightarrow> 'e machine \<Rightarrow> bool" where
  "frame_inv good clears s K B G m \<longleftrightarrow>
     good (m_ext m) \<and> vs_inv (m_stack m) \<and> length (contents (m_stack m)) \<le> stack_limit s \<and>
     mem_gas_inv G s (length (m_mem m)) \<and>
     clears (m_ext m) + unat (current_gas G) \<le> K \<and>
     mem_gas_spec s (length (m_mem m)) + unat (current_gas G) \<le> B"

definition step_post ::
  "('e \<Rightarrow> bool) \<Rightarrow> ('e \<Rightarrow> nat) \<Rightarrow> Schedule \<Rightarrow> nat \<Rightarrow> nat \<Rightarrow> usize Gasometer \<Rightarrow>
   usize InstructionResult \<times> usize Gasometer \<Rightarrow> 'e machine \<Rightarrow> bool" where
  "step_post good clears s K B G rG m \<longleftrightarrow> (case rG of (r, G') \<Rightarrow>
     frame_inv good clears s K B G' m \<and>
     (stops r \<or> unat (current_gas G') < unat (current_gas G)) \<and>
     unat (current_gas G') \<le> unat (current_gas G) \<and>
     (\<forall>g off sz. r = StopExecutionNeedsReturn g off sz \<longrightarrow> g = current_gas G' \<and> in_mem (m_mem m) off sz))"

lemma verify_instruction_wp:
  assumes "length xs \<le> stack_limit s"
    "info_args info \<le> length xs \<Longrightarrow> info_tier info \<noteq> Tier_Invalid \<Longrightarrow>
       length xs + info_ret info \<le> stack_limit s + info_args info \<Longrightarrow> Q () m"
    "\<And>x. E x m"
  shows "wp (sm_lift (verify_instruction s i info (stk xs l))) Q E m"
  using assms by (auto simp: verify_instruction_def wp_lift)

lemma allowance_bound:
  assumes "reqs_ok s i xs cur r" "schedule_ok s"
  shows "allowance s i xs (provide_gas r) + mem_gas_spec s (max cur (memory_required_size r))
      \<le> unat (gas_cost r) + mem_gas_spec s cur"
    "\<not> halts i \<Longrightarrow> allowance s i xs (provide_gas r) < unat (gas_cost r)"
    "allowance s i xs (provide_gas r) + (if i = SSTORE \<or> i = CREATE then 1 else 0) \<le> unat (gas_cost r)"
proof -
  have st: "call_stipend s < call_value_transfer_gas s" using assms(2) by (simp add: schedule_ok_def)
  have mono: "mem_gas_spec s cur \<le> mem_gas_spec s (max cur (memory_required_size r))"
    by (rule mem_gas_spec_mono) simp
  have "allowance s i xs (provide_gas r) + mem_gas_spec s (max cur (memory_required_size r))
      \<le> unat (gas_cost r) + mem_gas_spec s cur \<and>
    (\<not> halts i \<longrightarrow> allowance s i xs (provide_gas r) < unat (gas_cost r)) \<and>
    (halts i \<longrightarrow> allowance s i xs (provide_gas r) = 0)"
  proof (cases "provide_gas r")
    case None
    then show ?thesis using assms(1) by (auto simp: reqs_ok_def allowance_def)
  next
    case (Some p)
    then have ic: "is_call i" using assms(1) by (auto simp: reqs_ok_def)
    have "mem_gas_spec s (max cur (memory_required_size r)) + value_charge s i xs + unat p
        < unat (gas_cost r) + mem_gas_spec s cur" using assms(1) Some by (simp add: reqs_ok_def)
    moreover have "allowance s i xs (Some p) \<le> value_charge s i xs + unat p"
      using st by (simp add: allowance_def value_charge_def)
    moreover have "\<not> halts i" using ic by (auto simp: is_call_def halts_def)
    ultimately show ?thesis using mono Some by auto
  qed
  then show "allowance s i xs (provide_gas r) + mem_gas_spec s (max cur (memory_required_size r))
      \<le> unat (gas_cost r) + mem_gas_spec s cur"
    "\<not> halts i \<Longrightarrow> allowance s i xs (provide_gas r) < unat (gas_cost r)"
    "allowance s i xs (provide_gas r) + (if i = SSTORE \<or> i = CREATE then 1 else 0) \<le> unat (gas_cost r)"
    by (auto simp: halts_def)
qed

text \<open>After the instruction: its unused gas comes back, and the invariant holds again.\<close>

lemma after_instruction:
  fixes G :: "usize Gasometer" and gas :: usize
  assumes "reqs_ok s i xs cur r" "schedule_ok s" "unat gas = unat (current_gas G) - unat (gas_cost r)"
    "unat (gas_cost r) \<le> unat (current_gas G)" "cur mod 32 = 0" "cur < 2 ^ 64"
    "length mem = max cur (memory_required_size r)"
    "clears e + unat (current_gas G) \<le> K" "mem_gas_spec s cur + unat (current_gas G) \<le> B"
    "length xs + info_ret (INSTRUCTIONS i) \<le> stack_limit s + info_args (INSTRUCTIONS i)"
    "runnable i mem xs l" "instr_post good clears s i xs (provide_gas r) gas mem e res m"
  shows "\<exists>gas'. (case res of UnusedGas g \<Rightarrow> plus_chk gas g | _ \<Rightarrow> Ok gas) = (Ok gas' :: usize evm_result) \<and>
    step_post good clears s K B G
      (res, \<lparr>current_gas = gas', current_mem_gas = memory_total_gas r\<rparr>) m"
proof -
  note ab = allowance_bound [OF assms(1,2)]
  note ip = assms(12) [unfolded instr_post_def]
  let ?A = "allowance s i xs (provide_gas r)"
  have u: "unused res \<le> ?A" "?A \<le> unat (gas_cost r)" using ip ab(3) by auto
  have su: "unat gas + unused res < 2 ^ 64"
    using u assms(3,4) unat_usize [of "current_gas G"] by linarith
  obtain gas' where g: "(case res of UnusedGas g \<Rightarrow> plus_chk gas g | _ \<Rightarrow> Ok gas) = (Ok gas' :: usize evm_result)"
    "unat gas' = unat gas + unused res"
    using su by (cases res) (auto simp: plus_chk_def unat_add_small)
  have le: "unat gas' + unat (gas_cost r) \<le> unat (current_gas G) + ?A" using g(2) u assms(3,4) by linarith
  have m32: "max cur (memory_required_size r) mod 32 = 0" "max cur (memory_required_size r) < 2 ^ 64"
    using assms(1,5,6) by (auto simp: reqs_ok_def max_def)
  have mg: "unat (memory_total_gas r) = mem_gas_spec s (max cur (memory_required_size r))"
    using assms(1) by (simp add: reqs_ok_def)
  have cl: "clears (m_ext m) + unat gas' \<le> K"
    using ip ab(3) assms(3,4,8) g(2) by linarith
  have bd: "mem_gas_spec s (length (m_mem m)) + unat gas' \<le> B"
    using ip ab(1) assms(7,9) le by simp
  have lt: "stops res \<or> unat gas' < unat (current_gas G)"
  proof (cases "halts i")
    case True then show ?thesis using ip by simp
  next
    case False
    then show ?thesis using ab(2) le by linarith
  qed
  have ret: "g' = gas' \<and> in_mem (m_mem m) off sz" if "res = StopExecutionNeedsReturn g' off sz" for g' off sz
  proof -
    have "in_mem mem off sz" using ip that runnableD(4) [OF assms(11), of off sz] by auto
    then have "in_mem (m_mem m) off sz" using ip by (simp add: in_mem_def)
    moreover have "gas' = gas" using g(1) that by simp
    ultimately show ?thesis using ip that by simp
  qed
  have "frame_inv good clears s K B \<lparr>current_gas = gas', current_mem_gas = memory_total_gas r\<rparr> m"
    using ip cl bd m32 mg assms(7,10) by (simp add: frame_inv_def mem_gas_inv_def)
  then show ?thesis using g(1) lt le u ret by (intro exI [of _ gas']) (auto simp: step_post_def)
qed


context ext_contract
begin

lemma exec_step_wp:
  assumes "frame_inv good clears (ext_schedule X) K B G m" "m_pos m < length code" "params_ok params" "K < 2 ^ 128"
  shows "wp (exec_step X sha3 params code G) (step_post good clears (ext_schedule X) K B G)
    (\<lambda>_ m'. good (m_ext m') \<and> clears (m_ext m') \<le> K) m"
proof -
  let ?S = "ext_schedule X" and ?E = "\<lambda>_ m'. good (m_ext m') \<and> clears (m_ext m') \<le> K"
  obtain mem xs l pos e where m: "m = frame mem xs l pos e"
    by (metis machine.surjective old.unit.exhaust stack_exhaust)
  let ?i = "code ! pos" and ?cur = "length mem"
  have inv: "good e" "length l = MAX_NO_OF_TOPICS" "length xs \<le> stack_limit ?S"
    "mem_gas_inv G ?S ?cur" "clears e + unat (current_gas G) \<le> K" "mem_gas_spec ?S ?cur + unat (current_gas G) \<le> B"
    using assms(1) by (auto simp: frame_inv_def m)
  have cur: "?cur mod 32 = 0" "?cur < 2 ^ 64" using inv(4) by (auto simp: mem_gas_inv_def)
  have run: "wp (sm_bind (exec_instruction X sha3 gas params code ?i (provide_gas r)) (\<lambda>result.
     sm_bind (sm_lift (case result of UnusedGas g \<Rightarrow> plus_chk gas g | _ \<Rightarrow> Ok gas)) (\<lambda>gas'.
     sm_bind (trace_after X False (INSTRUCTIONS ?i) (as_u256 gas') None None) (\<lambda>_.
     sm_ret (result, \<lparr>current_gas = gas', current_mem_gas = memory_total_gas r\<rparr>)))))
     (step_post good clears ?S K B G) ?E (frame (expand mem (memory_required_size r)) xs l (pos + 1) e')"
    if v: "info_args (INSTRUCTIONS ?i) \<le> length xs" "info_tier (INSTRUCTIONS ?i) \<noteq> Tier_Invalid"
      "length xs + info_ret (INSTRUCTIONS ?i) \<le> stack_limit ?S + info_args (INSTRUCTIONS ?i)"
      and ro: "reqs_ok ?S ?i xs ?cur r" and k: "kept good clears e e'"
      and gs: "gas = current_gas G - gas_cost r" "gas_cost r \<le> current_gas G" for r e' gas
  proof -
    let ?mem = "expand mem (memory_required_size r)"
    have ug: "unat gas = unat (current_gas G) - unat (gas_cost r)" "unat (gas_cost r) \<le> unat (current_gas G)"
      using gs by (auto simp: unat_minus_le word_le_nat_alt)
    have rn: "runnable ?i ?mem xs l"
      using v inv ro cur covered_mono [of "mem_accesses ?i xs" "memory_required_size r" "length ?mem"]
      by (auto simp: runnable_def reqs_ok_def)
    note ab = allowance_bound [OF ro sched]
    have al: "allowance ?S ?i xs (provide_gas r) < 2 ^ 64"
      "clears e' + allowance ?S ?i xs (provide_gas r) + (if ?i = CREATE then 1 else 0) < 2 ^ 128"
      using ab(3) ug unat_usize [of "current_gas G"] inv(5) assms(4) k by (auto simp: kept_def)
    have pn: "provide_gas r = None \<longleftrightarrow> \<not> is_call ?i" using ro by (simp add: reqs_ok_def)
    have p: "pos + 1 \<le> length code" using assms(2) by (simp add: m)
    have e': "good e'" "clears e' + unat (current_gas G) \<le> K" using k inv(5) by (auto simp: kept_def)
    note ei = exec_instruction_wp [OF e'(1) rn assms(3) p v(2) pn al, where gas = gas]
    show ?thesis
      unfolding wp_bind [of "exec_instruction X sha3 gas params code ?i (provide_gas r)"]
    proof (rule wp_mono [OF ei], goal_cases)
      case (1 res m')
      have "\<exists>gas'. (case res of UnusedGas g \<Rightarrow> plus_chk gas g | _ \<Rightarrow> Ok gas) = (Ok gas' :: usize evm_result) \<and>
          step_post good clears ?S K B G
            (res, \<lparr>current_gas = gas', current_mem_gas = memory_total_gas r\<rparr>) m'"
        by (rule after_instruction [where good = good and clears = clears, OF ro sched ug cur _ e'(2) inv(6) v(3) rn]) (use 1 in simp_all)
      then show ?case
        unfolding wp_bind [of "sm_lift _"]
        by (rule wp_someI) (simp add: trace_after_def wp_ret)
    next
      case (2 x m')
      then show ?case using ab(3) ug e'(2) by (auto simp: instr_err_def)
    qed
  qed
  show ?thesis
    unfolding exec_step_def m Let_def wp_bind wp_get wp_modify machine.select_convs machine.update_convs
  proof (rule verify_instruction_wp [OF inv(3)], goal_cases)
    case 1
    note v = 1
    note req = requirements_wp [OF inv(1) v(1,2) inv(4)]
    show ?case
      unfolding mem_size_def wp_on_ext machine.select_convs
    proof (rule wp_mono [OF req], goal_cases)
      case (1 r e')
      then have k: "kept good clears e e'" and ro: "reqs_ok ?S ?i xs ?cur r" by auto
      obtain e'' where t: "ext_trace_prepare_execute X pos ?i (as_u256 (gas_cost r)) e' = (Ok False, e'')"
        "kept good clears e e''"
        using no_trace [of e' pos ?i "as_u256 (gas_cost r)"] k by (auto simp: kept_def)
      have tw: "wp (ext_trace_prepare_execute X pos ?i (as_u256 (gas_cost r))) Q E' e' = Q False e''" for Q E'
        using t(1) by (simp add: wp_def)
      show ?case
      proof (cases "gas_cost r \<le> current_gas G")
        case True
        then have "\<not> current_gas G < gas_cost r" by simp
        then show ?thesis
          using run [OF v ro t(2) HOL.refl True] True
          by (simp add: tw wp_lift verify_gas_def minus_chk_def trace_before_def wp_ret)
      next
        case False
        then have "current_gas G < gas_cost r" by simp
        then show ?thesis using t(2) inv(5)
          by (simp add: tw wp_lift verify_gas_def kept_def)
      qed
    next
      case (2 x e')
      then show ?case using inv by (simp add: kept_def)
    qed
  next
    case (2 x) then show ?case using inv by simp
  qed
qed

end

section \<open>The loop\<close>

primrec gas_of :: "GasLeft \<Rightarrow> u256" where
  "gas_of (Known g) = g"
| "gas_of (NeedsReturn g d) = g"

primrec ret_data :: "GasLeft \<Rightarrow> bytes" where
  "ret_data (Known g) = []"
| "ret_data (NeedsReturn g d) = d"

text \<open>What a run hands back: no more gas than it was given, storage clears paid for by the gas it spent,
  and return data of a size that is a machine integer.\<close>

definition run_post :: "('e \<Rightarrow> bool) \<Rightarrow> ('e \<Rightarrow> nat) \<Rightarrow> nat \<Rightarrow> nat \<Rightarrow> GasLeft \<Rightarrow> 'e \<Rightarrow> bool" where
  "run_post good clears K g r e \<longleftrightarrow>
     good e \<and> unat (gas_of r) \<le> g \<and> clears e + unat (gas_of r) \<le> K \<and> length (ret_data r) < 2 ^ 64"

definition run_err :: "('e \<Rightarrow> bool) \<Rightarrow> ('e \<Rightarrow> nat) \<Rightarrow> nat \<Rightarrow> 'e \<Rightarrow> bool" where
  "run_err good clears K e \<longleftrightarrow> good e \<and> clears e \<le> K"

lemma frame_inv_pos [simp]:
  "frame_inv good clears s K B G (m\<lparr>m_pos := p\<rparr>) = frame_inv good clears s K B G m"
  by (simp add: frame_inv_def)

lemma wp_zoom:
  "wp (\<lambda>e. case f (into e) of (r, m) \<Rightarrow> (r, out m)) Q E e =
     wp f (\<lambda>a m. Q a (out m)) (\<lambda>x m. E x (out m)) (into e)"
  by (auto simp: wp_def split: prod.splits res.splits)

context ext_contract
begin

lemma exec_loop_wp:
  assumes "frame_inv good clears (ext_schedule X) K B G m" "params_ok params" "K < 2 ^ 128"
    "unat (current_gas G) < fuel"
  shows "wp (exec_loop fuel X sha3 params code dests G)
    (\<lambda>r m'. run_post good clears K (unat (current_gas G)) r (m_ext m'))
    (\<lambda>_ m'. run_err good clears K (m_ext m')) m"
  using assms(1,4)
proof (induction fuel arbitrary: G m)
  case (Suc fuel)
  let ?g = "unat (current_gas G)"
  have stop: "run_post good clears K ?g (Known (as_u256 (current_gas G'))) (m_ext m')"
    if "frame_inv good clears (ext_schedule X) K B G' m'" "unat (current_gas G') \<le> ?g" for G' m'
    using that by (simp add: run_post_def frame_inv_def)
  have rec: "wp (exec_loop fuel X sha3 params code dests G')
      (\<lambda>r m'. run_post good clears K ?g r (m_ext m')) (\<lambda>_ m'. run_err good clears K (m_ext m')) m'"
    if "frame_inv good clears (ext_schedule X) K B G' m'" "unat (current_gas G') < ?g" for G' m'
    using Suc.prems(2) that by (intro wp_mono [OF Suc.IH [OF that(1)]]) (auto simp: run_post_def)
  show ?case
  proof (cases "m_pos m < length code")
    case True
    note step = exec_step_wp [OF Suc.prems(1) True assms(2,3)]
    show ?thesis
      unfolding exec_loop.simps wp_bind wp_get if_P [OF True]
    proof (rule wp_mono [OF step], goal_cases)
      case (1 rG m')
      obtain r G' where rG: "rG = (r, G')" by fastforce
      note post = 1 [unfolded step_post_def rG prod.case]
      show ?case
      proof (cases r)
        case IR_Ok
        then show ?thesis using post rec [of G' m'] by (simp add: rG stops_def)
      next
        case (UnusedGas g)
        then show ?thesis using post rec [of G' m'] by (simp add: rG stops_def)
      next
        case (JumpToPosition p)
        then show ?thesis using post rec [of G'] by (auto simp: rG stops_def wp_bind wp_modify frame_inv_def run_err_def
              intro!: wp_liftI)
      next
        case (StopExecutionNeedsReturn g off sz)
        then have im: "in_mem (m_mem m') off sz" "g = current_gas G'" using post by auto
        moreover have "length (m_mem m') < 2 ^ 64" using post by (simp add: frame_inv_def mem_gas_inv_def)
        ultimately obtain d where "read_slice (m_mem m') off sz = (Ok d :: bytes evm_result)" "length d < 2 ^ 64"
          using read_slice_length by blast
        then show ?thesis using post StopExecutionNeedsReturn im
          by (simp add: rG wp_bind wp_get_mem wp_lift wp_ret run_post_def frame_inv_def)
      next
        case StopExecution
        then show ?thesis using post stop by (simp add: rG wp_ret)
      qed
    next
      case (2 x m')
      then show ?case by (simp add: run_err_def)
    qed
  next
    case False
    then show ?thesis using Suc.prems(1) by (simp add: wp_rules stop)
  qed
qed simp

lemma exec_wp:
  assumes "good e" "params_ok params" "ap_code params \<noteq> None" "\<And>h c. \<exists>D. jumps h c = Ok D"
    "clears e + unat (ap_gas params) < 2 ^ 128"
  shows "wp (exec TYPE(64) X sha3 jumps params)
    (run_post good clears (clears e + unat (ap_gas params)) (unat (ap_gas params)))
    (\<lambda>_. run_err good clears (clears e + unat (ap_gas params))) e"
proof -
  obtain code where code: "ap_code params = Some code" using assms(3) by auto
  obtain D where D: "jumps (ap_code_hash params) code = Ok D" using assms(4) by blast
  have err: "run_err good clears (clears e + unat (ap_gas params)) e" using assms(1) by (simp add: run_err_def)
  have run: "wp (\<lambda>e. case exec_loop (Suc (unat gas)) X sha3 params code D (Gasometer_new gas)
               \<lparr>m_mem = [], m_stack = with_capacity 0, m_pos = 0, m_ext = e\<rparr> of
             (r, m) \<Rightarrow> (r, m_ext m))
      (run_post good clears (clears e + unat (ap_gas params)) (unat (ap_gas params)))
      (\<lambda>_. run_err good clears (clears e + unat (ap_gas params))) e"
    if "from_u256 (ap_gas params) = Ok (gas :: usize)" for gas
  proof -
    let ?m = "\<lparr>m_mem = [], m_stack = with_capacity 0, m_pos = 0, m_ext = e\<rparr>"
    have g: "unat gas = unat (ap_gas params)" using from_u256_usize_unat [OF that] .
    have "frame_inv good clears (ext_schedule X) (clears e + unat (ap_gas params)) (unat gas) (Gasometer_new gas) ?m"
      using assms(1) g
      by (simp add: frame_inv_def Gasometer_new_def mem_gas_inv_def mem_gas_spec_def with_capacity_stk)
    from exec_loop_wp [OF this assms(2,5), of "Suc (unat gas)" sha3 code D]
    have "wp (exec_loop (Suc (unat gas)) X sha3 params code D (Gasometer_new gas))
        (\<lambda>r m. run_post good clears (clears e + unat (ap_gas params)) (unat (ap_gas params)) r (m_ext m))
        (\<lambda>_ m. run_err good clears (clears e + unat (ap_gas params)) (m_ext m)) ?m"
      using g by (simp add: Gasometer_new_def del: exec_loop.simps)
    then show ?thesis
      by (rule wp_zoom [where into = "\<lambda>e. \<lparr>m_mem = [], m_stack = with_capacity 0, m_pos = 0, m_ext = e\<rparr>"
            and out = m_ext, THEN iffD2])
  qed
  show ?thesis
  proof (cases "from_u256 (ap_gas params) :: usize evm_result")
    case (Ok gas)
    then show ?thesis
      unfolding exec_def wp_bind wp_lift code expect_simps res.case D by (simp only: res.case) (rule run)
  next
    case (Err x)
    then show ?thesis unfolding exec_def wp_bind wp_lift code expect_simps res.case D by (simp add: err)
  qed (simp_all add: err)
qed

end

end
