(* ===== verification/State_Safety.thy ===== *)
theory State_Safety
  imports State_Operations
begin

text \<open>
  The operations of the state do not panic: on a database that opens and decodes, with nonces and
  code of realistic size, every operation returns, and the nonces and the code the state holds stay
  bounded. The bound is the greatest nonce the state holds, which an operation raises by one at most.
\<close>

section \<open>What the state holds\<close>

definition cached :: "('d, 'l) State \<Rightarrow> 'l Account set" where
  "cached s = {acc. \<exists>a x. map_of (st_cache s) a = Some x \<and> en_account x = Some acc}"

definition noted :: "('d, 'l) State \<Rightarrow> 'l Account set" where
  "noted s = {acc. \<exists>cp \<in> set (st_checkpoints s). \<exists>k v. (k, Some v) \<in> set cp \<and> en_account v = Some acc}"

definition accts :: "('d, 'l) State \<Rightarrow> 'l Account set" where
  "accts s = cached s \<union> noted s"

definition nonce_of :: "'l Account \<Rightarrow> nat" where
  "nonce_of acc = unat (ac_nonce acc)"

definition small :: "'l Account \<Rightarrow> bool" where
  "small acc \<longleftrightarrow> length (ac_code_cache acc) < 2 ^ 64 \<and> (\<forall>n. ac_code_size acc = Some n \<longrightarrow> n < 2 ^ 64)"

text \<open>The database under the state: its root opens, what is read decodes, stored nonces and code are of
  a realistic size.\<close>

definition db_ok :: "('d, 'm, 'l) Libs \<Rightarrow> 'd base \<Rightarrow> bool" where
  "db_ok L B \<longleftrightarrow>
     tf_readonly (lib_trie L) (lib_db L) (b_db B) (b_root B) = Ok () \<and>
     (\<forall>a. returns (load L B a)) \<and>
     (\<forall>a acc. load L B a = Ok (Some acc) \<longrightarrow> nonce_of acc \<le> 2 ^ 64) \<and>
     (\<forall>h r k. returns (trie_storage L (accountdb_readonly L (b_factory B) (lib_db L) h) (b_db B) r k)) \<and>
     (\<forall>h k c. hd_get (accountdb_readonly L (b_factory B) (lib_db L) h) (b_db B) k = Some c \<longrightarrow>
        length c < 2 ^ 64)"

definition state_good :: "('d, 'm, 'l) Libs \<Rightarrow> ('d, 'l) State \<Rightarrow> bool" where
  "state_good L s \<longleftrightarrow> db_ok L (base_of s) \<and> unat (st_account_start_nonce s) \<le> 2 ^ 64 \<and> (\<forall>acc \<in> accts s. small acc)"

text \<open>The greatest nonce there is; stored nonces count as \<open>2^64\<close>.\<close>

definition peak :: "('d, 'l) State \<Rightarrow> nat" where
  "peak s = Max (insert (2 ^ 64) (nonce_of ` accts s))"

lemma finite_accts [simp]: "finite (accts s)"
proof -
  have "cached s \<subseteq> (\<Union>x \<in> ran (map_of (st_cache s)). set_option (en_account x))"
    by (force simp: cached_def ran_def)
  moreover have "finite (\<Union>x \<in> ran (map_of (st_cache s)). set_option (en_account x))"
    by (simp add: finite_ran)
  ultimately have c: "finite (cached s)" by (rule finite_subset)
  have "noted s \<subseteq> (\<Union>cp \<in> set (st_checkpoints s). \<Union>kv \<in> set cp. \<Union>v \<in> set_option (snd kv). set_option (en_account v))"
    by (force simp: noted_def)
  moreover have "finite (\<Union>cp \<in> set (st_checkpoints s). \<Union>kv \<in> set cp. \<Union>v \<in> set_option (snd kv). set_option (en_account v))"
    by simp
  ultimately have "finite (noted s)" by (rule finite_subset)
  with c show ?thesis by (simp add: accts_def)
qed

lemma peak_ge: "acc \<in> accts s \<Longrightarrow> nonce_of acc \<le> peak s" "2 ^ 64 \<le> peak s"
  by (simp_all add: peak_def)

text \<open>\<open>settled s s'\<close>: what \<open>s'\<close> holds is small and has nonces that \<open>s\<close> has, or small ones.\<close>

definition settled :: "('d, 'm, 'l) Libs \<Rightarrow> nat \<Rightarrow> ('d, 'l) State \<Rightarrow> ('d, 'l) State \<Rightarrow> bool" where
  "settled L N s s' \<longleftrightarrow> base_of s' = base_of s \<and>
     st_account_start_nonce s' = st_account_start_nonce s \<and>
     (\<forall>acc \<in> accts s'. small acc \<and> nonce_of acc \<le> N)"

lemma settled_good:
  "state_good L s \<Longrightarrow> settled L N s s' \<Longrightarrow> state_good L s'"
  by (auto simp: state_good_def settled_def)

lemma settled_peak: "settled L N s s' \<Longrightarrow> 2 ^ 64 \<le> N \<Longrightarrow> peak s' \<le> N"
  by (simp add: settled_def peak_def)

lemma settled_refl: "state_good L s \<Longrightarrow> settled L (peak s) s s"
  by (simp add: settled_def state_good_def peak_ge)

text \<open>Replacing the entry of an address, with or without a note.\<close>

lemma cached_update:
  "cached (s\<lparr>st_cache := AList.update a x (st_cache s)\<rparr>) \<subseteq> cached s \<union> set_option (en_account x)"
  by (auto simp: cached_def map_of_update split: if_splits)

lemma noted_cache [simp]: "noted (s\<lparr>st_cache := c\<rparr>) = noted s"
  by (simp add: noted_def)

lemma cached_checkpoints [simp]: "cached (s\<lparr>st_checkpoints := c\<rparr>) = cached s"
  by (simp add: cached_def)

lemma set_update_subset: "set (AList.update k v al) \<subseteq> insert (k, v) (set al)"
  by (induction al) auto

lemma set_update_new: "map_of al k = None \<Longrightarrow> set (AList.update k v al) = insert (k, v) (set al)"
  by (induction al) (auto split: if_splits)

lemma noted_note:
  "noted (s\<lparr>st_checkpoints := note_in_checkpoint a n (st_checkpoints s)\<rparr>) \<subseteq>
     noted s \<union> (case n of None \<Rightarrow> {} | Some v \<Rightarrow> set_option (en_account v))"
proof
  fix acc assume "acc \<in> noted (s\<lparr>st_checkpoints := note_in_checkpoint a n (st_checkpoints s)\<rparr>)"
  then obtain cp k v where cp: "cp \<in> set (note_in_checkpoint a n (st_checkpoints s))"
    "(k, Some v) \<in> set cp" "en_account v = Some acc" by (auto simp: noted_def)
  then consider "cp \<in> set (st_checkpoints s)"
    | "st_checkpoints s \<noteq> []" "cp = AList.update a n (last (st_checkpoints s))"
    by (auto simp: note_in_checkpoint_def dest: in_set_butlastD split: if_splits)
  then show "acc \<in> noted s \<union> (case n of None \<Rightarrow> {} | Some v \<Rightarrow> set_option (en_account v))"
  proof cases
    case 1
    then show ?thesis using cp by (auto simp: noted_def)
  next
    case 2
    then have "(k, Some v) \<in> insert (a, n) (set (last (st_checkpoints s)))"
      using cp(2) set_update_subset by fastforce
    then show ?thesis using cp(3) last_in_set [OF 2(1)] by (auto simp: noted_def)
  qed
qed

text \<open>An operation that replaces the entry of one address.\<close>

lemma settled_update:
  assumes s: "state_good L s" "peak s \<le> N" and x: "\<And>acc. en_account x = Some acc \<Longrightarrow> small acc \<and> nonce_of acc \<le> N"
  shows "settled L N s (s\<lparr>st_cache := AList.update a x (st_cache s)\<rparr>)"
  using s x cached_update [of a x s] peak_ge(1) [of _ s]
  by (fastforce simp: settled_def accts_def state_good_def)

lemma settled_note:
  assumes s: "settled L N s s1" and n: "\<And>v acc. n = Some v \<Longrightarrow> en_account v = Some acc \<Longrightarrow> small acc \<and> nonce_of acc \<le> N"
  shows "settled L N s (s1\<lparr>st_checkpoints := note_in_checkpoint a n (st_checkpoints s1)\<rparr>)"
  using s n noted_note [where s = s1 and a = a and n = n]
  by (fastforce simp: settled_def accts_def split: option.splits)

lemma settled_trans: "settled L N s s1 \<Longrightarrow> settled L M s1 s2 \<Longrightarrow> settled L M s s2"
  by (simp add: settled_def)

lemma settled_mono: "settled L N s s' \<Longrightarrow> N \<le> M \<Longrightarrow> settled L M s s'"
  by (auto simp: settled_def)

lemma cached_acct: "map_of (st_cache s) a = Some x \<Longrightarrow> en_account x = Some acc \<Longrightarrow> acc \<in> accts s"
  by (auto simp: accts_def cached_def)

lemma good_acct:
  "state_good L s \<Longrightarrow> acc \<in> accts s \<Longrightarrow> small acc \<and> nonce_of acc \<le> peak s"
  by (simp add: state_good_def peak_ge)

section \<open>The operations return\<close>

lemma refresh_small:
  assumes s: "state_good L s" and acc: "small acc"
  shows "small (refresh_account L s rq a acc)" "nonce_of (refresh_account L s rq a acc) = nonce_of acc"
proof -
  obtain h acc' where h: "Account_address_hash L a acc = (h, acc')" by fastforce
  have acc': "ac_nonce acc' = ac_nonce acc" "small acc'"
    using h acc by (auto simp: Account_address_hash_def Let_def small_def split: option.splits)
  have c: "hd_get (account_db L s h) (st_db s) k = Some c \<Longrightarrow> length c < 2 ^ 64" for k c
    using s by (auto simp: state_good_def db_ok_def base_of_def account_db_def)
  show "small (refresh_account L s rq a acc)" "nonce_of (refresh_account L s rq a acc) = nonce_of acc"
    using acc' c
    by (auto simp: refresh_account_def h update_account_cache_def Account_cache_code_def small_def
        nonce_of_def split: option.splits)
qed

lemma load_small:
  assumes s: "state_good L s" and l: "load L (base_of s) a = Ok (Some acc)"
  shows "small acc" "nonce_of acc \<le> 2 ^ 64"
proof -
  show "nonce_of acc \<le> 2 ^ 64" using assms by (auto simp: state_good_def db_ok_def)
  show "small acc" using l
    by (auto simp: load_def Account_from_rlp_def Account_from_def small_def split: option.splits)
qed

lemma load_returns: "state_good L s \<Longrightarrow> returns (load L (base_of s) a)"
  by (simp add: state_good_def db_ok_def)

text \<open>A read, with a predicate on what it returns.\<close>

lemma ensure_cached_wp:
  assumes s: "state_good L s" and f: "P (f None)"
    "\<And>acc. small acc \<Longrightarrow> P (f (Some (refresh_account L s rq a acc)))"
  shows "wp (ensure_cached L a rq f) (\<lambda>r s'. settled L (peak s) s s' \<and> P r) (\<lambda>_ s'. settled L (peak s) s s') s"
proof (cases "map_of (st_cache s) a")
  case (Some e)
  show ?thesis
  proof (cases "en_account e")
    case None
    then show ?thesis using Some f settled_refl [OF s] by (simp add: wp_def ensure_cached_def)
  next
    case (Some acc)
    have a: "small acc" "nonce_of acc \<le> peak s"
      using good_acct [OF s cached_acct] \<open>map_of (st_cache s) a = Some e\<close> Some by blast+
    have "settled L (peak s) s (s\<lparr>st_cache := AList.update a
        (e\<lparr>en_account := Some (refresh_account L s rq a acc)\<rparr>) (st_cache s)\<rparr>)"
      by (rule settled_update [OF s]) (use a refresh_small [OF s a(1)] in auto)
    then show ?thesis using \<open>map_of (st_cache s) a = Some e\<close> Some f(2) [OF a(1)]
      by (simp add: wp_def ensure_cached_def Let_def)
  qed
next
  case None
  show ?thesis
  proof (cases "load L (base_of s) a")
    case (Ok m)
    have m: "small acc \<and> nonce_of acc \<le> peak s" if "m = Some acc" for acc
      using load_small [OF s] Ok that peak_ge(2) [of s] by force
    have "settled L (peak s) s (s\<lparr>st_cache := AList.update a
        (Entry_new_clean (map_option (refresh_account L s rq a) m)) (st_cache s)\<rparr>)"
      by (rule settled_update [OF s]) (auto simp: Entry_new_clean_def m refresh_small [OF s])
    then show ?thesis using None Ok f m
      by (cases m) (auto simp: wp_def ensure_cached_def Let_def)
  qed (use load_returns [OF s, of a] None settled_refl [OF s] in \<open>auto simp: wp_def ensure_cached_def\<close>)
qed

abbreviation stays where
  "stays L m s \<equiv> wp m (\<lambda>_ s'. settled L (peak s) s s') (\<lambda>_ s'. settled L (peak s) s s') s"

lemma ensure_cached_stays:
  assumes "state_good L s"
  shows "stays L (ensure_cached L a rq f) s"
  by (rule wp_mono [OF ensure_cached_wp [OF assms, where P = "\<lambda>_. True"]]) auto

lemma State_code_wp:
  assumes "state_good L s"
  shows "wp (State_code L a) (\<lambda>r s'. settled L (peak s) s s' \<and> (\<forall>c. r = Some c \<longrightarrow> length c < 2 ^ 64))
    (\<lambda>_ s'. settled L (peak s) s s') s"
  unfolding State_code_def
proof (rule ensure_cached_wp [OF assms], goal_cases)
  case (2 acc)
  then show ?case using refresh_small(1) [OF assms 2, of RC_Code a]
    by (simp add: Account_code_def small_def)
qed simp

lemma State_read_wp:
  assumes "state_good L s"
  shows "stays L (State_nonce L a) s" "stays L (State_exists L a) s"
    "stays L (State_exists_and_not_null L a) s" "stays L (State_code_hash L a) s"
    "stays L (State_code_size L a) s"
proof -
  have "wp (State_nonce L a) Q E s = wp (ensure_cached L a RC_None
     (\<lambda>acc. case acc of None \<Rightarrow> st_account_start_nonce s | Some account \<Rightarrow> ac_nonce account)) Q E s" for Q E
    by (simp only: wp_def State_nonce_def)
  then show "stays L (State_nonce L a) s" by (simp only: ensure_cached_stays [OF assms])
qed (simp_all only: State_exists_def State_exists_and_not_null_def State_code_hash_def
    State_code_size_def ensure_cached_stays [OF assms])

lemma account_storage_at_small:
  assumes s: "state_good L s" and r: "Account_storage_at L (account_db L s h) (st_db s) k acc = (r, acc')"
  shows "returns r" "ac_nonce acc' = ac_nonce acc" "small acc' = small acc"
proof -
  obtain c acc1 where c: "Account_cached_storage_at L k acc = (c, acc1)" by fastforce
  have acc1: "ac_nonce acc1 = ac_nonce acc" "small acc1 = small acc"
    using c by (auto simp: Account_cached_storage_at_def small_def split: option.splits prod.splits)
  have t: "returns (trie_storage L (account_db L s h) (st_db s) q k)" for q
    using s by (auto simp: state_good_def db_ok_def base_of_def account_db_def)
  have "returns r \<and> ac_nonce acc' = ac_nonce acc1 \<and> small acc' = small acc1"
  proof (cases c)
    case (Some v)
    then show ?thesis using r c by (auto simp: Account_storage_at_def)
  next
    case None
    then show ?thesis using r c t [of "ac_storage_root acc1"]
      by (cases "trie_storage L (account_db L s h) (st_db s) (ac_storage_root acc1) k")
        (auto simp: Account_storage_at_def trie_storage_def [symmetric] small_def)
  qed
  then show "returns r" "ac_nonce acc' = ac_nonce acc" "small acc' = small acc" using acc1 by simp_all
qed

lemma address_hash_small:
  "Account_address_hash L a acc = (h, acc') \<Longrightarrow> ac_nonce acc' = ac_nonce acc \<and> small acc' = small acc"
  by (auto simp: Account_address_hash_def Let_def small_def split: option.splits)

lemma State_storage_at_wp:
  assumes s: "state_good L s"
  shows "stays L (State_storage_at L a k) s"
proof (cases "map_of (st_cache s) a")
  case (Some e)
  show ?thesis
  proof (cases "en_account e")
    case None
    then show ?thesis using Some settled_refl [OF s] by (simp add: wp_def State_storage_at_def)
  next
    case (Some acc)
    have a: "small acc" "nonce_of acc \<le> peak s"
      using good_acct [OF s cached_acct] \<open>map_of (st_cache s) a = Some e\<close> Some by blast+
    obtain c acc1 where c: "Account_cached_storage_at L k acc = (c, acc1)" by fastforce
    have acc1: "ac_nonce acc1 = ac_nonce acc" "small acc1 = small acc"
      using c by (auto simp: Account_cached_storage_at_def small_def split: option.splits prod.splits)
    obtain h acc2 where h: "Account_address_hash L a acc1 = (h, acc2)" by fastforce
    obtain r acc3 where r: "Account_storage_at L (account_db L s h) (st_db s) k acc2 = (r, acc3)" by fastforce
    have p: "settled L (peak s) s (s\<lparr>st_cache := AList.update a (e\<lparr>en_account := Some x\<rparr>) (st_cache s)\<rparr>)"
      if "ac_nonce x = ac_nonce acc" "small x = small acc" for x
      by (rule settled_update [OF s]) (use that a in \<open>auto simp: nonce_of_def\<close>)
    show ?thesis
      using p [of acc1] p [of acc3] acc1 address_hash_small [OF h] account_storage_at_small [OF s r]
        \<open>map_of (st_cache s) a = Some e\<close> Some c h r
      by (cases c; cases r) (auto simp: wp_def State_storage_at_def Let_def)
  qed
next
  case None
  have ro: "tf_readonly (lib_trie L) (lib_db L) (st_db s) (st_root s) = Ok ()"
    using s by (simp add: state_good_def db_ok_def base_of_def)
  have tr: "trie_account L s a = load L (base_of s) a"
    using ro by (simp add: trie_account_def load_def base_of_def)
  have p: "settled L (peak s) s (s\<lparr>st_cache := AList.update a (Entry_new_clean m) (st_cache s)\<rparr>)"
    if "\<And>x. m = Some x \<Longrightarrow> small x \<and> nonce_of x \<le> 2 ^ 64" for m
    by (rule settled_update [OF s]) (use that peak_ge(2) [of s] in \<open>force simp: Entry_new_clean_def\<close>)+
  show ?thesis
  proof (cases "load L (base_of s) a")
    case (Ok m)
    show ?thesis
    proof (cases m)
      case None
      then show ?thesis using p [of None] Ok \<open>map_of (st_cache s) a = None\<close> ro tr
        by (simp add: wp_def State_storage_at_def)
    next
      case (Some acc)
      note l = load_small [OF s Ok [unfolded Some]]
      obtain h acc2 where h: "Account_address_hash L a acc = (h, acc2)" by fastforce
      obtain r acc3 where r: "Account_storage_at L (account_db L s h) (st_db s) k acc2 = (r, acc3)" by fastforce
      have "settled L (peak s) s (s\<lparr>st_cache := AList.update a (Entry_new_clean (Some acc3)) (st_cache s)\<rparr>)"
        using l address_hash_small [OF h] account_storage_at_small [OF s r] by (intro p) (auto simp: nonce_of_def)
      then show ?thesis
        using account_storage_at_small(1) [OF s r] Some Ok \<open>map_of (st_cache s) a = None\<close> ro tr h r
        by (cases r) (auto simp: wp_def State_storage_at_def)
    qed
  qed (use load_returns [OF s, of a] None ro tr settled_refl [OF s] in \<open>auto simp: wp_def State_storage_at_def\<close>)
qed

section \<open>Writes return\<close>

lemma require_load_good:
  assumes s: "state_good L s"
    and r: "(if map_of (st_cache s) a = None
            then res_map (\<lambda>acc. insert_cache a (Entry_new_clean acc) s) (load_account L s a)
            else Ok s) = Ok s1"
  shows "settled L (peak s) s s1" "\<exists>x. map_of (st_cache s1) a = Some x"
proof -
  have "settled L (peak s) s s1 \<and> (\<exists>x. map_of (st_cache s1) a = Some x)"
  proof (cases "map_of (st_cache s) a")
    case None
    then obtain m where m: "load L (base_of s) a = Ok m"
      "s1 = s\<lparr>st_cache := AList.update a (Entry_new_clean m) (st_cache s)\<rparr>" using r by auto
    have "settled L (peak s) s s1" unfolding m(2)
      by (rule settled_update [OF s])
        (use load_small [OF s] m peak_ge(2) [of s] in \<open>force simp: Entry_new_clean_def\<close>)+
    then show ?thesis by (simp add: m map_of_update)
  next
    case (Some x)
    then show ?thesis using r settled_refl [OF s] by auto
  qed
  then show "settled L (peak s) s s1" "\<exists>x. map_of (st_cache s1) a = Some x" by blast+
qed

lemma clone_small: "small (Account_clone_dirty L acc) = small acc" "nonce_of (Account_clone_dirty L acc) = nonce_of acc"
  by (simp_all add: small_def nonce_of_def Account_clone_dirty_def Account_clone_basic_def)

lemma require_or_from_wp:
  assumes s: "state_good L s" and d: "small dflt" "nonce_of dflt \<le> 2 ^ 64" and N: "peak s \<le> N"
    and g: "\<And>acc. small acc \<Longrightarrow> nonce_of acc \<le> peak s \<Longrightarrow> \<exists>x. g acc = Ok x \<and> small x \<and> nonce_of x \<le> N"
  shows "wp (require_or_from L a rq dflt g) (\<lambda>_ s'. settled L N s s') (\<lambda>_ s'. settled L N s s') s"
proof (cases "if map_of (st_cache s) a = None
            then res_map (\<lambda>acc. insert_cache a (Entry_new_clean acc) s) (load_account L s a)
            else Ok s")
  case (Ok s1)
  note R = require_load_good [OF s Ok]
  obtain x where x: "map_of (st_cache s1) a = Some x" using R(2) by blast
  have s1: "state_good L s1" by (rule settled_good [OF s R(1)])
  have held: "small acc \<and> nonce_of acc \<le> peak s" if "en_account x = Some acc" for acc
    using R(1) cached_acct [OF x that] by (simp add: settled_def)
  let ?n = "map_option (Entry_clone_dirty L) (map_of (st_cache s1) a)"
  have n: "settled L (peak s) s (note_cache L a s1)"
    unfolding note_cache_def by (rule settled_note [OF R(1)])
      (use held in \<open>auto simp: x Entry_clone_dirty_def clone_small\<close>)
  then have s2: "state_good L (note_cache L a s1)" by (rule settled_good [OF s])
  define acc where "acc = (case en_account x of Some acc \<Rightarrow> acc | None \<Rightarrow> dflt)"
  define acc' where "acc' = (if rq then refresh_account L (note_cache L a s1) RC_Code a acc else acc)"
  have acc: "small acc" "nonce_of acc \<le> peak s"
    using held d peak_ge(2) [of s] by (auto simp: acc_def split: option.splits)
  have acc': "small acc'" "nonce_of acc' \<le> peak s"
    using acc refresh_small [OF s2 acc(1)] by (auto simp: acc'_def)
  obtain z where z: "g acc' = Ok z" "small z" "nonce_of z \<le> N" using g [OF acc'] by blast
  have p: "peak (note_cache L a s1) \<le> N" using settled_peak [OF n] peak_ge(2) [of s] N by simp
  have "settled L N (note_cache L a s1) ((note_cache L a s1)\<lparr>st_cache :=
      AList.update a \<lparr>en_account = Some z, en_state = DirtyState\<rparr> (st_cache (note_cache L a s1))\<rparr>)"
    by (rule settled_update [OF s2 p]) (use z in auto)
  then have "settled L N s ((note_cache L a s1)\<lparr>st_cache :=
      AList.update a \<lparr>en_account = Some z, en_state = DirtyState\<rparr> (st_cache s1)\<rparr>)"
    using settled_trans [OF n] by simp
  moreover have "require_or_from L a rq dflt g s = (Ok (), (note_cache L a s1)\<lparr>st_cache :=
      AList.update a \<lparr>en_account = Some z, en_state = DirtyState\<rparr> (st_cache s1)\<rparr>)"
    unfolding require_or_from_run [OF Ok x] Let_def acc_def [symmetric] acc'_def [symmetric] z by simp
  ultimately show ?thesis by (simp add: wp_def)
next
  case (Err e)
  then show ?thesis using settled_mono [OF settled_refl [OF s] N] by (simp add: wp_def require_or_from_def)
next
  case Panic
  then show ?thesis using load_returns [OF s, of a] by (cases "load L (base_of s) a") (auto split: if_splits)
next
  case Diverge
  then show ?thesis using load_returns [OF s, of a] by (cases "load L (base_of s) a") (auto split: if_splits)
qed

lemma new_small:
  assumes "state_good L s"
  shows "small (Account_new_basic L (st_account_start_nonce s))"
    "nonce_of (Account_new_basic L (st_account_start_nonce s)) \<le> 2 ^ 64"
    "small (Account_new_contract L (st_account_start_nonce s))"
    "nonce_of (Account_new_contract L (st_account_start_nonce s)) \<le> 2 ^ 64"
  using assms by (simp_all add: small_def nonce_of_def Account_new_basic_def Account_new_contract_def state_good_def)

lemma State_inc_nonce_wp:
  assumes s: "state_good L s" and p: "peak s < 2 ^ 256 - 1"
  shows "wp (State_inc_nonce L a) (\<lambda>_ s'. settled L (Suc (peak s)) s s') (\<lambda>_ s'. settled L (Suc (peak s)) s s') s"
proof -
  have "wp (require_or_from L a False (Account_new_basic L (st_account_start_nonce s)) Account_inc_nonce)
      (\<lambda>_ s'. settled L (Suc (peak s)) s s') (\<lambda>_ s'. settled L (Suc (peak s)) s s') s"
  proof (rule require_or_from_wp [OF s new_small(1,2) [OF s]])
    fix acc :: "'c Account" assume a: "small acc" "nonce_of acc \<le> peak s"
    have lt: "unat (ac_nonce acc) + unat (1 :: u256) < 2 ^ LENGTH(256)" using a(2) p by (simp add: nonce_of_def)
    then show "\<exists>x. Account_inc_nonce acc = Ok x \<and> small x \<and> nonce_of x \<le> Suc (peak s)"
      using a unat_add_small [OF lt] by (simp add: Account_inc_nonce_def plus_chk_def small_def nonce_of_def)
  qed simp
  then show ?thesis by (simp add: wp_def State_inc_nonce_def require_account_def)
qed

lemma State_init_code_wp:
  assumes s: "state_good L s" and c: "length c < 2 ^ 64"
  shows "stays L (State_init_code L a c) s"
proof -
  have "stays L (require_or_from L a True (Account_new_contract L (st_account_start_nonce s))
      (\<lambda>acc. Ok (Account_init_code L c acc))) s"
    by (rule require_or_from_wp [OF s new_small(3,4) [OF s]])
      (use c in \<open>auto simp: small_def nonce_of_def Account_init_code_def\<close>)
  then show ?thesis by (simp add: wp_def State_init_code_def)
qed

lemma set_storage_stays:
  assumes s: "state_good L s"
  shows "stays L (require_account L a False (\<lambda>acc. Ok (Account_set_storage k v acc))) s"
proof -
  have "stays L (require_or_from L a False (Account_new_basic L (st_account_start_nonce s))
      (\<lambda>acc. Ok (Account_set_storage k v acc))) s"
    by (rule require_or_from_wp [OF s new_small(1,2) [OF s]])
      (auto simp: small_def nonce_of_def Account_set_storage_def)
  then show ?thesis by (simp add: wp_def require_account_def)
qed

lemma State_set_storage_wp:
  assumes s: "state_good L s"
  shows "stays L (State_set_storage L a k v) s"
  unfolding State_set_storage_def wp_bind
proof (rule wp_mono [OF State_storage_at_wp [OF s]], goal_cases)
  case (1 old s1)
  have s1: "state_good L s1" and p: "peak s1 \<le> peak s"
    using settled_good [OF s 1] settled_peak [OF 1] peak_ge(2) [of s] by simp_all
  have t: "settled L (peak s) s s2" if "settled L (peak s1) s1 s2" for s2
    using settled_mono [OF settled_trans [OF 1 that] p] .
  show ?case using 1 wp_mono [OF set_storage_stays [OF s1] t t] by (auto simp: wp_ret)
qed

text \<open>Checkpoints and new contracts add nothing.\<close>

lemma checkpoint_settled: "state_good L s \<Longrightarrow> settled L (peak s) s (checkpoint s)"
  using good_acct by (fastforce simp: settled_def accts_def cached_def noted_def checkpoint_def base_of_def)

lemma State_new_contract_wp:
  assumes s: "state_good L s"
  shows "stays L (State_new_contract L a 0) s"
proof -
  let ?y = "Entry_new_dirty (Some (Account_new_contract L (st_account_start_nonce s)))"
  have y: "settled L (peak s) s (s\<lparr>st_cache := AList.update a ?y (st_cache s)\<rparr>)"
    by (rule settled_update [OF s]) (use new_small [OF s] peak_ge(2) [of s] in \<open>auto simp: Entry_new_dirty_def\<close>)
  let ?s = "s\<lparr>st_cache := AList.update a ?y (st_cache s)\<rparr>"
  have "insert_cache a ?y s = ?s\<lparr>st_checkpoints := note_in_checkpoint a (map_of (st_cache s) a) (st_checkpoints ?s)\<rparr>"
    by (simp add: insert_cache_def Entry_new_dirty_def Entry_is_dirty_def)
  moreover have "settled L (peak s) s (?s\<lparr>st_checkpoints := note_in_checkpoint a (map_of (st_cache s) a) (st_checkpoints ?s)\<rparr>)"
    by (rule settled_note [OF y]) (use good_acct [OF s cached_acct] in blast)
  ultimately have "settled L (peak s) s (insert_cache a ?y s)" by (simp only:)
  then show ?thesis by (simp add: wp_def State_new_contract_def)
qed

section \<open>Ending a checkpoint\<close>

lemma overwrite_small:
  "small (Account_overwrite_with L other acc) = small other" "nonce_of (Account_overwrite_with L other acc) = nonce_of other"
  by (simp_all add: small_def nonce_of_def Account_overwrite_with_def)

definition cache_all :: "('l Account \<Rightarrow> bool) \<Rightarrow> (address \<times> 'l AccountEntry) list \<Rightarrow> bool" where
  "cache_all P cache \<longleftrightarrow> (\<forall>a x acc. map_of cache a = Some x \<longrightarrow> en_account x = Some acc \<longrightarrow> P acc)"

lemma revert_entry_all:
  assumes P: "\<And>acc other. P other \<Longrightarrow> P (Account_overwrite_with L other acc)"
    and c: "cache_all P cache" and n: "\<And>v acc. n = Some v \<Longrightarrow> en_account v = Some acc \<Longrightarrow> P acc"
  shows "cache_all P (revert_entry L (k, n) cache)"
  using c n unfolding cache_all_def map_of_revert_entry
  by (auto simp: rev_entry_def Entry_overwrite_with_def intro: P split: if_splits option.splits)

lemma revert_all:
  assumes P: "\<And>acc other. P other \<Longrightarrow> P (Account_overwrite_with L other acc)"
    and c: "cache_all P cache" and n: "\<And>k v acc. (k, Some v) \<in> set cp \<Longrightarrow> en_account v = Some acc \<Longrightarrow> P acc"
  shows "cache_all P (fold (revert_entry L) cp cache)"
  using c n
proof (induction cp arbitrary: cache)
  case (Cons kn cp)
  obtain k n where kn: "kn = (k, n)" by fastforce
  have "cache_all P (revert_entry L (k, n) cache)"
    by (rule revert_entry_all [OF P Cons.prems(1)]) (use Cons.prems(2) kn in auto)
  then show ?case using Cons kn by auto
qed simp

lemma revert_settled:
  assumes s: "state_good L s"
  shows "settled L (peak s) s (revert_to_checkpoint L s)"
proof (cases "st_checkpoints s = []")
  case True
  then show ?thesis using settled_refl [OF s] by (simp add: revert_to_checkpoint_def)
next
  case False
  let ?P = "\<lambda>acc. small acc \<and> nonce_of acc \<le> peak s"
  let ?r = "revert_to_checkpoint L s"
  have held: "acc \<in> accts s \<Longrightarrow> ?P acc" for acc using good_acct [OF s] by blast
  have "cache_all ?P (fold (revert_entry L) (last (st_checkpoints s)) (st_cache s))"
  proof (rule revert_all)
    show "cache_all ?P (st_cache s)" using held cached_acct by (fastforce simp: cache_all_def)
    show "?P acc" if "(k, Some v) \<in> set (last (st_checkpoints s))" "en_account v = Some acc" for k v acc
      using that last_in_set [OF False] by (intro held) (auto simp: accts_def noted_def)
  qed (simp add: overwrite_small)
  then have c: "\<forall>acc \<in> cached ?r. ?P acc" using False by (auto simp: cached_def cache_all_def revert_to_checkpoint_def)
  have n: "noted ?r \<subseteq> noted s" using False by (auto simp: noted_def revert_to_checkpoint_def dest: in_set_butlastD)
  have "base_of ?r = base_of s" "st_account_start_nonce ?r = st_account_start_nonce s"
    by (simp_all add: revert_to_checkpoint_def base_of_def)
  then show ?thesis using c n held by (auto simp: settled_def accts_def)
qed

lemma set_or_insert: "set (or_insert kv prev) \<subseteq> insert kv (set prev)"
  using set_update_subset [of "fst kv" "snd kv" prev] by (auto simp: or_insert_def split: option.splits)

lemma set_merge: "set (fold or_insert cp prev) \<subseteq> set cp \<union> set prev"
proof (induction cp arbitrary: prev)
  case (Cons kv cp)
  then show ?case using set_or_insert [of kv prev] by fastforce
qed simp

lemma discard_settled:
  assumes s: "state_good L s"
  shows "settled L (peak s) s (discard_checkpoint s)"
proof -
  let ?d = "discard_checkpoint s"
  have "noted ?d \<subseteq> noted s"
  proof
    fix acc assume "acc \<in> noted ?d"
    then obtain q k v where q: "q \<in> set (st_checkpoints ?d)" "(k, Some v) \<in> set q" "en_account v = Some acc"
      by (auto simp: noted_def)
    let ?cps = "st_checkpoints s"
    have "q \<in> set ?cps \<or> ?cps \<noteq> [] \<and> butlast ?cps \<noteq> [] \<and>
        set q \<subseteq> set (last ?cps) \<union> set (last (butlast ?cps))"
      using q(1) set_merge [of "last ?cps" "last (butlast ?cps)"] last_in_set [of ?cps]
      by (auto simp: discard_checkpoint_def Let_def dest: in_set_butlastD split: if_splits)
    then obtain q' where "q' \<in> set ?cps" "(k, Some v) \<in> set q'"
    proof (elim disjE conjE)
      assume "q \<in> set ?cps" then show thesis using that q(2) by blast
    next
      assume a: "?cps \<noteq> []" "butlast ?cps \<noteq> []" "set q \<subseteq> set (last ?cps) \<union> set (last (butlast ?cps))"
      have "last ?cps \<in> set ?cps" "last (butlast ?cps) \<in> set ?cps"
        using a(1) last_in_set [OF a(2)] by (auto dest: in_set_butlastD)
      then show thesis using a(3) q(2) that by blast
    qed
    then show "acc \<in> noted s" using q(3) by (auto simp: noted_def)
  qed
  moreover have "cached ?d = cached s" by (simp add: cached_def discard_checkpoint_def Let_def)
  ultimately have "accts ?d \<subseteq> accts s" by (auto simp: accts_def)
  moreover have "base_of ?d = base_of s" "st_account_start_nonce ?d = st_account_start_nonce s"
    by (simp_all add: discard_checkpoint_def Let_def base_of_def)
  ultimately show ?thesis using good_acct [OF s] by (auto simp: settled_def)
qed

lemma kill_settled:
  assumes s: "state_good L s"
  shows "settled L (peak s) s (kill_account a s)"
proof -
  let ?y = "Entry_new_dirty None :: 'c AccountEntry"
  have y: "settled L (peak s) s (s\<lparr>st_cache := AList.update a ?y (st_cache s)\<rparr>)"
    by (rule settled_update [OF s]) (auto simp: Entry_new_dirty_def)
  let ?s = "s\<lparr>st_cache := AList.update a ?y (st_cache s)\<rparr>"
  have "kill_account a s = ?s\<lparr>st_checkpoints := note_in_checkpoint a (map_of (st_cache s) a) (st_checkpoints ?s)\<rparr>"
    by (simp add: kill_account_def insert_cache_def Entry_new_dirty_def Entry_is_dirty_def)
  moreover have "settled L (peak s) s (?s\<lparr>st_checkpoints := note_in_checkpoint a (map_of (st_cache s) a) (st_checkpoints ?s)\<rparr>)"
    by (rule settled_note [OF y]) (use good_acct [OF s cached_acct] in blast)
  ultimately show ?thesis by (simp only:)
qed

end
