(* ===== verification/Executive_Safety.thy ===== *)
theory Executive_Safety
  imports Executive EVM_Safety State_Safety
begin

text \<open>
  Calls, creates and transactions return. The executive and the virtual machine call each other down
  to the depth of 1024 of the schedule; the lemmas show by induction on the levels below that every
  frame ends without a panic, gives back no more gas than it got, and keeps the state well formed.
  The contract of the interpreter (\<open>ext_contract\<close>) is established for the externalities of
  \<^verbatim>\<open>externalities.rs\<close>, with the number of storage clears of the frame and the greatest nonce of
  the state as its potential: each unit of it is paid for with gas, so no counter overflows.
\<close>

section \<open>Verification conditions of the plumbing\<close>

lemma wp_on_state [wp_rules]:
  "wp (on_state f) Q E ex = wp f (\<lambda>a s. Q a (ex\<lparr>ex_state := s\<rparr>)) (\<lambda>e s. E e (ex\<lparr>ex_state := s\<rparr>)) (ex_state ex)"
  by (auto simp: wp_def on_state_def split: prod.splits res.splits)

lemma wp_on_ex [wp_rules]:
  "wp (on_ex f) Q E (o', ex) = wp f (\<lambda>a ex'. Q a (o', ex')) (\<lambda>e ex'. E e (o', ex')) ex"
  by (auto simp: wp_def on_ex_def split: prod.splits res.splits)

lemma wp_on_tracer [wp_rules]:
  "wp (on_tracer f) Q E ex = wp f (\<lambda>a t. Q a (ex\<lparr>ex_tracer := t\<rparr>)) (\<lambda>e t. E e (ex\<lparr>ex_tracer := t\<rparr>)) (ex_tracer ex)"
  by (auto simp: wp_def on_tracer_def split: prod.splits res.splits)

lemma wp_with_state [wp_rules]: "wp (with_state f) Q E ex = Q () (ex\<lparr>ex_state := f (ex_state ex)\<rparr>)"
  by (simp add: with_state_def wp_modify)

lemma wp_sub_frame [wp_rules]:
  "wp (sub_frame t v run policy) Q E ex =
     wp run (\<lambda>a (p, ex'). Q (Inr a, p, ex_substate ex', ex_tracer ex', ex_vm_tracer ex') (ex\<lparr>ex_state := ex_state ex'\<rparr>))
       (\<lambda>e (p, ex'). Q (Inl e, p, ex_substate ex', ex_tracer ex', ex_vm_tracer ex') (ex\<lparr>ex_state := ex_state ex'\<rparr>))
       (policy, \<lparr>ex_state = ex_state ex, ex_substate = Substate_new, ex_tracer = t, ex_vm_tracer = v\<rparr>)"
  by (auto simp: wp_def sub_frame_def sm_try_def split: prod.splits res.splits)

lemma wp_from_trie:
  "wp (\<lambda>ex. case f ex of (r, ex') \<Rightarrow> (from_trie r, ex')) Q E ex =
     wp f Q (\<lambda>e. E (Internal (''Internal error: '' @ e))) ex"
  by (auto simp: wp_def split: prod.splits res.splits)

lemma keepsI:
  assumes "\<And>s. good s \<Longrightarrow> wp f (\<lambda>_ s'. good s' \<and> clears s' \<le> clears s) (\<lambda>_ s'. good s' \<and> clears s' \<le> clears s) s"
  shows "keeps good clears f"
  unfolding keeps_def
proof (intro allI impI)
  fix s assume "good s"
  from assms [OF this] show "returns (fst (f s)) \<and> good (snd (f s)) \<and> clears (snd (f s)) \<le> clears s"
    by (cases "fst (f s)") (auto simp: wp_def split: prod.splits)
qed

lemma distinct_fold_insert [simp]: "distinct xs \<Longrightarrow> distinct (fold List.insert ys xs)"
  by (induction ys arbitrary: xs) simp_all

section \<open>What an executive relies on\<close>

text \<open>The engine of \<open>State::apply\<close> has no built-in contracts and the default factory no native ones.
  The block carries the hashes of its 256 predecessors, or of all of them.\<close>

definition env_ok :: "('d, 'm, 'l) Env \<Rightarrow> bool" where
  "env_ok E \<longleftrightarrow> env_builtins E = [] \<and> env_native E = [] \<and> env_depth_threshold E \<noteq> 0 \<and>
     (\<forall>h c. \<exists>D. env_jumps E h c = Ok D) \<and>
     min 256 (unat (ei_number (env_info E))) \<le> length (ei_last_hashes (env_info E))"

definition ex_good :: "('d, 'm, 'l) Env \<Rightarrow> 't Tracer \<Rightarrow> ('d, 'l, 't, 'v) Ex \<Rightarrow> bool" where
  "ex_good E T ex \<longleftrightarrow> env_ok E \<and> tracer_contract T \<and> state_good (env_libs E) (ex_state ex) \<and>
     distinct (sub_suicides (ex_substate ex))"

definition ex_clears :: "('d, 'l, 't, 'v) Ex \<Rightarrow> nat" where
  "ex_clears ex = unat (sub_sstore_clears_count (ex_substate ex)) + peak (ex_state ex)"

lemma ex_stays:
  assumes "ex_good E T ex" "settled (env_libs E) N (ex_state ex) s'" "peak (ex_state ex) \<le> N"
  shows "ex_good E T (ex\<lparr>ex_state := s'\<rparr>)"
    "ex_clears (ex\<lparr>ex_state := s'\<rparr>) \<le> unat (sub_sstore_clears_count (ex_substate ex)) + N"
  using assms settled_good settled_peak [OF assms(2)] peak_ge(2) [of "ex_state ex"]
  by (auto simp: ex_good_def ex_clears_def)

lemma ex_stays_peak:
  assumes "ex_good E T ex" "settled (env_libs E) (peak (ex_state ex)) (ex_state ex) s'"
  shows "ex_good E T (ex\<lparr>ex_state := s'\<rparr>)" "ex_clears (ex\<lparr>ex_state := s'\<rparr>) \<le> ex_clears ex"
  using ex_stays [OF assms] by (simp_all add: ex_clears_def)

lemma keeps_on_state:
  assumes "\<And>s. state_good (env_libs E) s \<Longrightarrow> stays (env_libs E) f s"
  shows "keeps (ex_good E T) ex_clears (on_state f)"
proof (rule keepsI)
  fix ex assume g: "ex_good E T ex"
  have "stays (env_libs E) f (ex_state ex)" using g by (intro assms) (simp add: ex_good_def)
  then show "wp (on_state f) (\<lambda>_ s'. ex_good E T s' \<and> ex_clears s' \<le> ex_clears ex)
      (\<lambda>_ s'. ex_good E T s' \<and> ex_clears s' \<le> ex_clears ex) ex"
    unfolding wp_on_state by (rule wp_mono) (use ex_stays_peak [OF g] in auto)
qed

text \<open>A nested call or create: it comes back with no more gas than it was given, and what it adds to
  the storage clears and to the nonces is paid for.\<close>

primrec same_ref :: "BytesRef \<Rightarrow> BytesRef \<Rightarrow> bool" where
  "same_ref (Flexible b) r = (\<exists>b'. r = Flexible b')"
| "same_ref (Fixed b) r = (\<exists>b'. r = Fixed b' \<and> length b' = length b)"

definition call_ok :: "('d, 'm, 'l) Env \<Rightarrow> 't Tracer \<Rightarrow> ('d, 'l, 't, 'v) executive_call \<Rightarrow> bool" where
  "call_ok E T c \<longleftrightarrow> (\<forall>params out ex. ex_good E T ex \<and> params_ok params \<and> unat (ap_gas params) < 2 ^ 64 \<and>
     ex_clears ex + unat (ap_gas params) < 2 ^ 128 \<longrightarrow>
     wp (c params)
       (\<lambda>gl (out', ex'). ex_good E T ex' \<and> same_ref out out' \<and> unat gl \<le> unat (ap_gas params) \<and>
          ex_clears ex' + unat gl \<le> ex_clears ex + unat (ap_gas params))
       (\<lambda>_ (out', ex'). ex_good E T ex' \<and> same_ref out out' \<and> ex_clears ex' \<le> ex_clears ex + unat (ap_gas params))
       (out, ex))"

definition create_ok :: "('d, 'm, 'l) Env \<Rightarrow> 't Tracer \<Rightarrow> ('d, 'l, 't, 'v) executive_create \<Rightarrow> bool" where
  "create_ok E T k \<longleftrightarrow> (\<forall>params ex. ex_good E T ex \<and> params_ok params \<and> ap_code params \<noteq> None \<and>
     unat (ap_gas params) < 2 ^ 64 \<and> ex_clears ex + unat (ap_gas params) < 2 ^ 128 \<longrightarrow>
     wp (k params)
       (\<lambda>gl ex'. ex_good E T ex' \<and> unat gl \<le> unat (ap_gas params) \<and>
          ex_clears ex' + unat gl \<le> ex_clears ex + unat (ap_gas params))
       (\<lambda>_ ex'. ex_good E T ex' \<and> ex_clears ex' \<le> ex_clears ex + unat (ap_gas params)) ex)"

section \<open>The externalities keep the contract\<close>

lemma blockhash_returns:
  assumes "min 256 (unat (ei_number info)) \<le> length (ei_last_hashes info)"
  shows "returns (ext_impl_blockhash info number)"
proof (cases "number < ucast (ei_number info) \<and> max 256 (unat (ei_number info)) - 256 \<le> unat (low_u64 number)")
  case True
  let ?n = "ei_number info"
  have un: "unat (ucast ?n :: u256) = unat ?n" by (simp add: unat_ucast_up)
  have "unat number < unat ?n" using True un by (simp add: word_less_nat_alt)
  moreover from this have lo: "unat (low_u64 number) = unat number"
    using unat_usize [of ?n] by (intro low_u64_small) simp
  ultimately have lt: "unat (low_u64 number) < unat ?n" by simp
  then have le: "low_u64 number \<le> ?n" by (simp add: word_le_nat_alt)
  let ?d = "?n - low_u64 number"
  have d: "unat ?d = unat ?n - unat (low_u64 number)" using le by (rule unat_minus_le)
  then have one: "1 \<le> ?d" using lt by (simp add: word_le_nat_alt)
  have "unat (?d - 1) = unat ?d - 1" using unat_minus_le [OF one] by simp
  then have "unat (?d - 1) < length (ei_last_hashes info)"
    using d lt True assms by (auto simp: min_def max_def split: if_splits)
  then show ?thesis using True le one by (simp add: ext_impl_blockhash_def minus_chk_def rust_assert_def)
qed (auto simp: ext_impl_blockhash_def)

lemma ext_impl_create_law:
  assumes k: "create_ok E T k" and ex: "ex_good E T ex" and g: "unat g < 2 ^ 64"
    "Suc (ex_clears ex + unat g) < 2 ^ 128" and c: "length c < 2 ^ 64"
  shows "(\<exists>a gl ex'. ext_impl_create (env_libs E) origin k g v c ex = (Ok (Created a gl), ex') \<and> ex_good E T ex' \<and>
      unat gl \<le> unat g \<and> ex_clears ex' + unat gl \<le> Suc (ex_clears ex + unat g)) \<or>
    (\<exists>ex'. ext_impl_create (env_libs E) origin k g v c ex = (Ok Create_Failed, ex') \<and> ex_good E T ex' \<and>
      ex_clears ex' \<le> Suc (ex_clears ex + unat g))"
proof -
  let ?L = "env_libs E" and ?a = "oi_address origin"
  have sg: "state_good ?L (ex_state ex)" using ex by (simp add: ex_good_def)
  obtain r1 ex1 where n: "on_state (State_nonce ?L ?a) ex = (r1, ex1)" by fastforce
  have R1: "returns r1" and ex1: "ex_good E T ex1" "ex_clears ex1 \<le> ex_clears ex"
    using keeps_run [OF keeps_on_state [of E "State_nonce ?L ?a" T, OF State_read_wp(1)] ex n]
    by (simp_all add: kept_def)
  show ?thesis
  proof (cases r1)
    case (Ok nonce)
    obtain r2 ex2 where i: "on_state (State_inc_nonce ?L ?a) ex1 = (r2, ex2)" by fastforce
    have s1: "state_good ?L (ex_state ex1)" "peak (ex_state ex1) < 2 ^ 256 - 1"
      using ex1 g by (auto simp: ex_good_def ex_clears_def)
    have "wp (on_state (State_inc_nonce ?L ?a)) (\<lambda>_ x. ex_good E T x \<and> ex_clears x \<le> Suc (ex_clears ex1))
        (\<lambda>_ x. ex_good E T x \<and> ex_clears x \<le> Suc (ex_clears ex1)) ex1"
      unfolding wp_on_state
      by (rule wp_mono [OF State_inc_nonce_wp [OF s1]]) (use ex_stays [OF ex1(1)] in \<open>fastforce simp: ex_clears_def\<close>)+
    then have ex2: "returns r2" "ex_good E T ex2" "ex_clears ex2 \<le> Suc (ex_clears ex)"
      using i ex1(2) by (cases r2; auto simp: wp_def)+
    show ?thesis
    proof (cases r2)
      case (Ok u)
      let ?addr = "contract_address ?L ?a nonce"
      let ?p = "\<lparr>ap_code_address = ?addr, ap_code_hash = crypt_hash ?L c,
                 ap_address = ?addr, ap_sender = ?a, ap_origin = oi_origin origin,
                 ap_gas = g, ap_gas_price = oi_gas_price origin, ap_value = Transfer v,
                 ap_code = Some c, ap_data = None, ap_call_type = CT_None\<rparr>"
      have "wp (k ?p) (\<lambda>gl ex'. ex_good E T ex' \<and> unat gl \<le> unat g \<and> ex_clears ex' + unat gl \<le> ex_clears ex2 + unat g)
         (\<lambda>_ ex'. ex_good E T ex' \<and> ex_clears ex' \<le> ex_clears ex2 + unat g) ex2"
        using k [unfolded create_ok_def, rule_format, of ex2 ?p] ex2 c g by (simp add: params_ok_def bytes_or_empty_def)
      then show ?thesis
        using n i \<open>r1 = Ok nonce\<close> Ok ex2(3)
        by (cases "k ?p ex2"; cases "fst (k ?p ex2)")
          (auto simp: wp_def ext_impl_create_def Let_def ex_good_def ex_clears_def)
    qed (use n i \<open>r1 = Ok nonce\<close> ex2 in \<open>auto simp: ext_impl_create_def Let_def\<close>)
  qed (use n R1 ex1 in \<open>auto simp: ext_impl_create_def\<close>)
qed

lemma ext_impl_call_law:
  assumes k: "call_ok E T k" and ex: "ex_good E T ex" and g: "unat g < 2 ^ 64"
    "ex_clears ex + unat g < 2 ^ 128" and d: "length d < 2 ^ 64"
  shows "(\<exists>gl out' ex'. ext_impl_call (env_libs E) origin k g s r ov d ca out t ex = (Ok (Success gl, out'), ex') \<and>
      ex_good E T ex' \<and> length out' = length out \<and> unat gl \<le> unat g \<and> ex_clears ex' + unat gl \<le> ex_clears ex + unat g) \<or>
    (\<exists>out' ex'. ext_impl_call (env_libs E) origin k g s r ov d ca out t ex = (Ok (Call_Failed, out'), ex') \<and>
      ex_good E T ex' \<and> length out' = length out \<and> ex_clears ex' \<le> ex_clears ex + unat g)"
proof -
  let ?L = "env_libs E"
  let ?load = "sm_bind (on_state (State_code ?L ca)) (\<lambda>code.
           sm_bind (on_state (State_code_hash ?L ca)) (\<lambda>hash. sm_ret (code, hash)))"
  have sg: "state_good ?L (ex_state ex)" using ex by (simp add: ex_good_def)
  have "wp ?load (\<lambda>(code, hash) x. ex_good E T x \<and> ex_clears x \<le> ex_clears ex \<and> length (bytes_or_empty code) < 2 ^ 64)
      (\<lambda>_ x. ex_good E T x \<and> ex_clears x \<le> ex_clears ex) ex"
    unfolding wp_bind wp_on_state wp_ret
  proof (rule wp_mono [OF State_code_wp [OF sg]], goal_cases)
    case (1 code s1)
    note e1 = ex_stays_peak [OF ex, of s1]
    have g1: "ex_good E T (ex\<lparr>ex_state := s1\<rparr>)" "ex_clears (ex\<lparr>ex_state := s1\<rparr>) \<le> ex_clears ex" using e1 1 by simp_all
    then have "state_good ?L s1" by (simp add: ex_good_def)
    then show ?case
      by (simp, intro wp_mono [OF State_read_wp(4)])
        (use ex_stays_peak [OF g1(1)] g1(2) 1 in \<open>auto simp: bytes_or_empty_def split: option.splits intro: order_trans\<close>)
  next
    case (2 e s1)
    then show ?case using ex_stays_peak [OF ex, of s1] by simp
  qed
  then consider code hash ex1 where "?load ex = (Ok (code, hash), ex1)" "ex_good E T ex1"
      "ex_clears ex1 \<le> ex_clears ex" "length (bytes_or_empty code) < 2 ^ 64"
    | e ex1 where "?load ex = (Err e, ex1)" "ex_good E T ex1" "ex_clears ex1 \<le> ex_clears ex"
    by (cases "?load ex"; cases "fst (?load ex)") (auto simp: wp_def)
  then show ?thesis
  proof cases
    case 1
    let ?p = "\<lparr>ap_code_address = ca, ap_code_hash = hash, ap_address = r, ap_sender = s,
                 ap_origin = oi_origin origin, ap_gas = g, ap_gas_price = oi_gas_price origin,
                 ap_value = (case ov of Some v \<Rightarrow> Transfer v | None \<Rightarrow> Apparent (oi_value origin)),
                 ap_code = code, ap_data = Some d, ap_call_type = t\<rparr>"
    have "wp (k ?p)
       (\<lambda>gl (out', ex'). ex_good E T ex' \<and> same_ref (Fixed out) out' \<and> unat gl \<le> unat g \<and>
          ex_clears ex' + unat gl \<le> ex_clears ex1 + unat g)
       (\<lambda>_ (out', ex'). ex_good E T ex' \<and> same_ref (Fixed out) out' \<and> ex_clears ex' \<le> ex_clears ex1 + unat g)
       (Fixed out, ex1)"
      using k [unfolded call_ok_def, rule_format, of ex1 ?p "Fixed out"] 1 d g by (simp add: params_ok_def bytes_or_empty_def)
    then show ?thesis using 1(1,3)
      by (cases "k ?p (Fixed out, ex1)"; cases "fst (k ?p (Fixed out, ex1))")
        (auto simp: wp_def ext_impl_call_def Let_def)
  next
    case 2
    then show ?thesis by (auto simp: ext_impl_call_def)
  qed
qed

text \<open>The externalities of a frame satisfy what the interpreter relies on, given executives for the
  frames below; at the greatest depth there are none.\<close>

lemma externalities_contract:
  assumes nested: "env_ok E \<Longrightarrow> tracer_contract T \<Longrightarrow> depth < 1024 \<Longrightarrow> call_ok E T c \<and> create_ok E T k"
  shows "ext_contract (Externalities_new (env_libs E) T noop_vm_tracer (env_info E) depth origin c k) (ex_good E T) ex_clears"
proof -
  let ?L = "env_libs E"
  let ?X = "Externalities_new ?L T noop_vm_tracer (env_info E) depth origin c k"
  have md: "max_depth new_frontier = 1024" by (simp add: new_frontier_def Schedule_new_def)
  show ?thesis
  proof (unfold_locales, goal_cases)
    case 1
    show ?case by (simp add: Externalities_new_def)
  next
    case (2 k)
    show ?case by (simp add: Externalities_new_def keeps_on_state State_storage_at_wp)
  next
    case (3 k v)
    show ?case by (simp add: Externalities_new_def keeps_on_state State_set_storage_wp)
  next
    case (4 a)
    show ?case by (simp add: Externalities_new_def keeps_on_state State_read_wp)
  next
    case (5 a)
    show ?case by (simp add: Externalities_new_def keeps_on_state State_read_wp)
  next
    case 6
    show ?case by (simp add: Externalities_new_def keeps_def sm_ret_def)
  next
    case (7 a)
    show ?case by (simp add: Externalities_new_def keeps_def sm_ret_def)
  next
    case (8 n)
    show ?case using blockhash_returns by (auto simp: Externalities_new_def keeps_def sm_lift_def ex_good_def env_ok_def)
  next
    case (9 a)
    show ?case
    proof (rule keepsI, goal_cases)
      case (1 ex)
      then have "state_good ?L (ex_state ex)" by (simp add: ex_good_def)
      from State_code_wp [OF this, of a] show ?case using ex_stays_peak [OF 1]
        by (simp add: Externalities_new_def wp_bind wp_on_state wp_ret) (erule wp_mono, auto)
    qed
  next
    case (10 ex a code ex')
    then have "state_good ?L (ex_state ex)" by (simp add: ex_good_def)
    from State_code_wp [OF this, of a] show ?case using 10(2)
      by (auto simp: Externalities_new_def sm_bind_def on_state_def sm_ret_def wp_def split: prod.splits res.splits option.splits)
  next
    case (11 a)
    show ?case
    proof (rule keepsI, goal_cases)
      case (1 ex)
      then have "state_good ?L (ex_state ex)" by (simp add: ex_good_def)
      from State_read_wp(5) [OF this, of a] show ?case using ex_stays_peak [OF 1]
        by (simp add: Externalities_new_def wp_bind wp_on_state wp_ret) (erule wp_mono, auto)
    qed
  next
    case (12 ts d)
    show ?case by (simp add: Externalities_new_def keeps_def ext_impl_log_def sm_modify_def ex_good_def ex_clears_def)
  next
    case (13 a)
    show ?case by (simp add: Externalities_new_def keeps_def ext_impl_suicide_def sm_modify_def ex_good_def ex_clears_def)
  next
    case (14 ex)
    let ?n = "sub_sstore_clears_count (ex_substate ex)"
    have lt: "unat ?n + unat (1 :: u256) < 2 ^ LENGTH(256)" using 14(2) by (simp add: ex_clears_def)
    then show ?case using 14(1) unat_add_small [OF lt]
      by (simp add: Externalities_new_def ext_impl_inc_sstore_clears_def plus_chk_def ex_good_def ex_clears_def)
  next
    case (15 ex g code v)
    then have "create_ok E T k" using nested md by (auto simp: Externalities_new_def ex_good_def)
    from ext_impl_create_law [OF this 15(1,3,4,5), of origin v] show ?case by (simp add: Externalities_new_def)
  next
    case (16 ex g d s r ov ca out t)
    then have "call_ok E T c" using nested md by (auto simp: Externalities_new_def ex_good_def)
    from ext_impl_call_law [OF this 16(1,3,4,5), of origin s r ov ca out t] show ?case by (simp add: Externalities_new_def)
  next
    case (17 ex pc i gc)
    then show ?case by (simp add: Externalities_new_def noop_vm_tracer_def ex_good_def ex_clears_def)
  qed
qed

section \<open>A run of the virtual machine\<close>

primrec policy_rel :: "OutputPolicy \<Rightarrow> OutputPolicy \<Rightarrow> bool" where
  "policy_rel (OP_Return out copy) p =
     (\<exists>out' copy'. p = OP_Return out' copy' \<and> same_ref out out' \<and> (copy' = None) = (copy = None))"
| "policy_rel (OP_InitContract copy) p =
     (\<exists>copy'. p = OP_InitContract copy' \<and> (copy' = None) = (copy = None))"

lemma same_ref_refl [simp]: "same_ref out out"
  by (cases out) simp_all

lemma policy_rel_refl [simp]: "policy_rel p p"
  by (cases p) simp_all

lemma frontier_deposit:
  "create_data_gas new_frontier = 200" "exceptional_failed_code_deposit new_frontier = False"
  by (simp_all add: new_frontier_def Schedule_new_def)

lemma ext_ret_wp:
  assumes ex: "ex_good E T ex" and d: "length data < 2 ^ 64"
  shows "wp (ext_ret (env_libs E) origin gas data)
    (\<lambda>gl (p', ex'). ex_good E T ex' \<and> policy_rel p p' \<and> unat gl \<le> unat gas \<and> ex_clears ex' \<le> ex_clears ex)
    (\<lambda>_ (p', ex'). ex_good E T ex' \<and> policy_rel p p' \<and> ex_clears ex' \<le> ex_clears ex) (p, ex)"
proof (cases p)
  case (OP_Return out copy)
  then show ?thesis using ex by (cases out) (auto simp: wp_def ext_ret_def Let_def)
next
  case (OP_InitContract copy)
  let ?n = "of_nat (length data) :: u256" and ?s = "State_init_code (env_libs E) (oi_address origin) data"
  have n: "unat ?n = length data" using d by (intro unat_of_nat_small) simp
  have lt: "unat ?n * unat (of_nat 200 :: u256) < 2 ^ LENGTH(256)" using d n by simp
  have t: "times_chk ?n (of_nat (create_data_gas new_frontier)) = (Ok (?n * of_nat 200) :: u256 evm_result)"
    using lt by (simp add: times_chk_def frontier_deposit)
  obtain r ex' where r: "on_state ?s ex = (r, ex')" by fastforce
  have "returns r \<and> ex_good E T ex' \<and> ex_clears ex' \<le> ex_clears ex"
    using keeps_run [OF keeps_on_state [of E ?s T, OF State_init_code_wp [OF _ d]] ex r] by (simp add: kept_def)
  then show ?thesis using ex r t
    by (cases r) (auto simp: OP_InitContract wp_def ext_ret_def Let_def frontier_deposit minus_chk_def
        word_le_nat_alt unat_sub linorder_not_less)
qed

lemma finalize_run_wp:
  assumes "run_post (ex_good E T) ex_clears K g r ex"
  shows "wp (finalize_run (env_libs E) origin r)
    (\<lambda>gl (p', ex'). ex_good E T ex' \<and> policy_rel p p' \<and> unat gl \<le> g \<and> ex_clears ex' + unat gl \<le> K)
    (\<lambda>_ (p', ex'). ex_good E T ex' \<and> policy_rel p p' \<and> ex_clears ex' \<le> K) (p, ex)"
proof (cases r)
  case (Known gas)
  then show ?thesis using assms by (simp add: finalize_run_def wp_ret run_post_def)
next
  case (NeedsReturn gas d)
  then have ex: "ex_good E T ex" "length d < 2 ^ 64" "unat gas \<le> g" "ex_clears ex + unat gas \<le> K"
    using assms by (simp_all add: run_post_def)
  show ?thesis unfolding finalize_run_def NeedsReturn GasLeft.case
    by (rule wp_mono [OF ext_ret_wp [OF ex(1,2)]]) (use ex in auto)
qed

lemma can_fit: "unat g < 2 ^ 64 \<Longrightarrow> can_fit_in_usize g"
  by (simp add: can_fit_in_usize_def word_unat_eq_iff unat_ucast_up low_u64_small)

lemma exec_vm_wp:
  assumes nested: "depth < 1024 \<Longrightarrow> call_ok E T c \<and> create_ok E T k"
    and ex: "ex_good E T ex" and p: "params_ok params" "ap_code params \<noteq> None" "unat (ap_gas params) < 2 ^ 64"
    "ex_clears ex + unat (ap_gas params) < 2 ^ 128"
  shows "wp (exec_vm E T noop_vm_tracer depth c k params)
    (\<lambda>gl (p', ex'). ex_good E T ex' \<and> policy_rel policy p' \<and> unat gl \<le> unat (ap_gas params) \<and>
       ex_clears ex' + unat gl \<le> ex_clears ex + unat (ap_gas params))
    (\<lambda>_ (p', ex'). ex_good E T ex' \<and> policy_rel policy p' \<and> ex_clears ex' \<le> ex_clears ex + unat (ap_gas params))
    (policy, ex)"
proof -
  let ?X = "Externalities_new (env_libs E) T noop_vm_tracer (env_info E) depth (OriginInfo_from params) c k"
  have X: "ext_contract ?X (ex_good E T) ex_clears" using nested by (intro externalities_contract) blast
  have env: "env_depth_threshold E \<noteq> 0" "\<And>h c. \<exists>D. env_jumps E h c = Ok D" using ex by (auto simp: ex_good_def env_ok_def)
  have run: "wp (factory_exec ?X (env_sha3 E) (env_jumps E) params)
    (run_post (ex_good E T) ex_clears (ex_clears ex + unat (ap_gas params)) (unat (ap_gas params)))
    (\<lambda>_. run_err (ex_good E T) ex_clears (ex_clears ex + unat (ap_gas params))) ex"
    unfolding factory_exec_def using can_fit [OF p(3)]
    by (simp add: ext_contract.exec_wp [OF X ex p(1,2) env(2) p(4)])
  show ?thesis
    unfolding exec_vm_def Let_def wp_bind wp_lift wp_on_ex
    using env(1)
    by (simp, intro wp_mono [OF run] finalize_run_wp) (auto simp: run_err_def)
qed

section \<open>The end of a frame\<close>

lemma enact_result_wp:
  assumes ex: "ex_good E T ex" and b: "unat (sub_sstore_clears_count (ex_substate ex)) + unat (sub_sstore_clears_count sub) < 2 ^ 256"
  shows "wp (enact_result (env_libs E) res sub)
    (\<lambda>_ ex'. ex_good E T ex' \<and> ex_clears ex' \<le> ex_clears ex + unat (sub_sstore_clears_count sub) \<and> ex_vm_tracer ex' = ex_vm_tracer ex)
    (\<lambda>_ _. False) ex"
proof -
  let ?L = "env_libs E"
  have s: "state_good ?L (ex_state ex)" using ex by (simp add: ex_good_def)
  have k: "ex_good E T (ex\<lparr>ex_state := discard_checkpoint (ex_state ex)\<rparr>)" "peak (discard_checkpoint (ex_state ex)) \<le> peak (ex_state ex)"
    using ex_stays_peak [OF ex discard_settled [OF s]] by (simp_all add: ex_clears_def)
  have u: "ex_good E T (ex\<lparr>ex_state := revert_to_checkpoint ?L (ex_state ex)\<rparr>)"
    "ex_clears (ex\<lparr>ex_state := revert_to_checkpoint ?L (ex_state ex)\<rparr>) \<le> ex_clears ex"
    using ex_stays_peak [OF ex revert_settled [OF s]] by simp_all
  have lt: "unat (sub_sstore_clears_count (ex_substate ex)) + unat (sub_sstore_clears_count sub) < 2 ^ LENGTH(256)"
    using b by simp
  have keep: "wp (\<lambda>ex. case accrue sub (ex_substate ex) of
                     (r, sub) \<Rightarrow> (r, ex\<lparr>ex_state := discard_checkpoint (ex_state ex), ex_substate := sub\<rparr>))
    (\<lambda>_ ex'. ex_good E T ex' \<and> ex_clears ex' \<le> ex_clears ex + unat (sub_sstore_clears_count sub) \<and> ex_vm_tracer ex' = ex_vm_tracer ex)
    (\<lambda>_ _. False) ex"
    using k lt unat_add_small [OF lt] by (simp add: wp_def accrue_def plus_chk_def ex_good_def ex_clears_def)
  have undo: "wp (sm_modify (\<lambda>ex. ex\<lparr>ex_state := revert_to_checkpoint ?L (ex_state ex)\<rparr>))
    (\<lambda>_ ex'. ex_good E T ex' \<and> ex_clears ex' \<le> ex_clears ex + unat (sub_sstore_clears_count sub) \<and> ex_vm_tracer ex' = ex_vm_tracer ex)
    (\<lambda>_ _. False) ex"
    using u by (simp add: wp_modify)
  show ?thesis
  proof (cases res)
    case (Inl e)
    then show ?thesis using keep undo by (cases e) (simp_all add: enact_result_def)
  next
    case (Inr g)
    then show ?thesis using keep by (simp add: enact_result_def)
  qed
qed

lemma trace_call_result_wp:
  assumes T: "tracer_contract T" and o: "(out = None) = (tr_prepare_trace_output T t0 = None)"
    and g: "\<And>gl. res = Inr gl \<Longrightarrow> unat gl \<le> unat gas"
    and Q: "\<And>t. Q () (ex\<lparr>ex_tracer := t\<rparr>)"
  shows "wp (trace_call_result T (tr_prepare_trace_call T t1 p) gas res out subs) Q E ex"
proof (cases res)
  case (Inl e)
  then show ?thesis using tracer_contract.failed_call [OF T, of t1 p subs "TraceError_from e" "ex_tracer ex"] Q
    by (simp add: trace_call_result_def wp_on_tracer) (auto simp: wp_def)
next
  case (Inr gl)
  then have "gl \<le> gas" using g by (simp add: word_le_nat_alt)
  then show ?thesis using tracer_contract.call [OF T o, of t1 p "gas - gl" subs "ex_tracer ex"] Q Inr
    by (simp add: trace_call_result_def wp_bind wp_lift minus_chk_def wp_on_tracer) (auto simp: wp_def)
qed

lemma trace_create_result_wp:
  assumes T: "tracer_contract T" and o: "(out = None) = (tr_prepare_trace_output T t0 = None)"
    and g: "\<And>gl. res = Inr gl \<Longrightarrow> unat gl \<le> unat gas"
    and Q: "\<And>t. Q () (ex\<lparr>ex_tracer := t\<rparr>)"
  shows "wp (trace_create_result T (tr_prepare_trace_create T t1 p) gas res out a subs) Q E ex"
proof (cases res)
  case (Inl e)
  then show ?thesis using tracer_contract.failed_create [OF T, of t1 p subs "TraceError_from e" "ex_tracer ex"] Q
    by (simp add: trace_create_result_def wp_on_tracer) (auto simp: wp_def)
next
  case (Inr gl)
  then have "gl \<le> gas" using g by (simp add: word_le_nat_alt)
  then show ?thesis using tracer_contract.create [OF T o, of t1 p "gas - gl" a subs "ex_tracer ex"] Q Inr
    by (simp add: trace_create_result_def wp_bind wp_lift minus_chk_def wp_on_tracer) (auto simp: wp_def)
qed

text \<open>The gas a frame gives back, and a frame that runs the virtual machine.\<close>

primrec gas_back :: "evm_error + u256 \<Rightarrow> nat" where
  "gas_back (Inl e) = 0"
| "gas_back (Inr gl) = unat gl"

lemma sub_frame_vm_wp:
  assumes nested: "depth < 1024 \<Longrightarrow> call_ok E T c \<and> create_ok E T k"
    and ex: "ex_good E T ex" and p: "params_ok params" "ap_code params \<noteq> None" "unat (ap_gas params) < 2 ^ 64"
    "ex_clears ex + unat (ap_gas params) < 2 ^ 128"
  shows "wp (sub_frame t () (exec_vm E T noop_vm_tracer depth c k params) policy)
    (\<lambda>(res, p', sub, t', v') ex'. ex_good E T ex' \<and> policy_rel policy p' \<and> gas_back res \<le> unat (ap_gas params) \<and>
       ex_clears ex' + unat (sub_sstore_clears_count sub) + gas_back res \<le> ex_clears ex + unat (ap_gas params))
    (\<lambda>_ _. False) ex"
proof -
  let ?sub = "\<lparr>ex_state = ex_state ex, ex_substate = Substate_new, ex_tracer = t, ex_vm_tracer = ()\<rparr>"
  have "ex_good E T ?sub" "ex_clears ?sub + unat (ap_gas params) < 2 ^ 128"
    using ex p(4) by (simp_all add: ex_good_def ex_clears_def Substate_new_def)
  note run = exec_vm_wp [where depth = depth and c = c and k = k and policy = policy, OF nested this(1) p(1,2,3) this(2)]
  show ?thesis
    unfolding wp_sub_frame
    by (rule wp_mono [OF run])
      (use ex in \<open>auto simp: ex_good_def ex_clears_def Substate_new_def\<close>)
qed

lemma enact_result_le:
  assumes ex: "ex_good E T ex" and K: "ex_clears ex + unat (sub_sstore_clears_count sub) + m \<le> K" "K < 2 ^ 256"
  shows "wp (enact_result (env_libs E) res sub) (\<lambda>_ ex'. ex_good E T ex' \<and> ex_clears ex' + m \<le> K) (\<lambda>_ _. False) ex"
proof -
  have "unat (sub_sstore_clears_count (ex_substate ex)) + unat (sub_sstore_clears_count sub) < 2 ^ 256"
    using K by (simp add: ex_clears_def)
  from enact_result_wp [OF ex this, of res] show ?thesis by (rule wp_mono) (use K in auto)
qed

lemma ex_good_other [simp]:
  "ex_good E T (ex\<lparr>ex_tracer := t\<rparr>) = ex_good E T ex" "ex_good E T (ex\<lparr>ex_vm_tracer := v\<rparr>) = ex_good E T ex"
  "ex_clears (ex\<lparr>ex_tracer := t\<rparr>) = ex_clears ex" "ex_clears (ex\<lparr>ex_vm_tracer := v\<rparr>) = ex_clears ex"
  by (simp_all add: ex_good_def ex_clears_def)

lemma ex_good_discard:
  assumes "ex_good E T ex"
  shows "ex_good E T (ex\<lparr>ex_state := discard_checkpoint (ex_state ex)\<rparr>)"
    "ex_clears (ex\<lparr>ex_state := discard_checkpoint (ex_state ex)\<rparr>) \<le> ex_clears ex"
proof -
  have "state_good (env_libs E) (ex_state ex)" using assms by (simp add: ex_good_def)
  note d = ex_stays_peak [OF assms discard_settled [OF this]]
  show "ex_good E T (ex\<lparr>ex_state := discard_checkpoint (ex_state ex)\<rparr>)"
    "ex_clears (ex\<lparr>ex_state := discard_checkpoint (ex_state ex)\<rparr>) \<le> ex_clears ex"
    by (rule d)+
qed

text \<open>A call of an account: with code, it runs it; without, nothing happens.\<close>

definition call_post ::
  "('d, 'm, 'l) Env \<Rightarrow> 't Tracer \<Rightarrow> BytesRef \<Rightarrow> nat \<Rightarrow> nat \<Rightarrow>
   (evm_error + u256) \<times> BytesRef \<Rightarrow> ('d, 'l, 't, 'v) Ex \<Rightarrow> bool" where
  "call_post E T out g K = (\<lambda>(res, out') ex'. ex_good E T ex' \<and> same_ref out out' \<and> gas_back res \<le> g \<and>
     ex_clears ex' + gas_back res \<le> K)"

lemma gas_back_le: "gas_back res \<le> unat g \<Longrightarrow> res = Inr gl \<Longrightarrow> unat gl \<le> unat g"
  by simp

lemma noop_vm_tracer_sel [simp]:
  "vm_prepare_subtrace noop_vm_tracer v code = Ok ()" "vm_done_subtrace noop_vm_tracer v' v = v"
  by (simp_all add: noop_vm_tracer_def)

lemma wp_pure [simp]: "wp (\<lambda>s. (Ok a, s)) Q E s = Q a s"
  by (simp add: wp_def)

lemma call_end_wp:
  assumes ex: "ex_good E T ex" and pol: "policy_rel (OP_Return out (tr_prepare_trace_output T tra)) pol"
    and g: "gas_back res \<le> unat gas" and K: "ex_clears ex + unat (sub_sstore_clears_count sub) + gas_back res \<le> K" "K < 2 ^ 256"
  shows "wp (sm_bind (trace_call_result T (tr_prepare_trace_call T trb p) gas res (op_copy pol) subs) (\<lambda>_.
      sm_bind (enact_result (env_libs E) res sub) (\<lambda>_. sm_ret (res, op_output pol out))))
    (call_post E T out (unat gas) K) (\<lambda>_ _. False) ex"
proof -
  have T: "tracer_contract T" using ex by (simp add: ex_good_def)
  obtain out' copy where pol': "pol = OP_Return out' copy" "same_ref out out'" "(copy = None) = (tr_prepare_trace_output T tra = None)"
    using pol by auto
  have "wp (enact_result (env_libs E) res sub)
      (\<lambda>_. call_post E T out (unat gas) K (res, out')) (\<lambda>_ _. False) (ex\<lparr>ex_tracer := t\<rparr>)" for t
    by (rule wp_mono [OF enact_result_le [where m = "gas_back res"]])
      (use ex g K pol' in \<open>auto simp: call_post_def\<close>)
  then show ?thesis
    unfolding wp_bind wp_ret pol' op_output.simps op_copy.simps
    by (intro trace_call_result_wp [OF T pol'(3) gas_back_le [OF g]])
qed

lemma call_code_wp:
  assumes nested: "depth < 1024 \<Longrightarrow> call_ok E T c \<and> create_ok E T k"
    and ex: "ex_good E T ex" and p: "params_ok params" "unat (ap_gas params) < 2 ^ 64"
    "ex_clears ex + unat (ap_gas params) < 2 ^ 128"
  shows "wp (call_code E T noop_vm_tracer depth c k params out)
    (call_post E T out (unat (ap_gas params)) (ex_clears ex + unat (ap_gas params))) (\<lambda>_ _. False) ex"
proof (cases "ap_code params")
  case None
  have T: "tracer_contract T" using ex by (simp add: ex_good_def)
  obtain t' where t': "tr_trace_call T (tr_prepare_trace_call T (ex_tracer ex) params) 0
      (tr_prepare_trace_output T (ex_tracer ex)) [] (ex_tracer ex) = (Ok (), t')"
    using tracer_contract.call [OF T refl] by blast
  show ?thesis
    using t' ex_good_discard [OF ex]
    by (simp add: call_code_def None Let_def wp_bind wp_get wp_with_state wp_on_tracer wp_ret)
      (simp add: wp_def call_post_def)
next
  case (Some code)
  let ?pol = "OP_Return out (tr_prepare_trace_output T (ex_tracer ex))"
  have c: "ap_code params \<noteq> None" using Some by simp
  note run = sub_frame_vm_wp [where t = "tr_subtracer T (ex_tracer ex)" and policy = ?pol, OF nested ex p(1) c p(2,3)]
  show ?thesis
    unfolding call_code_def Let_def Some option.case
      wp_bind [of "sm_get _"] wp_bind [of "sub_frame _ _ _ _"] wp_bind [of "\<lambda>ex. (Ok _, ex)"] wp_get noop_vm_tracer_sel wp_pure
  proof (rule wp_mono [OF run], goal_cases)
    case (2 a ex')
    obtain res pol sub t' v' where a: "a = (res, pol, sub, t', v')" by (cases a) blast
    have K: "ex_clears ex + unat (ap_gas params) < 2 ^ 256" using p(3) by simp
    show ?case using 2 unfolding a prod.case wp_bind [of "sm_modify _"] wp_modify
      by (intro call_end_wp [where tra = "ex_tracer ex"] K) simp_all
  qed simp_all
qed

text \<open>A create.\<close>

lemma create_end_wp:
  assumes ex: "ex_good E T ex" and pol: "policy_rel (OP_InitContract (tr_prepare_trace_output T tra)) pol"
    and g: "gas_back res \<le> unat gas" and K: "ex_clears ex + unat (sub_sstore_clears_count sub) + gas_back res \<le> K" "K < 2 ^ 256"
  shows "wp (sm_bind (trace_create_result T (tr_prepare_trace_create T trb p) gas res (op_copy pol) a subs) (\<lambda>_.
      sm_bind (enact_result (env_libs E) res sub) (\<lambda>_. sm_lift (of_try res))))
    (\<lambda>gl ex'. ex_good E T ex' \<and> unat gl \<le> unat gas \<and> ex_clears ex' + unat gl \<le> K)
    (\<lambda>_ ex'. ex_good E T ex' \<and> ex_clears ex' \<le> K) ex"
proof -
  have T: "tracer_contract T" using ex by (simp add: ex_good_def)
  obtain copy where pol': "pol = OP_InitContract copy" "(copy = None) = (tr_prepare_trace_output T tra = None)"
    using pol by auto
  have "wp (enact_result (env_libs E) res sub)
      (\<lambda>_. wp (sm_lift (of_try res)) (\<lambda>gl ex'. ex_good E T ex' \<and> unat gl \<le> unat gas \<and> ex_clears ex' + unat gl \<le> K)
         (\<lambda>_ ex'. ex_good E T ex' \<and> ex_clears ex' \<le> K)) (\<lambda>_ ex'. ex_good E T ex' \<and> ex_clears ex' \<le> K) (ex\<lparr>ex_tracer := t\<rparr>)" for t
    by (rule wp_mono [OF enact_result_le [where m = "gas_back res"]])
      (use ex g K in \<open>auto simp: of_try_def wp_lift split: sum.splits\<close>)
  then show ?thesis
    unfolding wp_bind pol' op_copy.simps
    by (intro trace_create_result_wp [OF T pol'(2) gas_back_le [OF g]])
qed

lemma ex_good_stays:
  assumes "ex_good E T ex" "stays (env_libs E) f (ex_state ex)"
  shows "wp (on_state f) (\<lambda>_ ex'. ex_good E T ex' \<and> ex_clears ex' \<le> ex_clears ex)
    (\<lambda>_ ex'. ex_good E T ex' \<and> ex_clears ex' \<le> ex_clears ex) ex"
  using assms(2) unfolding wp_on_state by (rule wp_mono) (use ex_stays_peak [OF assms(1)] in auto)

lemma ex_good_checkpoint:
  assumes "ex_good E T ex"
  shows "ex_good E T (ex\<lparr>ex_state := checkpoint (ex_state ex)\<rparr>) \<and>
    ex_clears (ex\<lparr>ex_state := checkpoint (ex_state ex)\<rparr>) \<le> ex_clears ex"
  using ex_stays_peak [OF assms checkpoint_settled] assms by (simp add: ex_good_def)

lemma wp_bind_from_trie:
  "wp (sm_bind (\<lambda>ex. case f ex of (r, ex') \<Rightarrow> (from_trie r, ex')) g) Q E ex =
     wp f (\<lambda>a. wp (g a) Q E) (\<lambda>e. E (Internal (''Internal error: '' @ e))) ex"
  by (simp add: wp_bind wp_from_trie)

lemma Executive_create_ok:
  fixes E :: "('d, 'm, 'l) Env" and T :: "'t Tracer"
  assumes nested: "depth < 1024 \<Longrightarrow> call_ok E T c \<and> create_ok E T k"
  shows "create_ok E T (Executive_create E T noop_vm_tracer depth c k)"
  unfolding create_ok_def
proof (intro allI impI, elim conjE)
  fix params and ex :: "('d, 'l, 't, unit) Ex"
  assume ex: "ex_good E T ex" and p: "params_ok params" "ap_code params \<noteq> None" "unat (ap_gas params) < 2 ^ 64"
    "ex_clears ex + unat (ap_gas params) < 2 ^ 128"
  let ?K = "ex_clears ex + unat (ap_gas params)"
  have K: "?K < 2 ^ 256" using p(4) by simp
  obtain code where code: "ap_code params = Some code" using p(2) by blast
  let ?cp = "ex\<lparr>ex_state := checkpoint (ex_state ex)\<rparr>"
  have cp: "ex_good E T ?cp" "ex_clears ?cp \<le> ex_clears ex" using ex_good_checkpoint [OF ex] by simp_all
  then have "stays (env_libs E) (State_new_contract (env_libs E) (ap_address params) 0) (ex_state ?cp)"
    by (intro State_new_contract_wp) (simp add: ex_good_def)
  note new = ex_good_stays [OF cp(1) this]
  show "wp (Executive_create E T noop_vm_tracer depth c k params)
       (\<lambda>gl ex'. ex_good E T ex' \<and> unat gl \<le> unat (ap_gas params) \<and> ex_clears ex' + unat gl \<le> ?K)
       (\<lambda>_ ex'. ex_good E T ex' \<and> ex_clears ex' \<le> ?K) ex"
    unfolding Executive_create_def Let_def wp_bind [of "with_state _"] wp_with_state wp_bind_from_trie
  proof (rule wp_mono [OF new], goal_cases)
    case (1 u ex1)
    then have ex1: "ex_good E T ex1" "ex_clears ex1 + unat (ap_gas params) < 2 ^ 128" using p(4) cp(2) by auto
    let ?pol = "OP_InitContract (tr_prepare_trace_output T (ex_tracer ex1))"
    note run = sub_frame_vm_wp [where t = "tr_subtracer T (ex_tracer ex1)" and policy = ?pol, OF nested ex1(1) p(1,2,3) ex1(2)]
    show ?case
      unfolding wp_bind [of "sm_get _"] wp_bind [of "sub_frame _ _ _ _"] wp_bind [of "\<lambda>ex. (Ok _, ex)"] wp_get
        noop_vm_tracer_sel wp_pure code wp_bind [of "sm_lift _"] wp_lift expect_def option.case res.case
    proof (rule wp_mono [OF run], goal_cases)
      case (2 a ex2)
      obtain res pol sub t' v' where a: "a = (res, pol, sub, t', v')" by (cases a) blast
      show ?case using 2 1 cp(2) unfolding a prod.case wp_bind [of "sm_modify _"] wp_modify
        by (intro create_end_wp [where tra = "ex_tracer ex1"] K) simp_all
    qed simp_all
  next
    case (2 e ex1)
    then show ?case using cp(2) by simp
  qed
qed

lemma Executive_call_ok:
  fixes E :: "('d, 'm, 'l) Env" and T :: "'t Tracer"
  assumes nested: "depth < 1024 \<Longrightarrow> call_ok E T c \<and> create_ok E T k"
  shows "call_ok E T (Executive_call E T noop_vm_tracer depth c k nc nk)"
  unfolding call_ok_def
proof (intro allI impI, elim conjE)
  fix params out and ex :: "('d, 'l, 't, unit) Ex"
  assume ex: "ex_good E T ex" and p: "params_ok params" "unat (ap_gas params) < 2 ^ 64"
    "ex_clears ex + unat (ap_gas params) < 2 ^ 128"
  have env: "env_native E = []" "env_builtins E = []" using ex by (simp_all add: ex_good_def env_ok_def)
  let ?cp = "ex\<lparr>ex_state := checkpoint (ex_state ex)\<rparr>"
  have cp: "ex_good E T ?cp" "ex_clears ?cp \<le> ex_clears ex" using ex_good_checkpoint [OF ex] by simp_all
  have "wp (call_code E T noop_vm_tracer depth c k params out)
      (call_post E T out (unat (ap_gas params)) (ex_clears ?cp + unat (ap_gas params))) (\<lambda>_ _. False) ?cp"
    by (rule call_code_wp [OF nested cp(1) p(1,2)]) (use p(3) cp(2) in auto)
  then show "wp (Executive_call E T noop_vm_tracer depth c k nc nk params)
       (\<lambda>gl (out', ex'). ex_good E T ex' \<and> same_ref out out' \<and> unat gl \<le> unat (ap_gas params) \<and>
          ex_clears ex' + unat gl \<le> ex_clears ex + unat (ap_gas params))
       (\<lambda>_ (out', ex'). ex_good E T ex' \<and> same_ref out out' \<and> ex_clears ex' \<le> ex_clears ex + unat (ap_gas params))
       (out, ex)"
    using cp(2)
    by (auto simp: Executive_call_def native_new_contract_def is_builtin_def env wp_def call_post_def sm_bind_def
        with_state_def sm_modify_def of_try_def split: prod.splits res.splits sum.splits)
qed

text \<open>The executive to the depth of 1024 that the schedule allows.\<close>

lemma executive_ok:
  assumes "depth \<le> 1024" "1025 \<le> n + depth"
  shows "call_ok E T (fst (executive n E T noop_vm_tracer depth)) \<and> create_ok E T (snd (executive n E T noop_vm_tracer depth))"
  using assms
proof (induction n arbitrary: depth)
  case (Suc n)
  obtain c k where ck: "executive n E T noop_vm_tracer (depth + 1) = (c, k)" by fastforce
  obtain nc nk where nck: "noop_executive n E (depth + 1) = (nc, nk)" by fastforce
  have "call_ok E T c \<and> create_ok E T k" if "depth < 1024" using Suc.IH [of "depth + 1"] Suc.prems that ck by simp
  then show ?case using Executive_call_ok [of depth E T c k nc nk] Executive_create_ok [of depth E T c k] ck nck by simp
qed simp

end
