(* ===== verification/Transaction_Safety.thy ===== *)
theory Transaction_Safety
  imports Executive_Safety
begin

text \<open>
  A transaction returns (\<open>transact\<close> of \<^verbatim>\<open>executive.rs\<close>, \<open>apply\<close> of \<^verbatim>\<open>state/mod.rs\<close>): the
  externalities of every frame keep the contract of the interpreter, the gas accounting of \<open>finalize\<close>
  is exact and does not overflow, and the transaction ends with a result or an error, in a well formed
  state.
\<close>

section \<open>Externalities over the executive\<close>

text \<open>The contract of the interpreter, for the externalities of a frame over the executive itself.\<close>

interpretation frame: ext_contract
  "Externalities_new (env_libs E) T noop_vm_tracer (env_info E) depth origin
     (fst (executive 1025 E T noop_vm_tracer (depth + 1))) (snd (executive 1025 E T noop_vm_tracer (depth + 1)))"
  "ex_good E T" ex_clears for E T depth origin
  by (rule externalities_contract) (rule executive_ok, simp_all)

section \<open>The gas of a transaction\<close>

lemma times_chk_ok: "unat (a :: u256) * unat b < 2 ^ 256 \<Longrightarrow> times_chk a b = (Ok (a * b) :: (ExecutionError, u256) res) \<and> unat (a * b) = unat a * unat b"
  by (simp add: times_chk_def unat_mult_lem [symmetric])

lemma plus_chk_ok: "unat (a :: u256) + unat b < 2 ^ 256 \<Longrightarrow> plus_chk a b = (Ok (a + b) :: (ExecutionError, u256) res) \<and> unat (a + b) = unat a + unat b"
  by (simp add: plus_chk_def unat_add_lem [symmetric])

lemma minus_chk_ok: "unat b \<le> unat (a :: u256) \<Longrightarrow> minus_chk a b = (Ok (a - b) :: (ExecutionError, u256) res) \<and> unat (a - b) = unat a - unat b"
  by (simp add: minus_chk_def word_le_nat_alt unat_sub)

lemma unat_half: "unat (drop_bit (Suc 0) (a :: u256)) = unat a div 2"
  by (simp add: drop_bit_eq_div unat_div)

lemma frontier_refunds: "sstore_refund_gas new_frontier = 15000" "suicide_refund_gas new_frontier = 24000"
  by (simp_all add: new_frontier_def Schedule_new_def)

lemma length_distinct_address:
  fixes xs :: "address list"
  assumes "distinct xs"
  shows "length xs \<le> 2 ^ 160"
proof -
  have "length xs = card (set xs)" using assms by (simp add: distinct_card)
  also have "\<dots> \<le> card (UNIV :: address set)" by (intro card_mono) simp_all
  finally show ?thesis by (simp add: card_word)
qed

lemma finalize_gas_ok:
  assumes gl: "unat gl \<le> unat (tx_gas_limit t)" and sub: "distinct (sub_suicides sub)"
    "unat (sub_sstore_clears_count sub) < 2 ^ 130"
    and price: "unat (tx_gas_limit t) * unat (tx_gas_price t) < 2 ^ 256"
  obtains refunded used where "finalize_gas t sub gl = Ok (refunded, used)"
    "unat used + unat refunded + unat gl = unat (tx_gas_limit t)" "2 * unat refunded \<le> unat (tx_gas_limit t) - unat gl"
    "unat refunded \<le> 15000 * unat (sub_sstore_clears_count sub) + 24000 * length (sub_suicides sub)"
proof -
  let ?c = "sub_sstore_clears_count sub" and ?n = "length (sub_suicides sub)" and ?g = "tx_gas_limit t"
  have n: "?n \<le> 2 ^ 160" using length_distinct_address [OF sub(1)] .
  then have un: "unat (of_nat ?n :: u256) = ?n" by (intro unat_of_nat_small) simp
  have a: "times_chk (of_nat 15000) ?c = (Ok (of_nat 15000 * ?c) :: (ExecutionError, u256) res)" "unat (of_nat 15000 * ?c) = 15000 * unat ?c"
    using times_chk_ok [of "of_nat 15000" ?c] sub(2) by simp_all
  have b: "times_chk (of_nat 24000) (of_nat ?n :: u256) = (Ok (of_nat 24000 * of_nat ?n) :: (ExecutionError, u256) res)"
    "unat (of_nat 24000 * of_nat ?n :: u256) = 24000 * ?n"
    using times_chk_ok [of "of_nat 24000" "of_nat ?n"] n un by simp_all
  let ?b = "of_nat 15000 * ?c + of_nat 24000 * of_nat ?n"
  have s: "plus_chk (of_nat 15000 * ?c) (of_nat 24000 * of_nat ?n) = (Ok ?b :: (ExecutionError, u256) res)" "unat ?b = 15000 * unat ?c + 24000 * ?n"
    using plus_chk_ok [of "of_nat 15000 * ?c" "of_nat 24000 * of_nat ?n"] a b sub(2) n by simp_all
  have m: "minus_chk ?g gl = (Ok (?g - gl) :: (ExecutionError, u256) res)" "unat (?g - gl) = unat ?g - unat gl" using minus_chk_ok [OF gl] by simp_all
  let ?r = "min ?b (drop_bit 1 (?g - gl))"
  have r: "unat ?r \<le> unat ?b" "2 * unat ?r \<le> unat ?g - unat gl"
    using m(2) by (auto simp: min_def word_le_nat_alt unat_half)
  have l: "plus_chk gl ?r = (Ok (gl + ?r) :: (ExecutionError, u256) res)" "unat (gl + ?r) = unat gl + unat ?r"
    using plus_chk_ok [of gl ?r] r(2) gl unat_u256 [of ?g] by simp_all
  have u: "minus_chk ?g (gl + ?r) = (Ok (?g - (gl + ?r)) :: (ExecutionError, u256) res)" "unat (?g - (gl + ?r)) = unat ?g - (unat gl + unat ?r)"
    using minus_chk_ok [of "gl + ?r" ?g] l(2) r(2) gl by simp_all
  have small: "times_chk x (tx_gas_price t) = (Ok (x * tx_gas_price t) :: (ExecutionError, u256) res)" if "unat x \<le> unat ?g" for x
    using times_chk_ok [OF le_less_trans [OF mult_le_mono1 [OF that] price]] by simp
  have "finalize_gas t sub gl = Ok (?r, ?g - (gl + ?r))"
    using a b s m l u small [of "gl + ?r"] small [of "?g - (gl + ?r)"] r(2) gl
    by (simp add: finalize_gas_def Let_def frontier_refunds)
  then show ?thesis using that [of ?r "?g - (gl + ?r)"] u r s(2) gl by simp
qed

section \<open>A transaction\<close>

lemma wp_tx_state [wp_rules]:
  "wp (tx_state f) Q E ex =
     wp f (\<lambda>a s. Q a (ex\<lparr>ex_state := s\<rparr>)) (\<lambda>e s. E (EE_Internal e) (ex\<lparr>ex_state := s\<rparr>)) (ex_state ex)"
  by (auto simp: wp_def tx_state_def on_state_def split: prod.splits res.splits)

lemma wp_evm_value [wp_rules]: "wp (evm_value m) Q E s = wp m (\<lambda>a. Q (Inr a)) (\<lambda>e. Q (Inl e)) s"
  by (auto simp: wp_def evm_value_def split: prod.splits res.splits)

lemma kill_all_settled:
  "state_good L s \<Longrightarrow> settled L (peak s) s (fold kill_account as s)"
proof (induction as arbitrary: s)
  case Nil
  then show ?case by (simp add: settled_refl)
next
  case (Cons a as)
  note k = kill_settled [OF Cons.prems, of a]
  have "peak (kill_account a s) \<le> peak s" using settled_peak [OF k peak_ge(2)] .
  then show ?case using Cons.IH [OF settled_good [OF Cons.prems k]] settled_trans [OF k] settled_mono by fastforce
qed

lemma stays_bind:
  assumes s: "state_good L s" and m: "stays L m s" and f: "\<And>a s1. state_good L s1 \<Longrightarrow> stays L (f a) s1"
  shows "stays L (sm_bind m f) s"
  unfolding wp_bind
proof (rule wp_mono [OF m], goal_cases)
  case (1 a s1)
  have s1: "state_good L s1" and p: "peak s1 \<le> peak s"
    using settled_good [OF s 1] settled_peak [OF 1] peak_ge(2) [of s] by simp_all
  show ?case by (rule wp_mono [OF f [OF s1]]) (use settled_trans [OF 1] settled_mono p in blast)+
qed

lemma collect_garbage_wp: "state_good L s \<Longrightarrow> stays L (collect_garbage L as) s"
proof (induction as arbitrary: s)
  case Nil
  then show ?case by (simp add: wp_ret settled_refl)
next
  case (Cons a as)
  have kill: "stays L (if b then sm_modify (kill_account a) else sm_ret ()) s" if "state_good L s" for b s
    using that by (simp add: wp_modify wp_ret kill_settled settled_refl)
  have null: "stays L (if b then State_exists_and_not_null L a else sm_ret True) s" if "state_good L s" for b s
    using that by (simp add: wp_ret State_read_wp settled_refl)
  show ?case unfolding collect_garbage.simps
    by (intro stays_bind State_read_wp kill null Cons)
qed

lemma Executive_finalize_wp:
  assumes ex: "ex_good E T ex" and res: "gas_back res \<le> unat (tx_gas_limit t)"
    and sub: "unat (sub_sstore_clears_count (ex_substate ex)) < 2 ^ 130"
    and price: "unat (tx_gas_limit t) * unat (tx_gas_price t) < 2 ^ 256"
    and block: "unat (ei_gas_used (env_info E)) + unat (tx_gas_limit t) < 2 ^ 256"
  shows "wp (Executive_finalize E t (ex_substate ex) res out trace vm_trace)
    (\<lambda>x ex'. ex_good E T ex' \<and> peak (ex_state ex') \<le> peak (ex_state ex) \<and> xd_gas x = tx_gas_limit t \<and> unat (xd_gas_used x) \<le> unat (tx_gas_limit t) \<and>
       unat (xd_cumulative_gas_used x) = unat (ei_gas_used (env_info E)) + unat (xd_gas_used x))
    (\<lambda>_ ex'. ex_good E T ex' \<and> peak (ex_state ex') \<le> peak (ex_state ex)) ex"
proof -
  let ?gl = "case res of Inl e \<Rightarrow> 0 | Inr x \<Rightarrow> x" and ?L = "env_libs E" and ?s = "ex_substate ex"
  have gl: "unat ?gl \<le> unat (tx_gas_limit t)" using res by (cases res) simp_all
  have d: "distinct (sub_suicides ?s)" using ex by (simp add: ex_good_def)
  obtain refunded used where fg: "finalize_gas t ?s ?gl = Ok (refunded, used)"
    "unat used + unat refunded + unat ?gl = unat (tx_gas_limit t)"
    by (rule finalize_gas_ok [OF gl d sub price]) blast
  have sg: "state_good ?L (ex_state ex)" using ex by (simp add: ex_good_def)
  let ?k = "fold kill_account (sub_suicides ?s) (ex_state ex)"
  note k = kill_all_settled [OF sg, of "sub_suicides ?s"]
  have k': "state_good ?L ?k" "peak ?k \<le> peak (ex_state ex)" using settled_good [OF sg k] settled_peak [OF k peak_ge(2)] by simp_all
  have kex: "ex_good E T (ex\<lparr>ex_state := ?k\<rparr>)" using ex k' by (simp add: ex_good_def)
  have u: "plus_chk (ei_gas_used (env_info E)) x = (Ok (ei_gas_used (env_info E) + x) :: (ExecutionError, u256) res)"
    "unat (ei_gas_used (env_info E) + x) = unat (ei_gas_used (env_info E)) + unat x" if "unat x \<le> unat (tx_gas_limit t)" for x
    using plus_chk_ok [of "ei_gas_used (env_info E)" x] that block by simp_all
  note us = u [of used] u [of "tx_gas_limit t"]
  show ?thesis
    unfolding Executive_finalize_def Let_def wp_bind [of "sm_lift _"] wp_lift fg res.case prod.case wp_bind [of "with_state _"] wp_with_state
      wp_bind [of "tx_state _"] wp_tx_state
  proof (rule wp_mono [OF collect_garbage_wp], goal_cases)
    case 1
    show ?case using k'(1) by simp
  next
    case (2 a s')
    then have s': "settled ?L (peak ?k) ?k s'" by simp
    have p: "peak s' \<le> peak (ex_state ex)" using settled_peak [OF s' peak_ge(2)] k'(2) by simp
    have g: "ex_good E T (ex\<lparr>ex_state := ?k, ex_state := s'\<rparr>)" using ex settled_good [OF k'(1) s'] by (simp add: ex_good_def)
    show ?case
      using us fg(2) p g by (auto simp: wp_bind wp_lift wp_ret wp_err split: sum.splits evm_error.splits)
  next
    case (3 e s')
    then have s': "settled ?L (peak ?k) ?k s'" by simp
    then show ?case using ex settled_good [OF k'(1) s'] settled_peak [OF s' peak_ge(2)] k'(2) by (simp add: ex_good_def)
  qed
qed

text \<open>What is asked of a transaction: it has the base gas, unless it stores data or the checks reject
  it; its gas fits 64 bits, and the price of it and the gas of the block 256.\<close>

definition tx_ok :: "EnvInfo \<Rightarrow> SignedTransaction \<Rightarrow> bool" where
  "tx_ok info t \<longleftrightarrow>
     (tx_sender t = 0 \<longrightarrow> tx_action t = Action_Store \<or> base_gas_required \<le> tx_gas_limit t) \<and>
     unat (tx_gas_limit t) < 2 ^ 64 \<and> length (tx_data t) < 2 ^ 64 \<and>
     unat (tx_gas_limit t) * unat (tx_gas_price t) < 2 ^ 256 \<and>
     unat (ei_gas_used info) + unat (tx_gas_limit t) < 2 ^ 256"

abbreviation tx_run_post where
  "tx_run_post E T t ex \<equiv> \<lambda>(res, out) ex'. ex_good E T ex' \<and> gas_back res \<le> unat (tx_gas_limit t) \<and>
     ex_clears ex' \<le> ex_clears ex + unat (tx_gas_limit t)"

lemma run_create_wp:
  assumes ex: "ex_good E T ex" and gas: "base_gas_required \<le> tx_gas_limit t" "unat (tx_gas_limit t) < 2 ^ 64"
    and data: "length (tx_data t) < 2 ^ 64" and c: "ex_clears ex + unat (tx_gas_limit t) < 2 ^ 128"
    and k: "create_ok E T k"
  shows "wp (run_create E k t nonce) (tx_run_post E T t ex) (\<lambda>_ _. False) ex"
proof -
  let ?a = "contract_address (env_libs E) (tx_sender t) nonce" and ?g = "tx_gas_limit t - base_gas_required"
  let ?p = "\<lparr>ap_code_address = ?a, ap_code_hash = crypt_hash (env_libs E) (tx_data t), ap_address = ?a,
          ap_sender = tx_sender t, ap_origin = tx_sender t, ap_gas = ?g, ap_gas_price = tx_gas_price t,
          ap_value = Transfer (tx_value t), ap_code = Some (tx_data t), ap_data = None,
          ap_call_type = CT_None\<rparr>"
  have g: "minus_chk (tx_gas_limit t) base_gas_required = (Ok ?g :: (ExecutionError, u256) res)" "unat ?g \<le> unat (tx_gas_limit t)"
    using minus_chk_ok [of base_gas_required "tx_gas_limit t"] gas by (simp_all add: word_le_nat_alt)
  have "wp (k ?p) (\<lambda>gl ex'. ex_good E T ex' \<and> unat gl \<le> unat ?g \<and> ex_clears ex' + unat gl \<le> ex_clears ex + unat ?g)
      (\<lambda>_ ex'. ex_good E T ex' \<and> ex_clears ex' \<le> ex_clears ex + unat ?g) ex"
    using k [unfolded create_ok_def, rule_format, of ex ?p] ex g(2) gas data c
    by (simp add: params_ok_def bytes_or_empty_def)
  then show ?thesis
    unfolding run_create_def Let_def wp_bind wp_lift g(1) res.case wp_evm_value wp_ret
    by (rule wp_mono) (use g(2) in auto)
qed

lemma run_call_wp:
  assumes ex: "ex_good E T ex" and gas: "base_gas_required \<le> tx_gas_limit t" "unat (tx_gas_limit t) < 2 ^ 64"
    and data: "length (tx_data t) < 2 ^ 64" and c: "ex_clears ex + unat (tx_gas_limit t) < 2 ^ 128"
    and k: "call_ok E T k"
  shows "wp (run_call E k t a) (tx_run_post E T t ex)
    (\<lambda>_ ex'. ex_good E T ex' \<and> ex_clears ex' \<le> ex_clears ex + unat (tx_gas_limit t)) ex"
proof -
  let ?g = "tx_gas_limit t - base_gas_required" and ?L = "env_libs E"
  have g: "minus_chk (tx_gas_limit t) base_gas_required = (Ok ?g :: (ExecutionError, u256) res)" "unat ?g \<le> unat (tx_gas_limit t)"
    using minus_chk_ok [of base_gas_required "tx_gas_limit t"] gas by (simp_all add: word_le_nat_alt)
  have sg: "state_good ?L (ex_state ex)" using ex by (simp add: ex_good_def)
  show ?thesis
    unfolding run_call_def Let_def wp_bind wp_lift g(1) res.case wp_tx_state
  proof (rule wp_mono [OF State_code_wp [OF sg]], goal_cases)
    case (1 code s1)
    then have s1: "settled ?L (peak (ex_state ex)) (ex_state ex) s1" and code: "length (bytes_or_empty code) < 2 ^ 64"
      by (auto simp: bytes_or_empty_def split: option.splits)
    note e1 = ex_stays_peak [OF ex s1]
    have sg1: "state_good ?L (ex_state (ex\<lparr>ex_state := s1\<rparr>))" using e1(1) by (simp add: ex_good_def)
    show ?case
    proof (rule wp_mono [OF State_read_wp(4) [OF sg1]], goal_cases)
      case (1 h s2)
      then have s2: "settled ?L (peak (ex_state (ex\<lparr>ex_state := s1\<rparr>))) (ex_state (ex\<lparr>ex_state := s1\<rparr>)) s2" by simp
      let ?ex = "ex\<lparr>ex_state := s1, ex_state := s2\<rparr>"
      note e2 = ex_stays_peak [OF e1(1) s2]
      have e: "ex_good E T ?ex" "ex_clears ?ex \<le> ex_clears ex" using e2 e1(2) by simp_all
      let ?p = "\<lparr>ap_code_address = a, ap_code_hash = h, ap_address = a,
          ap_sender = tx_sender t, ap_origin = tx_sender t, ap_gas = ?g, ap_gas_price = tx_gas_price t,
          ap_value = Transfer (tx_value t), ap_code = code, ap_data = Some (tx_data t),
          ap_call_type = CT_Call\<rparr>"
      have "wp (k ?p)
         (\<lambda>gl (out', ex'). ex_good E T ex' \<and> same_ref (Flexible []) out' \<and> unat gl \<le> unat ?g \<and>
            ex_clears ex' + unat gl \<le> ex_clears ?ex + unat ?g)
         (\<lambda>_ (out', ex'). ex_good E T ex' \<and> same_ref (Flexible []) out' \<and> ex_clears ex' \<le> ex_clears ?ex + unat ?g)
         (Flexible [], ?ex)"
        using k [unfolded call_ok_def, rule_format, of ?ex ?p "Flexible []"] e g(2) gas data c code
        by (simp add: params_ok_def bytes_or_empty_def)
      then show ?case using e(2) g(2)
        by (auto simp: wp_def evm_value_def split: prod.splits res.splits)
    next
      case (2 e s2)
      then have "settled ?L (peak (ex_state (ex\<lparr>ex_state := s1\<rparr>))) (ex_state (ex\<lparr>ex_state := s1\<rparr>)) s2" by simp
      from ex_stays_peak [OF e1(1) this] show ?case using e1(2) by simp
    qed
  next
    case (2 e s1)
    then show ?case using ex_stays_peak [OF ex, of s1] by simp
  qed
qed

lemma checks_total:
  "check_permission st options t = Ok () \<or> (\<exists>e. check_permission st options t = Err e)"
  "check_base_gas t = Ok () \<or> (\<exists>e. check_base_gas t = Err e)"
  by (simp_all add: check_permission_def check_base_gas_def split: Action.splits)

lemma check_base_gas_enough:
  assumes "check_base_gas t = Ok ()" "tx_ok info t" "tx_action t \<noteq> Action_Store"
  shows "base_gas_required \<le> tx_gas_limit t"
  using assms by (auto simp: check_base_gas_def tx_ok_def not_less split: if_splits)

lemma check_quota_total:
  "tx_ok info t \<Longrightarrow> check_quota info options t = Ok () \<or> (\<exists>e. check_quota info options t = Err e)"
  using plus_chk_ok [of "ei_gas_used info" "tx_gas_limit t"] by (auto simp: check_quota_def tx_ok_def)

text \<open>The run of a transaction that has passed the checks, and its end.\<close>

definition tx_post :: "('d, 'm, 'l) Env \<Rightarrow> 't Tracer \<Rightarrow> SignedTransaction \<Rightarrow> nat \<Rightarrow> Executed \<Rightarrow> ('d, 'l, 't, 'v) Ex \<Rightarrow> bool" where
  "tx_post E T t N x ex \<longleftrightarrow> ex_good E T ex \<and> peak (ex_state ex) \<le> N \<and> xd_gas x = tx_gas_limit t \<and>
     unat (xd_gas_used x) \<le> unat (tx_gas_limit t) \<and>
     unat (xd_cumulative_gas_used x) = unat (ei_gas_used (env_info E)) + unat (xd_gas_used x)"

definition tx_err :: "('d, 'm, 'l) Env \<Rightarrow> 't Tracer \<Rightarrow> nat \<Rightarrow> ('d, 'l, 't, 'v) Ex \<Rightarrow> bool" where
  "tx_err E T N ex \<longleftrightarrow> ex_good E T ex \<and> peak (ex_state ex) \<le> N"

lemma run_action_wp:
  fixes E :: "('d, 'm, 'l) Env" and T :: "'t Tracer"
  assumes n: "1025 \<le> n" and ex: "ex_good E T ex" and tx: "tx_ok (env_info E) t"
    and base: "tx_action t \<noteq> Action_Store \<Longrightarrow> base_gas_required \<le> tx_gas_limit t"
    and c: "ex_clears ex + unat (tx_gas_limit t) < 2 ^ 128"
  shows "wp (case tx_action t of
                Action_Store \<Rightarrow> sm_ret (Inr (tx_gas_limit t), [])
              | Action_Create \<Rightarrow> run_create E (snd (executive n E T noop_vm_tracer 0)) t nonce
              | Action_Call address \<Rightarrow> run_call E (fst (executive n E T noop_vm_tracer 0)) t address)
     (tx_run_post E T t ex) (\<lambda>_ ex'. ex_good E T ex' \<and> ex_clears ex' \<le> ex_clears ex + unat (tx_gas_limit t)) ex"
proof -
  have k: "call_ok E T (fst (executive n E T noop_vm_tracer 0))" "create_ok E T (snd (executive n E T noop_vm_tracer 0))"
    using executive_ok [of 0 n E T] n by simp_all
  have t: "unat (tx_gas_limit t) < 2 ^ 64" "length (tx_data t) < 2 ^ 64" using tx by (simp_all add: tx_ok_def)
  show ?thesis
  proof (cases "tx_action t")
    case Action_Store
    then show ?thesis using ex by (simp add: wp_ret)
  next
    case Action_Create
    have "wp (run_create E (snd (executive n E T noop_vm_tracer 0)) t nonce) (tx_run_post E T t ex)
        (\<lambda>_ ex'. ex_good E T ex' \<and> ex_clears ex' \<le> ex_clears ex + unat (tx_gas_limit t)) ex"
      by (rule wp_mono [OF run_create_wp [OF ex base t c k(2)]]) (use Action_Create in auto)
    then show ?thesis using Action_Create by simp
  next
    case (Action_Call a)
    then show ?thesis using run_call_wp [OF ex base t c k(1)] by simp
  qed
qed

lemma run_and_finalize_wp:
  fixes E :: "('d, 'm, 'l) Env" and T :: "'t Tracer"
  assumes n: "1025 \<le> n" and ex: "ex_good E T ex" and tx: "tx_ok (env_info E) t"
    and base: "tx_action t \<noteq> Action_Store \<Longrightarrow> base_gas_required \<le> tx_gas_limit t"
    and c: "ex_clears ex + unat (tx_gas_limit t) < 2 ^ 128"
  shows "wp (sm_bind (on_ex (case tx_action t of
                Action_Store \<Rightarrow> sm_ret (Inr (tx_gas_limit t), [])
              | Action_Create \<Rightarrow> run_create E (snd (executive n E T noop_vm_tracer 0)) t nonce
              | Action_Call address \<Rightarrow> run_call E (fst (executive n E T noop_vm_tracer 0)) t address)) (\<lambda>(gas_left, output).
     sm_bind (sm_get snd) (\<lambda>ex.
     on_ex (Executive_finalize E t (ex_substate ex) gas_left output (tr_traces T (ex_tracer ex))
       (vm_drain noop_vm_tracer (ex_vm_tracer ex))))))
    (\<lambda>x (t', ex'). tx_post E T t (ex_clears ex + unat (tx_gas_limit t)) x ex')
    (\<lambda>_ (t', ex'). tx_err E T (ex_clears ex + unat (tx_gas_limit t)) ex') (t1, ex)"
  unfolding wp_bind [of "on_ex _"] wp_on_ex
proof (rule wp_mono [OF run_action_wp [OF assms]], goal_cases)
  case (2 a ex')
  obtain res out where a: "a = (res, out)" by fastforce
  have r: "ex_good E T ex'" "gas_back res \<le> unat (tx_gas_limit t)" "ex_clears ex' \<le> ex_clears ex + unat (tx_gas_limit t)"
    using 2 a by simp_all
  have s: "unat (sub_sstore_clears_count (ex_substate ex')) < 2 ^ 130"
    "peak (ex_state ex') \<le> ex_clears ex + unat (tx_gas_limit t)" using r(3) c by (simp_all add: ex_clears_def)
  have p: "unat (tx_gas_limit t) * unat (tx_gas_price t) < 2 ^ 256"
    "unat (ei_gas_used (env_info E)) + unat (tx_gas_limit t) < 2 ^ 256" using tx by (simp_all add: tx_ok_def)
  show ?case unfolding a prod.case wp_bind wp_get wp_on_ex snd_conv
    by (rule wp_mono [OF Executive_finalize_wp [OF r(1,2) s(1) p]]) (use s(2) in \<open>auto simp: tx_post_def tx_err_def\<close>)
next
  case (3 e ex')
  then show ?case by (auto simp: tx_err_def ex_clears_def)
qed simp_all

lemma checked_transact_wp:
  fixes E :: "('d, 'm, 'l) Env" and T :: "'t Tracer"
  assumes n: "1025 \<le> n" and ex: "ex_good E T ex" and tx: "tx_ok (env_info E) t"
    and c: "ex_clears ex + unat (tx_gas_limit t) < 2 ^ 128"
  shows "wp (sm_bind (sm_get (ex_state \<circ> snd)) (\<lambda>state.
     sm_bind (sm_lift (check_permission state options t)) (\<lambda>_.
     sm_bind (sm_lift (check_base_gas t)) (\<lambda>_.
     sm_bind (sm_modify (\<lambda>(t, ex). (t\<lparr>tx_account_nonce := nonce\<rparr>, ex))) (\<lambda>_.
     sm_bind (sm_lift (check_quota (env_info E) options t)) (\<lambda>_.
     sm_bind (on_ex (case tx_action t of
                Action_Store \<Rightarrow> sm_ret (Inr (tx_gas_limit t), [])
              | Action_Create \<Rightarrow> run_create E (snd (executive n E T noop_vm_tracer 0)) t nonce
              | Action_Call address \<Rightarrow> run_call E (fst (executive n E T noop_vm_tracer 0)) t address)) (\<lambda>(gas_left, output).
     sm_bind (sm_get snd) (\<lambda>ex.
     on_ex (Executive_finalize E t (ex_substate ex) gas_left output (tr_traces T (ex_tracer ex))
       (vm_drain noop_vm_tracer (ex_vm_tracer ex)))))))))))
    (\<lambda>x (t', ex'). tx_post E T t (ex_clears ex + unat (tx_gas_limit t)) x ex')
    (\<lambda>_ (t', ex'). tx_err E T (ex_clears ex + unat (tx_gas_limit t)) ex') (t1, ex)"
proof -
  note run = run_and_finalize_wp [OF n ex tx check_base_gas_enough [OF _ tx] c, of nonce "t1\<lparr>tx_account_nonce := nonce\<rparr>"]
  have e: "tx_err E T (ex_clears ex + unat (tx_gas_limit t)) ex" using ex by (simp add: tx_err_def ex_clears_def)
  show ?thesis
    unfolding wp_bind [of "sm_get (ex_state \<circ> snd)"] wp_bind [of "sm_lift _"] wp_bind [of "sm_modify _"]
      wp_get wp_modify
    using run e checks_total(1) [of "ex_state ex" options t] checks_total(2) [of t] check_quota_total [OF tx, of options]
    by (elim disjE exE) (simp_all add: wp_lift)
qed

lemma transact_with_tracer_wp:
  fixes E :: "('d, 'm, 'l) Env" and T :: "'t Tracer"
  assumes n: "1025 \<le> n" and ex: "ex_good E T ex" and tx: "tx_ok (env_info E) t"
    and c: "Suc (ex_clears ex + unat (tx_gas_limit t)) < 2 ^ 128"
  shows "wp (transact_with_tracer n E T noop_vm_tracer options)
    (\<lambda>x (t', ex'). tx_post E T t (Suc (ex_clears ex + unat (tx_gas_limit t))) x ex')
    (\<lambda>_ (t', ex'). tx_err E T (Suc (ex_clears ex + unat (tx_gas_limit t))) ex') (t, ex)"
proof -
  let ?L = "env_libs E" and ?N = "Suc (ex_clears ex + unat (tx_gas_limit t))"
  have sg: "state_good ?L (ex_state ex)" using ex by (simp add: ex_good_def)
  show ?thesis
    unfolding transact_with_tracer_def wp_bind [of "sm_get fst"] wp_get fst_conv
      wp_bind [of "on_ex (tx_state (State_nonce _ _))"] wp_on_ex wp_tx_state
  proof (rule wp_mono [OF State_read_wp(1) [OF sg]], goal_cases)
    case (1 nonce s1)
    note e1 = ex_stays_peak [OF ex 1]
    let ?ex1 = "ex\<lparr>ex_state := s1\<rparr>"
    have s1: "state_good ?L (ex_state ?ex1)" "peak (ex_state ?ex1) < 2 ^ 256 - 1"
      using e1 c by (simp_all add: ex_good_def ex_clears_def)
    show ?case
      unfolding wp_bind [of "on_ex (tx_state (State_inc_nonce _ _))"] wp_on_ex wp_tx_state
    proof (rule wp_mono [OF State_inc_nonce_wp [OF s1]], goal_cases)
      case (1 u s2)
      note e2 = ex_stays [OF e1(1) 1]
      have ex2: "ex_good E T (?ex1\<lparr>ex_state := s2\<rparr>)" "ex_clears (?ex1\<lparr>ex_state := s2\<rparr>) \<le> Suc (ex_clears ex)"
        using e2 e1(2) by (auto simp: ex_clears_def)
      show ?case
        by (rule wp_mono [OF checked_transact_wp [OF n ex2(1) tx]])
          (use ex2(2) c in \<open>auto simp: tx_post_def tx_err_def\<close>)
    next
      case (2 e s2)
      note e2 = ex_stays [OF e1(1) 2]
      then show ?case using e1(2) by (auto simp: tx_err_def ex_clears_def)
    qed
  next
    case (2 e s1)
    then show ?case using ex_stays_peak [OF ex, of s1] by (auto simp: tx_err_def ex_clears_def)
  qed
qed

text \<open>The whole of \<open>transact\<close>, with and without traces of calls, as \<open>State::apply\<close> uses it.\<close>

lemma transact_wp:
  assumes n: "1025 \<le> n" and env: "env_ok E" and st: "state_good (env_libs E) st" and tx: "tx_ok (env_info E) t"
    and c: "Suc (peak st + unat (tx_gas_limit t)) < 2 ^ 128" and vm: "\<not> to_vm_tracing options"
  shows "wp (transact n E options)
    (\<lambda>x (t', s'). state_good (env_libs E) s' \<and> peak s' \<le> Suc (peak st + unat (tx_gas_limit t)) \<and>
       xd_gas x = tx_gas_limit t \<and> unat (xd_gas_used x) \<le> unat (tx_gas_limit t) \<and>
       unat (xd_cumulative_gas_used x) = unat (ei_gas_used (env_info E)) + unat (xd_gas_used x))
    (\<lambda>_ (t', s'). state_good (env_libs E) s' \<and> peak s' \<le> Suc (peak st + unat (tx_gas_limit t))) (t, st)"
proof -
  have run: "wp (\<lambda>(t, st). stop (transact_with_tracer n E T noop_vm_tracer options (start tracer () t st)))
    (\<lambda>x (t', s'). state_good (env_libs E) s' \<and> peak s' \<le> Suc (peak st + unat (tx_gas_limit t)) \<and>
       xd_gas x = tx_gas_limit t \<and> unat (xd_gas_used x) \<le> unat (tx_gas_limit t) \<and>
       unat (xd_cumulative_gas_used x) = unat (ei_gas_used (env_info E)) + unat (xd_gas_used x))
    (\<lambda>_ (t', s'). state_good (env_libs E) s' \<and> peak s' \<le> Suc (peak st + unat (tx_gas_limit t))) (t, st)"
    if T: "tracer_contract T" for T and tracer :: 'z
  proof -
    let ?ex = "\<lparr>ex_state = st, ex_substate = Substate_new, ex_tracer = tracer, ex_vm_tracer = ()\<rparr>"
    have "ex_good E T ?ex" "ex_clears ?ex = peak st"
      using env st T by (simp_all add: ex_good_def ex_clears_def Substate_new_def)
    then have "wp (transact_with_tracer n E T noop_vm_tracer options)
      (\<lambda>x (t', ex'). tx_post E T t (Suc (peak st + unat (tx_gas_limit t))) x ex')
      (\<lambda>_ (t', ex'). tx_err E T (Suc (peak st + unat (tx_gas_limit t))) ex') (t, ?ex)"
      using transact_with_tracer_wp [OF n _ tx, of T ?ex options] c by simp
    then show ?thesis
      by (auto simp: wp_def stop_def start_def tx_post_def tx_err_def ex_good_def split: prod.splits res.splits)
  qed
  show ?thesis
    using run [OF executive.tracer_contract_axioms, of ExecutiveTracer_default] run [OF noop.tracer_contract_axioms, of "()"] vm
    by (cases "to_tracing options") (simp_all add: transact_def wp_def)
qed

lemma State_apply_wp:
  assumes n: "1025 \<le> n" and env: "env_ok (E\<lparr>env_builtins := []\<rparr>)" and st: "state_good (env_libs E) st"
    and tx: "tx_ok (env_info E) t" and c: "Suc (peak st + unat (tx_gas_limit t)) < 2 ^ 128"
  shows "wp (State_apply n E tracing permission quota)
    (\<lambda>x (t', s'). state_good (env_libs E) s' \<and> peak s' \<le> Suc (peak st + unat (tx_gas_limit t)) \<and>
       unat (ei_gas_used (env_info E)) \<le> unat (rc_gas_used (ao_receipt x)) \<and>
       unat (rc_gas_used (ao_receipt x)) \<le> unat (ei_gas_used (env_info E)) + unat (tx_gas_limit t))
    (\<lambda>_ (t', s'). state_good (env_libs E) s' \<and> peak s' \<le> Suc (peak st + unat (tx_gas_limit t))) (t, st)"
  unfolding State_apply_def wp_bind [of "transact _ _ _"]
  by (rule wp_mono [OF transact_wp [OF n env]]) (use st tx c in \<open>auto simp: wp_bind wp_get wp_ret\<close>)

end
