(* ===== verification/Sample_Node.thy ===== *)
theory Sample_Node
  imports State_Operations Transaction_Safety
begin

text \<open>
  A concrete node: an association list as database and as LRU cache, an empty trie and a small hash
  function in the place of the code of other crates. It shows that what the theorems ask of that code
  can be had, and it is where their instances are evaluated.
\<close>

type_synonym sample_store = "(h256 \<times> bytes) list"

type_synonym sample_cache = "(h256 \<times> h256) list"

definition sample_hash :: "bytes \<Rightarrow> h256" where
  "sample_hash b = of_nat (length b)"

definition sample_db :: "sample_store HashDB" where
  "sample_db = \<lparr>
     hd_get = map_of,
     hd_contains = (\<lambda>d k. map_of d k \<noteq> None),
     hd_insert = (\<lambda>v d. (Ok (sample_hash v), AList.update (sample_hash v) v d)),
     hd_emplace = (\<lambda>k v d. (Ok (), AList.update k v d)),
     hd_remove = (\<lambda>k d. (Ok (), AList.delete k d))\<rparr>"

definition sample_trie :: "(sample_store, unit) TrieFactory" where
  "sample_trie = \<lparr>
     tf_readonly = (\<lambda>_ _ _. Ok ()),
     tf_get = (\<lambda>_ _ _ _. Ok None),
     tf_from_existing = (\<lambda>_ _ _. Ok ()),
     tf_insert = (\<lambda>_ _. sm_ret ()),
     tf_remove = (\<lambda>_. sm_ret ()),
     tf_drop = (\<lambda>_. ([], 0))\<rparr>"

definition sample_lru :: "sample_cache StorageLru" where
  "sample_lru = \<lparr>
     lru_new = (\<lambda>_. []),
     lru_get = (\<lambda>k l. (map_of l k, l)),
     lru_put = AList.update,
     lru_items = AList.clearjunk\<rparr>"

definition sample_rlp :: rlp_codec where
  "sample_rlp = \<lparr>
     rlp_u256 = u256_to_be, rlp_h256 = u256_to_be, rlp_address = address_bytes, rlp_list = concat,
     rlp_decode_u256 = (\<lambda>b. Ok (u256_from_be b)),
     rlp_val_at_u256 = (\<lambda>b i. Ok (u256_from_be (take 32 (drop (32 * i) b)))),
     rlp_val_at_h256 = (\<lambda>b i. Ok (u256_from_be (take 32 (drop (32 * i) b))))\<rparr>"

definition sample_libs :: "(sample_store, unit, sample_cache) Libs" where
  "sample_libs = \<lparr>
     crypt_hash = sample_hash, HASH_EMPTY = 0, HASH_NULL_RLP = 1, NULL_RLP = [0x80],
     lib_db = sample_db, lib_trie = sample_trie, lib_lru = sample_lru, lib_rlp = sample_rlp,
     with_bloomed = (\<lambda>b h. b OR push_bit (unat h mod 2048) 1)\<rparr>"

definition sample_state :: "(sample_store, sample_cache) State" where
  "sample_state = \<lparr>st_db = [], st_root = 0, st_cache = [], st_checkpoints = [],
     st_account_start_nonce = 0, st_accountdb = Mangled, st_senders = {}, st_creators = {}\<rparr>"

definition sample_env :: "(sample_store, unit, sample_cache) Env" where
  "sample_env = \<lparr>env_libs = sample_libs, env_info = EnvInfo_default, env_builtins = [], env_native = [],
     env_sha3 = sample_hash, env_jumps = (\<lambda>_ _. Ok {}), env_depth_threshold = 1\<rparr>"

definition sample_tx :: SignedTransaction where
  "sample_tx = \<lparr>tx_nonce = [], tx_gas_price = 1, tx_gas_limit = 100000, tx_action = Action_Create, tx_value = 0,
     tx_data = [0x60, 0x01], tx_block_limit = 0, tx_signature = [], tx_crypto_type = SECP, tx_hash = 0,
     tx_sender = 7, tx_public = 0, tx_account_nonce = 0\<rparr>"

text \<open>Evaluation of the operations of the state on the sample node.\<close>

lemmas sample_run = State_set_storage_def State_storage_at_def require_account_def require_or_from_def
  State_inc_nonce_def Account_inc_nonce_def State_exists_def ensure_cached_def load_account_def trie_account_def
  insert_cache_def note_cache_def note_in_checkpoint_def Entry_new_clean_def Entry_is_dirty_def Entry_clone_dirty_def
  Account_set_storage_def Account_new_basic_def Account_cached_storage_at_def Account_storage_at_def
  Account_address_hash_def refresh_account_def update_account_cache_def
  revert_to_checkpoint_def revert_entry_def Entry_overwrite_with_def checkpoint_def kill_account_def Entry_new_dirty_def
  load_def base_of_def sample_state_def sample_libs_def sample_trie_def sample_lru_def sm_bind_def sm_ret_def Let_def empty_storage_cache_def plus_chk_def

lemma sample_lru_ok [simp]: "lru_ok sample_libs"
  by (auto simp: lru_ok_def lru_has_def sample_libs_def sample_lru_def update_conv' map_of_clearjunk
      dest: map_of_is_SomeI [OF distinct_clearjunk] split: if_splits)

lemma sample_hash_empty [simp]: "crypt_hash sample_libs [] = HASH_EMPTY sample_libs"
  by (simp add: sample_libs_def sample_hash_def)

lemma sample_state_ok [simp]: "state_ok sample_libs sample_state"
  by (simp add: state_ok_def sample_state_def notes_of_def)

lemma sample_root_ok [simp]: "root_ok sample_libs sample_state"
  by (simp add: root_ok_def sample_libs_def sample_trie_def)

lemma sample_db_local [simp]: "hashdb_local sample_db"
  by (simp add: hashdb_local_def sample_db_def update_conv' delete_conv')

lemma sample_state_good [simp]: "state_good sample_libs sample_state"
  by (simp add: state_good_def db_ok_def sample_libs_def sample_trie_def load_def trie_storage_def base_of_def
      sample_state_def accts_def cached_def noted_def sample_db_def AccountDB_from_hash_def NULL_RLP_STATIC_def)

lemma sample_peak [simp]: "peak sample_state = 2 ^ 64"
  by (simp add: peak_def accts_def cached_def noted_def sample_state_def)

lemma sample_env_ok [simp]: "env_ok sample_env"
  by (simp add: env_ok_def sample_env_def EnvInfo_default_def)

text \<open>The sample state after a first transaction of account 7.\<close>

definition sample_state1 :: "(sample_store, sample_cache) State" where
  "sample_state1 = snd (State_inc_nonce sample_libs 7 sample_state)"

lemma sample_state1_ready [simp]: "state_ok sample_libs sample_state1" "root_ok sample_libs sample_state1"
proof -
  have "State_inc_nonce sample_libs 7 sample_state = (Ok (), sample_state1)"
    by (simp add: sample_state1_def prod_eq_iff, simp add: sample_run)
  from State_inc_nonce_spec [OF sample_lru_ok sample_state_ok this]
  show "state_ok sample_libs sample_state1" "root_ok sample_libs sample_state1"
    using written_ready [OF _ sample_root_ok] by auto
qed

text \<open>The sample frame: the state of the sample node with nothing recorded.\<close>

definition sample_ex :: "(sample_store, sample_cache, unit, unit) Ex" where
  "sample_ex = \<lparr>ex_state = sample_state, ex_substate = Substate_new, ex_tracer = (), ex_vm_tracer = ()\<rparr>"

lemma sample_ex_good: "ex_good sample_env noop_tracer sample_ex" "ex_clears sample_ex = 2 ^ 64"
  using noop.tracer_contract_axioms
  by (simp_all add: ex_good_def ex_clears_def sample_ex_def Substate_new_def, simp add: sample_env_def)

end
