(* ===== verification/State_Properties.thy ===== *)
theory State_Properties
  imports Sample_Node
begin

text \<open>
  The properties of the account databases and of the account state, each with its instance on the
  sample node.
\<close>

section \<open>Key spaces of accounts\<close>

text \<open>C22: The accounts are apart in the one database under their mangled databases. The place of a key is the
  key with its low 20 bytes masked by those of the account's address hash. So after any sequence of insertions
  and removals by any accounts, an account reads under a key what it read before, unless one of them
  was of a key that shares its place: one that differs from the key by the difference of the low parts of
  the two address hashes, which is never the same key in an account with another low part.\<close>

theorem accounts_isolated:
  assumes "hashdb_local H"
    and "\<forall>(ah', w)\<in>set ws. \<forall>k'. db_write_key C w = Some k' \<longrightarrow> k' XOR k \<noteq> (ah' XOR ah) AND (2 ^ 160 - 1)"
  shows "combine_key ah k = k XOR (ah AND (2 ^ 160 - 1)) \<and>
    hd_get (accountdb_readonly C Mangled H ah) (account_writes C Mangled H ws d) k =
    hd_get (accountdb_readonly C Mangled H ah) d k"
proof
  have m: "x AND (2 ^ 160 - 1) = take_bit 160 x" for x :: u256 by (simp add: take_bit_eq_mask mask_eq_exp_minus_1)
  show "combine_key ah k = k XOR (ah AND (2 ^ 160 - 1))" unfolding m by (rule combine_key_word)
  have "\<forall>(ah', w)\<in>set ws. map_option (combine_key ah') (db_write_key C w) \<noteq> Some (combine_key ah k)"
    using assms(2) unfolding m by (auto simp: combine_key_shared)
  from account_writes_get [OF assms(1) this]
  show "hd_get (accountdb_readonly C Mangled H ah) (account_writes C Mangled H ws d) k =
    hd_get (accountdb_readonly C Mangled H ah) d k" by (simp add: AccountDB_from_hash_def)
qed

theorem accounts_isolated_witness:
  "let d = account_writes sample_libs Mangled sample_db [(5, Db_emplace 9 [1, 2])] [];
      d' = account_writes sample_libs Mangled sample_db [(6, Db_emplace 9 [3]), (6, Db_remove 9), (5, Db_insert [4])] d in
    hd_get (accountdb_readonly sample_libs Mangled sample_db 5) d' 9 = Some [1, 2] \<and>
    hd_get (accountdb_readonly sample_libs Mangled sample_db 5) d' 9 =
      hd_get (accountdb_readonly sample_libs Mangled sample_db 5) d 9"
proof -
  let ?d = "account_writes sample_libs Mangled sample_db [(5, Db_emplace 9 [1, 2])] []"
  have "hd_get (accountdb_readonly sample_libs Mangled sample_db 5) ?d 9 = Some [1, 2]"
    by (simp add: account_writes_def AccountDBMut_from_hash_def AccountDB_from_hash_def sample_libs_def sample_db_def)
  then show ?thesis unfolding Let_def
    using accounts_isolated [OF sample_db_local, of "[(6, Db_emplace 9 [3]), (6, Db_remove 9), (5, Db_insert [4])]" sample_libs 9 5 ?d]
    by (simp add: sample_libs_def sample_hash_def)
qed

section \<open>The state as a stack of views\<close>

text \<open>C8: The checkpoints refine a stack: a checkpoint repeats the view of every address, a revert drops
  it, and a discard drops the one below it. All three keep the state well formed.\<close>

theorem checkpoints_refine_stack:
  assumes "lru_ok L" "state_ok L s" "st_checkpoints s \<noteq> []"
  shows "state_ok L (checkpoint s) \<and> vstack L (checkpoint s) a = hd (vstack L s a) # vstack L s a \<and>
    state_ok L (revert_to_checkpoint L s) \<and> vstack L (revert_to_checkpoint L s) a = tl (vstack L s a) \<and>
    state_ok L (discard_checkpoint s) \<and>
    vstack L (discard_checkpoint s) a = hd (vstack L s a) # tl (tl (vstack L s a))"
  using checkpoint_stack [OF assms(2)] revert_stack [OF assms(2,3)] discard_stack [OF assms] by blast

theorem checkpoints_refine_stack_witness:
  "let s = checkpoint sample_state in
    state_ok sample_libs (checkpoint s) \<and>
    vstack sample_libs (checkpoint s) 7 = hd (vstack sample_libs s 7) # vstack sample_libs s 7 \<and>
    state_ok sample_libs (revert_to_checkpoint sample_libs s) \<and>
    vstack sample_libs (revert_to_checkpoint sample_libs s) 7 = tl (vstack sample_libs s 7) \<and>
    state_ok sample_libs (discard_checkpoint s) \<and>
    vstack sample_libs (discard_checkpoint s) 7 = hd (vstack sample_libs s 7) # tl (tl (vstack sample_libs s 7))"
  unfolding Let_def
  by (rule checkpoints_refine_stack) (simp_all add: checkpoint_stack)

text \<open>C6: A revert brings back the view of every address, and of every checkpoint below, after any
  sequence of the operations of \<^const>\<open>state_op\<close>, with nested calls that were kept or undone in between.
  The operations leave out \<open>kill_account\<close> and a new contract over a cached account.\<close>

theorem revert_restores_state:
  assumes "lru_ok L" "crypt_hash L [] = HASH_EMPTY L" "state_ok L s" "root_ok L s"
    and "balanced L (checkpoint s) s'"
  shows "vstack L (revert_to_checkpoint L s') a = vstack L s a"
  by (rule revert_restores [OF assms])

theorem revert_restores_state_witness:
  "let s' = snd (State_set_storage sample_libs 7 1 2 (checkpoint sample_state)) in
    fst (State_exists sample_libs 7 s') = Ok True \<and>
    fst (State_exists sample_libs 7 (revert_to_checkpoint sample_libs s')) = Ok False \<and>
    vstack sample_libs (revert_to_checkpoint sample_libs s') 7 = vstack sample_libs sample_state 7"
proof -
  let ?s' = "snd (State_set_storage sample_libs 7 1 2 (checkpoint sample_state))"
  have run: "State_set_storage sample_libs 7 1 2 (checkpoint sample_state) = (Ok (), ?s')"
    by (simp add: prod_eq_iff, simp add: sample_run)
  have "balanced sample_libs (checkpoint sample_state) ?s'"
    by (rule balanced.op [OF balanced.none]) (rule state_op.op_set_storage [OF run], simp)
  from revert_restores_state [OF sample_lru_ok sample_hash_empty sample_state_ok sample_root_ok this, of 7]
  have r: "vstack sample_libs (revert_to_checkpoint sample_libs ?s') 7 = vstack sample_libs sample_state 7" .
  have "fst (State_exists sample_libs 7 ?s') = Ok True" by (simp add: sample_run)
  moreover have "fst (State_exists sample_libs 7 (revert_to_checkpoint sample_libs ?s')) = Ok False" by (simp add: sample_run)
  ultimately show ?thesis using r by (simp add: Let_def)
qed

section \<open>Reads and writes\<close>

text \<open>C12: The operations that read return what the view of the address says, and change no view.\<close>

theorem state_reads_exact:
  assumes "lru_ok L" "state_ok L s" "root_ok L s" "returns (fst (State_storage_at L a k s))"
  shows "fst (State_nonce L a s) = res_map (\<lambda>v. case v of None \<Rightarrow> st_account_start_nonce s | Some w \<Rightarrow> vw_nonce w) (current L s a) \<and>
    fst (State_exists L a s) = res_map (\<lambda>v. v \<noteq> None) (current L s a) \<and>
    fst (State_code L a s) = res_map (\<lambda>v. case v of None \<Rightarrow> None | Some w \<Rightarrow> vw_code w) (current L s a) \<and>
    fst (State_code_hash L a s) = res_map (\<lambda>v. case v of None \<Rightarrow> HASH_EMPTY L | Some w \<Rightarrow> vw_code_hash w) (current L s a) \<and>
    fst (State_storage_at L a k s) = res_bind (current L s a) (\<lambda>v. case v of None \<Rightarrow> Ok 0 | Some w \<Rightarrow> vw_storage w k) \<and>
    list_all (untouched L s) [snd (State_nonce L a s), snd (State_exists L a s), snd (State_code L a s),
      snd (State_code_hash L a s), snd (State_storage_at L a k s)]"
  using State_nonce_spec [OF assms(1,2) surjective_pairing] State_exists_spec [OF assms(1,2) surjective_pairing]
    State_code_spec [OF assms(1,2) surjective_pairing] State_code_hash_spec [OF assms(1,2) surjective_pairing]
    State_storage_at_spec [OF assms(1-3) surjective_pairing assms(4)]
  by simp

theorem state_reads_exact_witness:
  "fst (State_storage_at sample_libs 7 1 sample_state) = Ok 0 \<and>
   fst (State_storage_at sample_libs 7 1 sample_state) =
     res_bind (current sample_libs sample_state 7) (\<lambda>v. case v of None \<Rightarrow> Ok 0 | Some w \<Rightarrow> vw_storage w 1)"
proof -
  have r: "fst (State_storage_at sample_libs 7 1 sample_state) = Ok 0" by (simp add: sample_run)
  then have "returns (fst (State_storage_at sample_libs 7 1 sample_state))" by simp
  from state_reads_exact [OF sample_lru_ok sample_state_ok sample_root_ok this] r show ?thesis by blast
qed

text \<open>C11: A write of storage changes one key of one account and nothing else: the key reads the value
  written; the view of every other address, the views under all checkpoints and the database stay;
  and the account, a new one if there was none, keeps its nonce, its code and every other key. A write
  of the value that is there already leaves the view as it was.\<close>

theorem storage_read_write:
  assumes L: "lru_ok L" and s: "state_ok L s" "root_ok L s" and w: "State_set_storage L a k x s = (Ok (), s')"
    and r: "returns (fst (State_storage_at L a k s'))"
  shows "fst (State_storage_at L a k s') = Ok x \<and> (\<forall>b. b \<noteq> a \<longrightarrow> current L s' b = current L s b) \<and>
    (\<forall>b. tl (vstack L s' b) = tl (vstack L s b)) \<and> base_of s' = base_of s \<and>
    (\<exists>v. current L s a = Ok v \<and>
      (current L s' a = Ok v \<and> fst (State_storage_at L a k s) = Ok x \<or>
       (let old = or_new (fresh L s a) v in
        current L s' a = Ok (Some \<lparr>vw_nonce = vw_nonce old, vw_root = None, vw_code_hash = vw_code_hash old,
          vw_code = vw_code old, vw_storage = (vw_storage old)(k := Ok x)\<rparr>))))"
proof -
  obtain v where v: "current L s a = Ok v"
    and c: "untouched L s s' \<and> fst (State_storage_at L a k s) = Ok x \<or>
     written L a (Some ((or_new (fresh L s a) v)\<lparr>vw_storage := (vw_storage (or_new (fresh L s a) v))(k := Ok x),
        vw_root := None\<rparr>)) s s'"
    using set_storage_written [OF L s w] by blast
  have ready: "state_ok L s' \<and> root_ok L s'" using c untouched_ready written_ready s(2) by blast
  have read: "fst (State_storage_at L a k s') =
      res_bind (current L s' a) (\<lambda>v. case v of None \<Rightarrow> Ok 0 | Some w \<Rightarrow> vw_storage w k)"
    using State_storage_at_spec [OF L _ _ surjective_pairing r] ready by blast
  from c show ?thesis
  proof
    assume u: "untouched L s s' \<and> fst (State_storage_at L a k s) = Ok x"
    then have "returns (fst (State_storage_at L a k s))" by simp
    from State_storage_at_spec [OF L s surjective_pairing this] u v
    have "res_bind (Ok v) (\<lambda>v. case v of None \<Rightarrow> Ok 0 | Some w \<Rightarrow> vw_storage w k) = Ok x" by simp
    moreover have "current L s' = current L s" "vstack L s' = vstack L s" "base_of s' = base_of s"
      using u untouched_current by (auto simp: untouched_def)
    ultimately show ?thesis using u read v by simp
  next
    assume w: "written L a (Some ((or_new (fresh L s a) v)\<lparr>vw_storage := (vw_storage (or_new (fresh L s a) v))(k := Ok x),
        vw_root := None\<rparr>)) s s'"
    then show ?thesis using read v written_current [OF w] by (simp add: written_def Let_def) 
  qed
qed

theorem storage_read_write_witness:
  "let s' = snd (State_set_storage sample_libs 7 1 2 sample_state) in
    fst (State_exists sample_libs 7 sample_state) = Ok False \<and>
    fst (State_storage_at sample_libs 7 1 s') = Ok 2 \<and> current sample_libs s' 8 = current sample_libs sample_state 8"
proof -
  let ?s' = "snd (State_set_storage sample_libs 7 1 2 sample_state)"
  have w: "State_set_storage sample_libs 7 1 2 sample_state = (Ok (), ?s')"
    by (simp add: prod_eq_iff, simp add: sample_run)
  have r: "returns (fst (State_storage_at sample_libs 7 1 ?s'))" by (simp add: sample_run)
  have "fst (State_exists sample_libs 7 sample_state) = Ok False" by (simp add: sample_run)
  with storage_read_write [OF sample_lru_ok sample_state_ok sample_root_ok w r] show ?thesis by (simp add: Let_def)
qed

text \<open>C31: Reverting a checkpoint does not bring back an account that was killed under it.\<close>

theorem killed_account_stays_killed:
  assumes "map_of (st_cache s) a = Some x" "en_account x \<noteq> None"
  shows "current L (revert_to_checkpoint L (kill_account a (checkpoint s))) a = Ok None \<and> current L s a \<noteq> Ok None"
  using assms kill_survives_revert [OF assms(1)] by (auto simp: current_eq)

theorem killed_account_stays_killed_witness:
  "current sample_libs (revert_to_checkpoint sample_libs (kill_account 7 (checkpoint sample_state1))) 7 = Ok None \<and>
   current sample_libs sample_state1 7 \<noteq> Ok None"
proof -
  have "map_of (st_cache sample_state1) 7 \<noteq> None \<and> en_account (the (map_of (st_cache sample_state1) 7)) \<noteq> None"
    by (simp add: sample_run sample_state1_def)
  then obtain x where "map_of (st_cache sample_state1) 7 = Some x" "en_account x \<noteq> None" by force
  then show ?thesis by (rule killed_account_stays_killed)
qed

text \<open>C9: Every sequence of the operations of \<^const>\<open>state_op\<close> with its nested checkpoints keeps the state well formed and the
  database under it as it is, ends with as many checkpoints as it began with, and changes no view but
  the current one.\<close>

theorem state_invariant:
  assumes "lru_ok L" "crypt_hash L [] = HASH_EMPTY L" "state_ok L s" "root_ok L s" "balanced L s s'"
  shows "state_ok L s' \<and> root_ok L s' \<and> base_of s' = base_of s \<and>
    length (st_checkpoints s') = length (st_checkpoints s) \<and> (\<forall>a. tl (vstack L s' a) = tl (vstack L s a))"
  using balanced_below [OF assms(1,2,5,3,4)] assms(4) root_ok_base [of s' s L] by (simp add: below_def)

theorem state_invariant_witness:
  "let s' = snd (State_set_storage sample_libs 7 1 2 sample_state1) in
    state_ok sample_libs s' \<and> length (st_checkpoints s') = length (st_checkpoints sample_state1)"
proof -
  let ?s' = "snd (State_set_storage sample_libs 7 1 2 sample_state1)"
  have run: "State_set_storage sample_libs 7 1 2 sample_state1 = (Ok (), ?s')"
    by (simp add: prod_eq_iff, simp add: sample_run sample_state1_def)
  have "balanced sample_libs sample_state1 ?s'"
    by (rule balanced.op [OF balanced.none]) (rule state_op.op_set_storage [OF run], simp)
  from state_invariant [OF sample_lru_ok sample_hash_empty sample_state1_ready this] show ?thesis
    by (simp add: Let_def)
qed

end
