(* ===== verification/Executive_Properties.thy ===== *)
theory Executive_Properties
  imports Sample_Node
begin

text \<open>
  The properties of transactions, frames, externalities and traces, each with its instance on the
  sample node.
\<close>

section \<open>Transactions and frames return\<close>

text \<open>C1: Applying a transaction to a well formed state returns, with a receipt or with an error: it
  neither panics nor runs forever. The state stays well formed and the receipt charges no more than
  the gas limit.\<close>

theorem transaction_returns:
  assumes "1025 \<le> n" "env_ok (E\<lparr>env_builtins := []\<rparr>)" "state_good (env_libs E) st" "tx_ok (env_info E) t"
    "Suc (peak st + unat (tx_gas_limit t)) < 2 ^ 128"
  shows "case State_apply n E tracing permission quota (t, st) of (r, (t', st')) \<Rightarrow>
    returns r \<and> state_good (env_libs E) st' \<and>
    (\<forall>x. r = Ok x \<longrightarrow> unat (rc_gas_used (ao_receipt x)) \<le> unat (ei_gas_used (env_info E)) + unat (tx_gas_limit t))"
  using State_apply_wp [OF assms, of tracing permission quota] by (auto simp: wp_def split: prod.splits res.splits)

theorem transaction_returns_witness:
  "case State_apply 1025 sample_env True False False (sample_tx, sample_state) of (r, (t', st')) \<Rightarrow>
    returns r \<and> state_good sample_libs st' \<and>
    (\<forall>x. r = Ok x \<longrightarrow> unat (rc_gas_used (ao_receipt x)) \<le> 100000)"
proof -
  have e: "env_libs sample_env = sample_libs" "sample_env\<lparr>env_builtins := []\<rparr> = sample_env"
    "unat (ei_gas_used (env_info sample_env)) = 0" "unat (tx_gas_limit sample_tx) = 100000"
    by (simp_all add: sample_env_def EnvInfo_default_def sample_tx_def)
  have t: "tx_ok (env_info sample_env) sample_tx"
    by (simp add: tx_ok_def sample_env_def EnvInfo_default_def sample_tx_def base_gas_required_def)
  from transaction_returns [of 1025 sample_env sample_state sample_tx True False False] t e show ?thesis by simp
qed

text \<open>C3: A call and a create at any depth return with no more gas than they were given, given enough
  levels of the executive to reach the depth limit of the schedule, and keep the state well formed.\<close>

theorem frames_return:
  assumes "depth \<le> 1024" "1025 \<le> n + depth" "ex_good E T ex" "params_ok params" "ap_code params \<noteq> None"
    "unat (ap_gas params) < 2 ^ 64" "ex_clears ex + unat (ap_gas params) < 2 ^ 128"
  shows "(case fst (executive n E T noop_vm_tracer depth) params (out, ex) of (r, (out', ex')) \<Rightarrow>
      returns r \<and> (\<forall>gl. r = Ok gl \<longrightarrow> gl \<le> ap_gas params) \<and> state_good (env_libs E) (ex_state ex')) \<and>
    (case snd (executive n E T noop_vm_tracer depth) params ex of (r, ex') \<Rightarrow>
      returns r \<and> (\<forall>gl. r = Ok gl \<longrightarrow> gl \<le> ap_gas params) \<and> state_good (env_libs E) (ex_state ex'))"
proof -
  note ok = executive_ok [OF assms(1,2), of E T]
  have "wp (fst (executive n E T noop_vm_tracer depth) params)
       (\<lambda>gl (out', ex'). ex_good E T ex' \<and> same_ref out out' \<and> unat gl \<le> unat (ap_gas params) \<and>
          ex_clears ex' + unat gl \<le> ex_clears ex + unat (ap_gas params))
       (\<lambda>_ (out', ex'). ex_good E T ex' \<and> same_ref out out' \<and> ex_clears ex' \<le> ex_clears ex + unat (ap_gas params))
       (out, ex)"
    using ok assms unfolding call_ok_def by blast
  moreover have "wp (snd (executive n E T noop_vm_tracer depth) params)
       (\<lambda>gl ex'. ex_good E T ex' \<and> unat gl \<le> unat (ap_gas params) \<and>
          ex_clears ex' + unat gl \<le> ex_clears ex + unat (ap_gas params))
       (\<lambda>_ ex'. ex_good E T ex' \<and> ex_clears ex' \<le> ex_clears ex + unat (ap_gas params)) ex"
    using ok assms unfolding create_ok_def by blast
  ultimately show ?thesis
    by (cases "fst (executive n E T noop_vm_tracer depth) params (out, ex)";
        cases "snd (executive n E T noop_vm_tracer depth) params ex")
      (auto simp: wp_def ex_good_def word_le_nat_alt split: res.splits)
qed

text \<open>C10: The gas accounting at the end of a transaction is exact: the gas used, the refund and the gas
  left add up to the limit, and the refund is at most half of what was spent and at most what the
  clears and the suicides earn.\<close>

theorem refund_bounded:
  assumes "unat gl \<le> unat (tx_gas_limit t)" "distinct (sub_suicides sub)" "unat (sub_sstore_clears_count sub) < 2 ^ 130"
    "unat (tx_gas_limit t) * unat (tx_gas_price t) < 2 ^ 256"
  shows "\<exists>refunded used. finalize_gas t sub gl = Ok (refunded, used) \<and>
    unat used + unat refunded + unat gl = unat (tx_gas_limit t) \<and> 2 * unat refunded \<le> unat (tx_gas_limit t) - unat gl \<and>
    unat refunded \<le> 15000 * unat (sub_sstore_clears_count sub) + 24000 * length (sub_suicides sub)"
  using finalize_gas_ok [OF assms] by metis

theorem refund_bounded_witness:
  "finalize_gas sample_tx (Substate_new\<lparr>sub_sstore_clears_count := 1\<rparr>) 60000 = Ok (15000, 25000) \<and>
   (\<exists>refunded used. finalize_gas sample_tx (Substate_new\<lparr>sub_sstore_clears_count := 1\<rparr>) 60000 = Ok (refunded, used) \<and>
    unat used + unat refunded + 60000 = 100000)"
proof -
  have "finalize_gas sample_tx (Substate_new\<lparr>sub_sstore_clears_count := 1\<rparr>) 60000 = Ok (15000, 25000)"
    by (simp add: finalize_gas_def sample_tx_def Substate_new_def frontier_refunds times_chk_def plus_chk_def minus_chk_def Let_def)
  moreover have "\<exists>refunded used. finalize_gas sample_tx (Substate_new\<lparr>sub_sstore_clears_count := 1\<rparr>) 60000 = Ok (refunded, used) \<and>
    unat used + unat refunded + 60000 = 100000"
    using refund_bounded [of 60000 sample_tx "Substate_new\<lparr>sub_sstore_clears_count := 1\<rparr>"]
    by (auto simp: sample_tx_def Substate_new_def)
  ultimately show ?thesis by blast
qed

theorem frames_return_witness:
  "let params = (ActionParams_default 0)\<lparr>ap_gas := 50000, ap_code := Some [0x60, 0x01]\<rparr> in
    (case fst (executive 1025 sample_env noop_tracer noop_vm_tracer 0) params (Flexible [], sample_ex) of (r, (out', ex')) \<Rightarrow>
      returns r \<and> (\<forall>gl. r = Ok gl \<longrightarrow> gl \<le> 50000))"
proof -
  let ?p = "(ActionParams_default 0)\<lparr>ap_gas := 50000, ap_code := Some [0x60, 0x01]\<rparr>"
  have p: "params_ok ?p" "ap_code ?p \<noteq> None" "unat (ap_gas ?p) = 50000" "ap_gas ?p = 50000"
    by (simp_all add: params_ok_def bytes_or_empty_def ActionParams_default_def)
  show ?thesis
    using frames_return [of 0 1025, OF _ _ sample_ex_good(1) p(1,2), of "Flexible []"] sample_ex_good(2) p(3)
    unfolding Let_def p(4) by (auto split: prod.splits)
qed

section \<open>The end of a frame\<close>

lemma set_fold_insert: "set (fold List.insert xs ys) = set ys \<union> set xs"
  by (induction xs arbitrary: ys) auto

text \<open>C7: The end of a frame in terms of views. After an error other than an internal one the views of
  all addresses, at all checkpoints, are those from before the frame and nothing is added to the
  substate. After a success, and also after an internal error, the current views are those of the frame,
  over the checkpoints from before it, and the substate of the frame is added: its suicides and garbage
  to the sets, its logs and created contracts at the ends of the lists, its refunds to the count.\<close>

theorem enact_result_refines:
  assumes L: "lru_ok L" "crypt_hash L [] = HASH_EMPTY L" and s: "state_ok L s" "root_ok L s"
    and run: "balanced L (checkpoint s) (ex_state ex)"
    and clears: "plus_chk (sub_sstore_clears_count (ex_substate ex)) (sub_sstore_clears_count sub) = (Ok n :: u256 evm_result)"
  shows "case enact_result L result sub ex of (r, ex') \<Rightarrow>
      r = Ok () \<and> ex' = ex\<lparr>ex_state := ex_state ex', ex_substate := ex_substate ex'\<rparr> \<and>
      (if case result of Inl e \<Rightarrow> \<forall>m. e \<noteq> Internal m | Inr _ \<Rightarrow> False
       then (\<forall>a. vstack L (ex_state ex') a = vstack L s a) \<and> ex_substate ex' = ex_substate ex
       else (\<forall>a. vstack L (ex_state ex') a = hd (vstack L (ex_state ex) a) # tl (vstack L s a)) \<and>
         set (sub_suicides (ex_substate ex')) = set (sub_suicides (ex_substate ex)) \<union> set (sub_suicides sub) \<and>
         set (sub_garbage (ex_substate ex')) = set (sub_garbage (ex_substate ex)) \<union> set (sub_garbage sub) \<and>
         sub_logs (ex_substate ex') = sub_logs (ex_substate ex) @ sub_logs sub \<and>
         sub_sstore_clears_count (ex_substate ex') = n \<and>
         sub_contracts_created (ex_substate ex') = sub_contracts_created (ex_substate ex) @ sub_contracts_created sub)"
proof -
  note b = balanced_below [OF L run checkpoint_ready [OF s]]
  have t: "tl (vstack L (ex_state ex) a) = vstack L s a" and ok: "state_ok L (ex_state ex)"
    and ne: "st_checkpoints (ex_state ex) \<noteq> []" for a
    using b checkpoint_stack [OF s(1)] by (auto simp: below_def)
  have undo: "vstack L (revert_to_checkpoint L (ex_state ex)) a = vstack L s a" for a
    by (rule nested_below(3) [OF L(1) s(1) b])
  have keep: "vstack L (discard_checkpoint (ex_state ex)) a = hd (vstack L (ex_state ex) a) # tl (vstack L s a)" for a
    using discard_stack [OF L(1) ok ne] t by simp
  show ?thesis
  proof (cases result)
    case (Inl e)
    then show ?thesis
      using undo keep clears by (cases e) (simp_all add: enact_result_def sm_modify_def accrue_def set_fold_insert)
  next
    case (Inr gl)
    then show ?thesis using keep clears by (simp add: enact_result_def accrue_def set_fold_insert)
  qed
qed

theorem enact_result_refines_witness:
  "case enact_result sample_libs (Inl OutOfGas) Substate_new
      (sample_ex\<lparr>ex_state := snd (State_set_storage sample_libs 7 1 2 (checkpoint sample_state))\<rparr>) of (r, ex') \<Rightarrow>
    r = Ok () \<and> vstack sample_libs (ex_state ex') 7 = vstack sample_libs sample_state 7"
proof -
  let ?s' = "snd (State_set_storage sample_libs 7 1 2 (checkpoint sample_state))"
  have run: "State_set_storage sample_libs 7 1 2 (checkpoint sample_state) = (Ok (), ?s')"
    by (simp add: prod_eq_iff, simp add: sample_run)
  have "balanced sample_libs (checkpoint sample_state) (ex_state (sample_ex\<lparr>ex_state := ?s'\<rparr>))"
    by simp (rule balanced.op [OF balanced.none], rule state_op.op_set_storage [OF run], simp)
  from enact_result_refines [OF sample_lru_ok sample_hash_empty sample_state_ok sample_root_ok this, of Substate_new 0 "Inl OutOfGas"]
  show ?thesis by (auto simp: sample_ex_def Substate_new_def plus_chk_def split: prod.splits)
qed

section \<open>Errors of transactions\<close>

text \<open>C33: A transaction that creates a contract without the permission to is rejected, but the nonce of
  its sender is used up: the state is the one after the increment.\<close>

theorem rejected_create_uses_nonce:
  assumes "to_check_permission options" "tx_action t = Action_Create" "tx_sender t \<noteq> 0"
    "tx_sender t \<notin> st_creators st" "State_nonce (env_libs E) (tx_sender t) st = (Ok nonce, s1)"
    "State_inc_nonce (env_libs E) (tx_sender t) s1 = (Ok (), s2)"
  shows "transact n E options (t, st) = (Err NoContractPermission, (t, s2))"
proof -
  have "st_creators s2 = st_creators st" using nonce_creators [of "env_libs E" "tx_sender t"] assms(5,6) by (metis snd_conv)
  then show ?thesis using assms
    by (cases "to_tracing options"; cases "to_vm_tracing options")
      (simp_all add: transact_def transact_with_tracer_def start_def stop_def sm_run on_ex_def tx_state_def on_state_def
        check_permission_def)
qed

theorem rejected_create_uses_nonce_witness:
  "let s1 = snd (State_nonce sample_libs 7 sample_state); s2 = snd (State_inc_nonce sample_libs 7 s1);
      options = \<lparr>to_tracing = False, to_vm_tracing = False, to_check_permission = True, to_check_quota = True\<rparr> in
    fst (State_nonce sample_libs 7 sample_state) = Ok 0 \<and>
    transact 1025 sample_env options (sample_tx, sample_state) = (Err NoContractPermission, (sample_tx, s2)) \<and>
    fst (State_nonce sample_libs 7 s2) = Ok 1"
proof -
  let ?s1 = "snd (State_nonce sample_libs 7 sample_state)"
  let ?s2 = "snd (State_inc_nonce sample_libs 7 ?s1)"
  let ?o = "\<lparr>to_tracing = False, to_vm_tracing = False, to_check_permission = True, to_check_quota = True\<rparr>"
  have n0: "fst (State_nonce sample_libs 7 sample_state) = Ok 0"
    by (simp add: State_nonce_def sample_run)
  then have n: "State_nonce sample_libs 7 sample_state = (Ok 0, ?s1)" by (simp add: prod_eq_iff)
  have i: "State_inc_nonce sample_libs 7 ?s1 = (Ok (), ?s2)" "fst (State_nonce sample_libs 7 ?s2) = Ok 1"
    by (simp add: prod_eq_iff, simp_all add: State_nonce_def sample_run)
  have "transact 1025 sample_env ?o (sample_tx, sample_state) = (Err NoContractPermission, (sample_tx, ?s2))"
    by (rule rejected_create_uses_nonce) (use n i in \<open>simp_all add: sample_tx_def sample_env_def sample_state_def\<close>)
  then show ?thesis using n0 i by (simp add: Let_def)
qed

text \<open>C32: A call or a create from the zero address with less than the base gas panics: the check of the
  base gas leaves out that sender, and the subtraction that follows underflows.\<close>

theorem zero_sender_underflows:
  assumes "tx_sender t = 0" "tx_action t \<noteq> Action_Store" "tx_gas_limit t < base_gas_required"
    "State_nonce (env_libs E) 0 st = (Ok nonce, s1)" "State_inc_nonce (env_libs E) 0 s1 = (Ok (), s2)"
  shows "fst (transact n E options (t, st)) = Panic"
proof -
  have "minus_chk (tx_gas_limit t) base_gas_required = (Panic :: (ExecutionError, u256) res)"
    using assms(3) by (simp add: minus_chk_def not_le)
  then show ?thesis using assms
    by (cases "to_tracing options"; cases "to_vm_tracing options"; cases "tx_action t")
      (simp_all add: transact_def transact_with_tracer_def start_def stop_def sm_run on_ex_def tx_state_def on_state_def
        check_permission_def check_base_gas_def check_quota_def run_create_def run_call_def Let_def)
qed

theorem zero_sender_underflows_witness:
  "fst (transact 1025 sample_env \<lparr>to_tracing = False, to_vm_tracing = False, to_check_permission = True,
      to_check_quota = True\<rparr> (sample_tx\<lparr>tx_sender := 0, tx_gas_limit := 99\<rparr>, sample_state)) = Panic"
proof -
  let ?s1 = "snd (State_nonce sample_libs 0 sample_state)"
  let ?s2 = "snd (State_inc_nonce sample_libs 0 ?s1)"
  have "State_nonce sample_libs 0 sample_state = (Ok 0, ?s1)"
    by (simp add: prod_eq_iff, simp add: State_nonce_def sample_run)
  moreover have "State_inc_nonce sample_libs 0 ?s1 = (Ok (), ?s2)"
    by (simp add: prod_eq_iff, simp add: State_nonce_def sample_run)
  ultimately show ?thesis
    by (intro zero_sender_underflows) (simp_all add: sample_tx_def sample_env_def base_gas_required_def)
qed

section \<open>Externalities\<close>

text \<open>C15: BLOCKHASH is exact: the hash of one of the 256 blocks before the current one, zero for every other
  number. It needs the hashes of those blocks.\<close>

theorem blockhash_exact:
  assumes "min 256 (unat (ei_number info)) \<le> length (ei_last_hashes info)"
  shows "ext_impl_blockhash info number = (Ok (if unat number < unat (ei_number info) \<and> unat (ei_number info) \<le> unat number + 256
     then ei_last_hashes info ! (unat (ei_number info) - unat number - 1) else 0) :: h256 evm_result)"
proof (cases "unat number < unat (ei_number info)")
  case True
  let ?n = "ei_number info"
  have lo: "unat (low_u64 number) = unat number" using True unat_usize [of ?n] by (intro low_u64_small) simp
  have lt: "number < ucast ?n" using True by (simp add: word_less_nat_alt unat_ucast_up)
  have le: "low_u64 number \<le> ?n" using True lo by (simp add: word_le_nat_alt)
  let ?d = "?n - low_u64 number"
  have d: "unat ?d = unat ?n - unat number" using unat_minus_le [OF le] lo by simp
  have one: "1 \<le> ?d" using d True by (simp add: word_le_nat_alt)
  have i: "unat (?d - 1) = unat ?n - unat number - 1" using unat_minus_le [OF one] d by simp
  have w: "(max 256 (unat ?n) - 256 \<le> unat number) = (unat ?n \<le> unat number + 256)" by auto
  show ?thesis
    using True lt le one i w lo assms
    by (auto simp: ext_impl_blockhash_def minus_chk_def rust_assert_def min_def max_def split: if_splits)
next
  case False
  then have "\<not> number < ucast (ei_number info)" by (simp add: word_less_nat_alt unat_ucast_up)
  then show ?thesis using False by (simp add: ext_impl_blockhash_def)
qed

theorem blockhash_exact_witness:
  "ext_impl_blockhash (EnvInfo_default\<lparr>ei_number := 2, ei_last_hashes := [11, 12]\<rparr>) 0 = (Ok 12 :: h256 evm_result)"
  using blockhash_exact [of "EnvInfo_default\<lparr>ei_number := 2, ei_last_hashes := [11, 12]\<rparr>" 0] by simp

text \<open>C14: The end of a create deposits the code: where the gas covers 200 per byte it is the code of the new
  account afterwards and the gas is charged; otherwise the create succeeds with all of its gas and no
  code, as the frontier rules have it.\<close>

theorem code_deposit:
  assumes L: "lru_ok L" "crypt_hash L [] = HASH_EMPTY L" and s: "state_ok L (ex_state ex)" and d: "length data < 2 ^ 64"
    and run: "ext_ret L origin gas data (OP_InitContract copy, ex) = (Ok gl, (p', ex'))"
  shows "if 200 * length data \<le> unat gas \<and> length data \<le> create_data_limit new_frontier
    then unat gl + 200 * length data = unat gas \<and>
      fst (State_code L (oi_address origin) (ex_state ex')) = Ok (Some data)
    else gl = gas \<and> ex' = ex"
proof -
  let ?n = "of_nat (length data) :: u256" and ?a = "oi_address origin"
  have n: "unat ?n = length data" using d by (intro unat_of_nat_small) simp
  have t: "times_chk ?n (of_nat (create_data_gas new_frontier)) = (Ok (?n * 200) :: u256 evm_result)"
    "unat (?n * 200) = 200 * length data"
    using d n unat_mult_lem [of ?n "200 :: u256"] by (simp_all add: times_chk_def frontier_deposit mult.commute)
  have le: "(gas < ?n * 200) = (unat gas < 200 * length data)" using t(2) by (simp add: word_less_nat_alt)
  show ?thesis
  proof (cases "200 * length data \<le> unat gas \<and> length data \<le> create_data_limit new_frontier")
    case True
    obtain r s' where r: "State_init_code L ?a data (ex_state ex) = (r, s')" by fastforce
    have ok: "r = Ok ()" "ex' = ex\<lparr>ex_state := s'\<rparr>" "gl = gas - ?n * 200"
      using run True r t le
      by (cases r; auto simp: ext_ret_def Let_def on_state_def minus_chk_def split: if_splits)+
    obtain v where w: "written L ?a (Some ((or_new (fresh L (ex_state ex) ?a) v)\<lparr>vw_code_hash := crypt_hash L data, vw_code := Some data\<rparr>)) (ex_state ex) s'"
      using State_init_code_spec [OF L(1) s r L(2)] ok(1) by blast
    then have s': "state_ok L s'" by (simp add: written_def)
    have "fst (State_code L ?a s') = Ok (Some data)"
      using State_code_spec [OF L(1) s' surjective_pairing, of ?a] written_current [OF w, of ?a] by simp
    moreover have "unat gl + 200 * length data = unat gas"
      using ok(3) True t(2) unat_minus_le [of "?n * 200" gas] by (simp add: word_le_nat_alt)
    ultimately show ?thesis using True ok(2) by simp
  next
    case False
    then show ?thesis using run t le by (auto simp: ext_ret_def Let_def frontier_deposit split: if_splits)
  qed
qed

theorem code_deposit_witness:
  "fst (State_code sample_libs 7 (ex_state (snd (snd (ext_ret sample_libs (OriginInfo_from ((ActionParams_default 0)\<lparr>ap_address := 7\<rparr>))
     1000 [1, 2] (OP_InitContract None, sample_ex)))))) = Ok (Some [1, 2])"
proof -
  let ?o = "OriginInfo_from ((ActionParams_default 0)\<lparr>ap_address := 7\<rparr>)"
  let ?x = "ext_ret sample_libs ?o 1000 [1, 2] (OP_InitContract None, sample_ex)"
  have o: "oi_address ?o = 7" by (simp add: OriginInfo_from_def)
  have r: "fst ?x = Ok 600"
    by (simp add: ext_ret_def Let_def times_chk_def minus_chk_def frontier_deposit new_frontier_def Schedule_new_def
        on_state_def State_init_code_def Account_new_contract_def Account_init_code_def Account_is_cached_def sample_ex_def o sample_run)
  obtain p' ex' where x: "?x = (Ok 600, (p', ex'))" using r by (cases ?x) auto
  from code_deposit [OF sample_lru_ok sample_hash_empty _ _ x] show ?thesis
    using x by (simp add: sample_ex_def o new_frontier_def Schedule_new_def)
qed

section \<open>Traces\<close>

text \<open>C13: The traces of an execution enumerate its forest of calls: each finished frame appends one more
  tree, whose children are the trees of the frames below it, with the addresses and the number of sub
  traces of its place.\<close>

theorem traces_form_forest:
  assumes "is_forest F (et_traces t)" "is_forest G subs"
  shows "(\<exists>t'. et_trace_call (Some c) g (Some out) subs t = (Ok (), t') \<and> is_forest (F @ [CallNode G]) (et_traces t')) \<and>
    (\<exists>t'. et_trace_create (Some k) g (Some out) a subs t = (Ok (), t') \<and> is_forest (F @ [CallNode G]) (et_traces t')) \<and>
    (\<exists>t'. et_trace_failed_call (Some c) subs e t = (Ok (), t') \<and> is_forest (F @ [CallNode G]) (et_traces t')) \<and>
    (\<exists>t'. et_trace_failed_create (Some k) subs e t = (Ok (), t') \<and> is_forest (F @ [CallNode G]) (et_traces t')) \<and>
    is_forest (F @ [CallNode []]) (et_traces (et_trace_suicide a 0 b t))"
  using et_push_forest [OF assms] assms(1)
  by (simp add: et_trace_call_def et_trace_create_def et_trace_failed_call_def et_trace_failed_create_def sm_run
      et_trace_suicide_def is_forest_def located_def)

theorem traces_form_forest_witness:
  "\<exists>t'. et_trace_call (Some (Call_from (ActionParams_default 0))) 5 (Some []) [] ExecutiveTracer_default = (Ok (), t') \<and>
     is_forest [CallNode []] (et_traces t')"
  using traces_form_forest [of "[]" ExecutiveTracer_default "[]" "[]"] by (simp add: is_forest_def ExecutiveTracer_default_def)

section \<open>The virtual machine in a frame\<close>

text \<open>The externalities that a frame at a depth gets from the executive.\<close>

abbreviation frame_ext where
  "frame_ext E T depth origin \<equiv> Externalities_new (env_libs E) T noop_vm_tracer (env_info E) depth origin
     (fst (executive 1025 E T noop_vm_tracer (depth + 1))) (snd (executive 1025 E T noop_vm_tracer (depth + 1)))"

lemma frame_ext_schedule: "ext_schedule (frame_ext E T depth origin) = new_frontier"
  by (simp add: Externalities_new_def)

text \<open>C5: Every step of the machine returns and keeps it well formed: the stack within its limit, the
  memory in whole words that are paid for, the state and the counters within their bounds; and unless
  it stops the machine it uses up gas.\<close>

theorem step_keeps_machine:
  assumes "frame_inv (ex_good E T) ex_clears new_frontier K B G m" "m_pos m < length code" "params_ok params" "K < 2 ^ 128"
  shows "case exec_step (frame_ext E T depth origin) sha3 params code G m of (r, m') \<Rightarrow>
    returns r \<and> (\<forall>res G'. r = Ok (res, G') \<longrightarrow>
      frame_inv (ex_good E T) ex_clears new_frontier K B G' m' \<and> (stops res \<or> current_gas G' < current_gas G))"
proof -
  have "wp (exec_step (frame_ext E T depth origin) sha3 params code G)
      (step_post (ex_good E T) ex_clears new_frontier K B G)
      (\<lambda>_ m'. ex_good E T (m_ext m') \<and> ex_clears (m_ext m') \<le> K) m"
    using frame.exec_step_wp [where E = E and T = T and depth = depth and origin = origin] assms
    unfolding frame_ext_schedule by blast
  then show ?thesis
    by (cases "exec_step (frame_ext E T depth origin) sha3 params code G m")
      (auto simp: wp_def step_post_def word_less_nat_alt split: res.splits prod.splits)
qed

theorem step_keeps_machine_witness:
  "case exec_step (frame_ext sample_env noop_tracer 0 (OriginInfo_from (ActionParams_default 0))) sample_hash (ActionParams_default 0)
      [0x60, 0x01] (Gasometer_new (1000 :: usize)) \<lparr>m_mem = [], m_stack = with_capacity 0, m_pos = 0, m_ext = sample_ex\<rparr> of (r, m') \<Rightarrow>
    returns r"
proof -
  let ?m = "\<lparr>m_mem = [], m_stack = with_capacity 0, m_pos = 0, m_ext = sample_ex\<rparr>"
  have "frame_inv (ex_good sample_env noop_tracer) ex_clears new_frontier (2 ^ 64 + 1000) 1000 (Gasometer_new 1000) ?m"
    by (simp add: frame_inv_def sample_ex_good Gasometer_new_def mem_gas_inv_def mem_gas_spec_def with_capacity_stk)
  from step_keeps_machine [OF this, of "[0x60, 0x01]" "ActionParams_default 0" 0 "OriginInfo_from (ActionParams_default 0)" sample_hash]
  show ?thesis by (auto simp: params_ok_def bytes_or_empty_def ActionParams_default_def split: prod.splits)
qed

text \<open>C4: The interpreter returns for every code: the loop ends within as many steps as there is gas, with
  at most the gas it was given and a result that fits the memory.\<close>

theorem interpreter_returns:
  assumes "ex_good E T ex" "params_ok params" "ap_code params \<noteq> None" "ex_clears ex + unat (ap_gas params) < 2 ^ 128"
    "\<forall>h c. \<exists>D. jumps h c = Ok D"
  shows "case exec TYPE(64) (frame_ext E T depth origin) sha3 jumps params ex of (r, ex') \<Rightarrow>
    returns r \<and> (\<forall>gl. r = Ok gl \<longrightarrow> unat (gas_of gl) \<le> unat (ap_gas params) \<and> length (ret_data gl) < 2 ^ 64)"
proof -
  have "wp (exec TYPE(64) (frame_ext E T depth origin) sha3 jumps params)
    (run_post (ex_good E T) ex_clears (ex_clears ex + unat (ap_gas params)) (unat (ap_gas params)))
    (\<lambda>_. run_err (ex_good E T) ex_clears (ex_clears ex + unat (ap_gas params))) ex"
    using frame.exec_wp [where E = E and T = T and depth = depth and origin = origin] assms by blast
  then show ?thesis
    by (cases "exec TYPE(64) (frame_ext E T depth origin) sha3 jumps params ex")
      (auto simp: wp_def run_post_def split: res.splits)
qed

theorem interpreter_returns_witness:
  "case exec TYPE(64) (frame_ext sample_env noop_tracer 0 (OriginInfo_from (ActionParams_default 0))) sample_hash (\<lambda>_ _. Ok {})
      ((ActionParams_default 0)\<lparr>ap_gas := 1000, ap_code := Some [0x5b, 0x56]\<rparr>) sample_ex of (r, ex') \<Rightarrow> returns r"
proof -
  let ?p = "(ActionParams_default 0)\<lparr>ap_gas := 1000, ap_code := Some [0x5b, 0x56]\<rparr>"
  have "params_ok ?p" "ap_code ?p \<noteq> None" "ex_clears sample_ex + unat (ap_gas ?p) < 2 ^ 128"
    by (simp_all add: params_ok_def bytes_or_empty_def ActionParams_default_def sample_ex_good)
  from interpreter_returns [OF sample_ex_good(1) this, of "\<lambda>_ _. Ok {}" 0 "OriginInfo_from (ActionParams_default 0)" sample_hash]
  show ?thesis by (auto split: prod.splits)
qed

end
