(* ===== verification/Trace_Codec.thy ===== *)
theory Trace_Codec
  imports Trace Rlp
begin

text \<open>
  The RLP encodings of traces (\<^verbatim>\<open>cita-executor/core/src/trace/types/trace.rs\<close>, \<^verbatim>\<open>flat.rs\<close>): each struct with
  its encoder and decoder, as interpretations of the locale \<open>codec\<close>. The traces of a block and the trace
  of a virtual machine with its nested traces round trip.
\<close>

section \<open>Results and actions\<close>

definition CallResult_append :: "'r Rlp \<Rightarrow> CallResult \<Rightarrow> 'r" where
  "CallResult_append R c = rl_list R [rl_u256 R (cr_gas_used c), rl_bytes R (cr_output c)]"

definition CallResult_decode :: "'r Rlp \<Rightarrow> 'r \<Rightarrow> CallResult decoded" where
  "CallResult_decode R r =
     res_bind (val_at R (un_u256 R) r 0) (\<lambda>gas_used.
     res_bind (val_at R (un_bytes R) r 1) (\<lambda>output.
     Ok \<lparr>cr_gas_used = gas_used, cr_output = output\<rparr>))"

definition CreateResult_append :: "'r Rlp \<Rightarrow> CreateResult \<Rightarrow> 'r" where
  "CreateResult_append R c = rl_list R [rl_u256 R (cre_gas_used c), rl_bytes R (cre_code c), rl_address R (cre_address c)]"

definition CreateResult_decode :: "'r Rlp \<Rightarrow> 'r \<Rightarrow> CreateResult decoded" where
  "CreateResult_decode R r =
     res_bind (val_at R (un_u256 R) r 0) (\<lambda>gas_used.
     res_bind (val_at R (un_bytes R) r 1) (\<lambda>code.
     res_bind (val_at R (un_address R) r 2) (\<lambda>address.
     Ok \<lparr>cre_gas_used = gas_used, cre_code = code, cre_address = address\<rparr>)))"

text \<open>\<open>CallType\<close> is appended as a \<open>u32\<close> and read as a \<open>u8\<close>.\<close>

definition Call_append :: "'r Rlp \<Rightarrow> TraceCall \<Rightarrow> 'r" where
  "Call_append R c = rl_list R
     [rl_address R (tc_from c), rl_address R (tc_to c), rl_u256 R (tc_value c), rl_u256 R (tc_gas c),
      rl_bytes R (tc_input c), rl_u32 R (CallType_rlp_append (tc_call_type c))]"

definition Call_decode :: "'r Rlp \<Rightarrow> 'r \<Rightarrow> TraceCall decoded" where
  "Call_decode R r =
     res_bind (val_at R (un_address R) r 0) (\<lambda>from.
     res_bind (val_at R (un_address R) r 1) (\<lambda>to.
     res_bind (val_at R (un_u256 R) r 2) (\<lambda>value.
     res_bind (val_at R (un_u256 R) r 3) (\<lambda>gas.
     res_bind (val_at R (un_bytes R) r 4) (\<lambda>input.
     res_bind (val_at R (\<lambda>i. res_bind (un_u8 R i) CallType_decode) r 5) (\<lambda>call_type.
     Ok \<lparr>tc_from = from, tc_to = to, tc_value = value, tc_gas = gas, tc_input = input, tc_call_type = call_type\<rparr>))))))"

definition Create_append :: "'r Rlp \<Rightarrow> TraceCreate \<Rightarrow> 'r" where
  "Create_append R c = rl_list R
     [rl_address R (tcr_from c), rl_u256 R (tcr_value c), rl_u256 R (tcr_gas c), rl_bytes R (tcr_init c)]"

definition Create_decode :: "'r Rlp \<Rightarrow> 'r \<Rightarrow> TraceCreate decoded" where
  "Create_decode R r =
     res_bind (val_at R (un_address R) r 0) (\<lambda>from.
     res_bind (val_at R (un_u256 R) r 1) (\<lambda>value.
     res_bind (val_at R (un_u256 R) r 2) (\<lambda>gas.
     res_bind (val_at R (un_bytes R) r 3) (\<lambda>init.
     Ok \<lparr>tcr_from = from, tcr_value = value, tcr_gas = gas, tcr_init = init\<rparr>))))"

definition Suicide_append :: "'r Rlp \<Rightarrow> TraceSuicide \<Rightarrow> 'r" where
  "Suicide_append R s = rl_list R
     [rl_address R (ts_address s), rl_address R (ts_refund_address s), rl_u256 R (ts_balance s)]"

definition Suicide_decode :: "'r Rlp \<Rightarrow> 'r \<Rightarrow> TraceSuicide decoded" where
  "Suicide_decode R r =
     res_bind (val_at R (un_address R) r 0) (\<lambda>address.
     res_bind (val_at R (un_address R) r 1) (\<lambda>refund_address.
     res_bind (val_at R (un_u256 R) r 2) (\<lambda>balance.
     Ok \<lparr>ts_address = address, ts_refund_address = refund_address, ts_balance = balance\<rparr>)))"

definition TraceAction_append :: "'r Rlp \<Rightarrow> TraceAction \<Rightarrow> 'r" where
  "TraceAction_append R a = rl_list R
     (case a of ActCall call \<Rightarrow> [rl_u8 R 0, Call_append R call]
      | ActCreate create \<Rightarrow> [rl_u8 R 1, Create_append R create]
      | ActSuicide suicide \<Rightarrow> [rl_u8 R 2, Suicide_append R suicide])"

definition TraceAction_decode :: "'r Rlp \<Rightarrow> 'r \<Rightarrow> TraceAction decoded" where
  "TraceAction_decode R r =
     res_bind (val_at R (un_u8 R) r 0) (\<lambda>action_type.
     if action_type = 0 then res_map ActCall (val_at R (Call_decode R) r 1)
     else if action_type = 1 then res_map ActCreate (val_at R (Create_decode R) r 1)
     else if action_type = 2 then res_map ActSuicide (val_at R (Suicide_decode R) r 1)
     else Err ''Invalid action type.'')"

definition TraceRes_append :: "'r Rlp \<Rightarrow> TraceRes \<Rightarrow> 'r" where
  "TraceRes_append R x = rl_list R
     (case x of ResCall call \<Rightarrow> [rl_u8 R 0, CallResult_append R call]
      | ResCreate create \<Rightarrow> [rl_u8 R 1, CreateResult_append R create]
      | ResFailedCall err \<Rightarrow> [rl_u8 R 2, rl_u8 R (TraceError_rlp_append err)]
      | ResFailedCreate err \<Rightarrow> [rl_u8 R 3, rl_u8 R (TraceError_rlp_append err)]
      | ResNone \<Rightarrow> [rl_u8 R 4])"

definition TraceRes_decode :: "'r Rlp \<Rightarrow> 'r \<Rightarrow> TraceRes decoded" where
  "TraceRes_decode R r =
     (let error_decode = (\<lambda>i. res_bind (un_u8 R i) TraceError_decode) in
      res_bind (val_at R (un_u8 R) r 0) (\<lambda>action_type.
      if action_type = 0 then res_map ResCall (val_at R (CallResult_decode R) r 1)
      else if action_type = 1 then res_map ResCreate (val_at R (CreateResult_decode R) r 1)
      else if action_type = 2 then res_map ResFailedCall (val_at R error_decode r 1)
      else if action_type = 3 then res_map ResFailedCreate (val_at R error_decode r 1)
      else if action_type = 4 then Ok ResNone
      else Err ''Invalid result type.''))"

interpretation call_result: codec "CallResult_append R" "CallResult_decode R" "\<lambda>_. rlp_ok R" for R :: "'r Rlp"
  by unfold_locales (simp add: CallResult_append_def CallResult_decode_def rlp_simps)

interpretation create_result: codec "CreateResult_append R" "CreateResult_decode R" "\<lambda>_. rlp_ok R" for R :: "'r Rlp"
  by unfold_locales (simp add: CreateResult_append_def CreateResult_decode_def rlp_simps)

lemma CallType_small: "unat (CallType_rlp_append c) < 256"
  by (cases c) simp_all

interpretation trace_call: codec "Call_append R" "Call_decode R" "\<lambda>_. rlp_ok R" for R :: "'r Rlp"
  by unfold_locales (simp add: Call_append_def Call_decode_def rlp_simps CallType_small CallType_decode_append)

interpretation trace_create: codec "Create_append R" "Create_decode R" "\<lambda>_. rlp_ok R" for R :: "'r Rlp"
  by unfold_locales (simp add: Create_append_def Create_decode_def rlp_simps)

interpretation trace_suicide: codec "Suicide_append R" "Suicide_decode R" "\<lambda>_. rlp_ok R" for R :: "'r Rlp"
  by unfold_locales (simp add: Suicide_append_def Suicide_decode_def rlp_simps)

interpretation trace_action: codec "TraceAction_append R" "TraceAction_decode R" "\<lambda>_. rlp_ok R" for R :: "'r Rlp"
proof
  fix x :: TraceAction assume "rlp_ok R"
  then show "TraceAction_decode R (TraceAction_append R x) = Ok x"
    by (cases x) (simp_all add: TraceAction_append_def TraceAction_decode_def rlp_simps trace_call.decode_append
        trace_create.decode_append trace_suicide.decode_append)
qed

interpretation trace_res: codec "TraceRes_append R" "TraceRes_decode R" "\<lambda>_. rlp_ok R" for R :: "'r Rlp"
proof
  fix x :: TraceRes assume "rlp_ok R"
  then show "TraceRes_decode R (TraceRes_append R x) = Ok x"
    by (cases x) (simp_all add: TraceRes_append_def TraceRes_decode_def rlp_simps call_result.decode_append
        create_result.decode_append TraceError_roundtrip)
qed

section \<open>Flat traces\<close>

definition FlatTrace_append :: "'r Rlp \<Rightarrow> FlatTrace \<Rightarrow> 'r" where
  "FlatTrace_append R t = rl_list R
     [TraceAction_append R (ft_action t), TraceRes_append R (ft_result t), rl_usize R (ft_subtraces t),
      append_list R (rl_usize R) (ft_trace_address t)]"

definition FlatTrace_decode :: "'r Rlp \<Rightarrow> 'r \<Rightarrow> FlatTrace decoded" where
  "FlatTrace_decode R d =
     res_bind (val_at R (as_list R (un_usize R)) d 3) (\<lambda>v.
     res_bind (val_at R (TraceAction_decode R) d 0) (\<lambda>action.
     res_bind (val_at R (TraceRes_decode R) d 1) (\<lambda>result.
     res_bind (val_at R (un_usize R) d 2) (\<lambda>subtraces.
     Ok \<lparr>ft_action = action, ft_result = result, ft_subtraces = subtraces, ft_trace_address = v\<rparr>))))"

definition FlatTransactionTraces_append :: "'r Rlp \<Rightarrow> FlatTrace list \<Rightarrow> 'r" where
  "FlatTransactionTraces_append R ts = append_list R (FlatTrace_append R) ts"

definition FlatTransactionTraces_decode :: "'r Rlp \<Rightarrow> 'r \<Rightarrow> FlatTrace list decoded" where
  "FlatTransactionTraces_decode R r = as_list R (FlatTrace_decode R) r"

definition FlatBlockTraces_append :: "'r Rlp \<Rightarrow> FlatTrace list list \<Rightarrow> 'r" where
  "FlatBlockTraces_append R bs = append_list R (FlatTransactionTraces_append R) bs"

definition FlatBlockTraces_decode :: "'r Rlp \<Rightarrow> 'r \<Rightarrow> FlatTrace list list decoded" where
  "FlatBlockTraces_decode R r = as_list R (FlatTransactionTraces_decode R) r"

text \<open>Counts and positions are machine words.\<close>

definition trace_fits :: "FlatTrace \<Rightarrow> bool" where
  "trace_fits t \<longleftrightarrow> ft_subtraces t < 2 ^ 64 \<and> list_all (\<lambda>n. n < 2 ^ 64) (ft_trace_address t)"

interpretation flat_trace: codec "FlatTrace_append R" "FlatTrace_decode R" "\<lambda>t. rlp_ok R \<and> trace_fits t" for R :: "'r Rlp"
  by unfold_locales
    (simp add: FlatTrace_append_def FlatTrace_decode_def trace_fits_def rlp_simps usize.append_list_roundtrip
      usize.decode_append trace_action.decode_append trace_res.decode_append)

interpretation tx_traces: codec "FlatTransactionTraces_append R" "FlatTransactionTraces_decode R"
    "\<lambda>ts. rlp_ok R \<and> list_all trace_fits ts" for R :: "'r Rlp"
  by unfold_locales
    (simp add: FlatTransactionTraces_append_def FlatTransactionTraces_decode_def flat_trace.append_list_roundtrip list_all_iff)

interpretation block_traces: codec "FlatBlockTraces_append R" "FlatBlockTraces_decode R"
    "\<lambda>bs. rlp_ok R \<and> list_all (list_all trace_fits) bs" for R :: "'r Rlp"
  by unfold_locales
    (simp add: FlatBlockTraces_append_def FlatBlockTraces_decode_def tx_traces.append_list_roundtrip list_all_iff)

section \<open>Traces of the virtual machine\<close>

definition MemoryDiff_append :: "'r Rlp \<Rightarrow> MemoryDiff \<Rightarrow> 'r" where
  "MemoryDiff_append R d = rl_list R [rl_usize R (md_offset d), rl_bytes R (md_data d)]"

definition MemoryDiff_decode :: "'r Rlp \<Rightarrow> 'r \<Rightarrow> MemoryDiff decoded" where
  "MemoryDiff_decode R r =
     res_bind (val_at R (un_usize R) r 0) (\<lambda>offset.
     res_bind (val_at R (un_bytes R) r 1) (\<lambda>data.
     Ok \<lparr>md_offset = offset, md_data = data\<rparr>))"

definition StorageDiff_append :: "'r Rlp \<Rightarrow> StorageDiff \<Rightarrow> 'r" where
  "StorageDiff_append R d = rl_list R [rl_u256 R (sd_location d), rl_u256 R (sd_value d)]"

definition StorageDiff_decode :: "'r Rlp \<Rightarrow> 'r \<Rightarrow> StorageDiff decoded" where
  "StorageDiff_decode R r =
     res_bind (val_at R (un_u256 R) r 0) (\<lambda>location.
     res_bind (val_at R (un_u256 R) r 1) (\<lambda>value.
     Ok \<lparr>sd_location = location, sd_value = value\<rparr>))"

definition VMExecutedOperation_append :: "'r Rlp \<Rightarrow> VMExecutedOperation \<Rightarrow> 'r" where
  "VMExecutedOperation_append R e = rl_list R
     [rl_u256 R (ve_gas_used e), append_list R (rl_u256 R) (ve_stack_push e),
      append_option R (MemoryDiff_append R) (ve_mem_diff e), append_option R (StorageDiff_append R) (ve_store_diff e)]"

definition VMExecutedOperation_decode :: "'r Rlp \<Rightarrow> 'r \<Rightarrow> VMExecutedOperation decoded" where
  "VMExecutedOperation_decode R r =
     res_bind (val_at R (un_u256 R) r 0) (\<lambda>gas_used.
     res_bind (val_at R (as_list R (un_u256 R)) r 1) (\<lambda>stack_push.
     res_bind (val_at R (as_option R (MemoryDiff_decode R)) r 2) (\<lambda>mem_diff.
     res_bind (val_at R (as_option R (StorageDiff_decode R)) r 3) (\<lambda>store_diff.
     Ok \<lparr>ve_gas_used = gas_used, ve_stack_push = stack_push, ve_mem_diff = mem_diff, ve_store_diff = store_diff\<rparr>))))"

definition VMOperation_append :: "'r Rlp \<Rightarrow> VMOperation \<Rightarrow> 'r" where
  "VMOperation_append R v = rl_list R
     [rl_usize R (vo_pc v), rl_u8 R (vo_instruction v), rl_u256 R (vo_gas_cost v),
      append_option R (VMExecutedOperation_append R) (vo_executed v)]"

definition VMOperation_decode :: "'r Rlp \<Rightarrow> 'r \<Rightarrow> VMOperation decoded" where
  "VMOperation_decode R r =
     res_bind (val_at R (un_usize R) r 0) (\<lambda>pc.
     res_bind (val_at R (un_u8 R) r 1) (\<lambda>instruction.
     res_bind (val_at R (un_u256 R) r 2) (\<lambda>gas_cost.
     res_bind (val_at R (as_option R (VMExecutedOperation_decode R)) r 3) (\<lambda>executed.
     Ok \<lparr>vo_pc = pc, vo_instruction = instruction, vo_gas_cost = gas_cost, vo_executed = executed\<rparr>))))"

primrec VMTrace_append :: "'r Rlp \<Rightarrow> VMTrace \<Rightarrow> 'r" where
  "VMTrace_append R (VMTrace parent_step code operations subs) = rl_list R
     [rl_usize R parent_step, rl_bytes R code, append_list R (VMOperation_append R) operations,
      rl_list R (map (VMTrace_append R) subs)]"

text \<open>The decoder calls itself on the items of the last field. The recursion is bounded by the nesting of
  the items, the fuel of the model.\<close>

primrec VMTrace_decode :: "'r Rlp \<Rightarrow> nat \<Rightarrow> 'r \<Rightarrow> VMTrace decoded" where
  "VMTrace_decode R 0 r = Diverge"
| "VMTrace_decode R (Suc n) r =
     res_bind (val_at R (un_usize R) r 0) (\<lambda>parent_step.
     res_bind (val_at R (un_bytes R) r 1) (\<lambda>code.
     res_bind (val_at R (as_list R (VMOperation_decode R)) r 2) (\<lambda>operations.
     res_bind (val_at R (as_list R (VMTrace_decode R n)) r 3) (\<lambda>subs.
     Ok (VMTrace parent_step code operations subs)))))"

definition operation_fits :: "VMOperation \<Rightarrow> bool" where
  "operation_fits v \<longleftrightarrow> vo_pc v < 2 ^ 64 \<and>
     pred_option (\<lambda>e. pred_option (\<lambda>d. md_offset d < 2 ^ 64) (ve_mem_diff e)) (vo_executed v)"

primrec vm_trace_fits :: "VMTrace \<Rightarrow> bool" where
  "vm_trace_fits (VMTrace parent_step code operations subs) \<longleftrightarrow>
     parent_step < 2 ^ 64 \<and> list_all operation_fits operations \<and> list_all id (map vm_trace_fits subs)"

primrec nesting :: "VMTrace \<Rightarrow> nat" where
  "nesting (VMTrace parent_step code operations subs) = Suc (fold max (map nesting subs) 0)"

interpretation memory_diff: codec "MemoryDiff_append R" "MemoryDiff_decode R" "\<lambda>d. rlp_ok R \<and> md_offset d < 2 ^ 64" for R :: "'r Rlp"
  by unfold_locales (simp add: MemoryDiff_append_def MemoryDiff_decode_def rlp_simps usize.decode_append)

interpretation storage_diff: codec "StorageDiff_append R" "StorageDiff_decode R" "\<lambda>_. rlp_ok R" for R :: "'r Rlp"
  by unfold_locales (simp add: StorageDiff_append_def StorageDiff_decode_def rlp_simps)

interpretation vm_executed: codec "VMExecutedOperation_append R" "VMExecutedOperation_decode R"
    "\<lambda>e. rlp_ok R \<and> pred_option (\<lambda>d. md_offset d < 2 ^ 64) (ve_mem_diff e)" for R :: "'r Rlp"
  by unfold_locales
    (simp add: VMExecutedOperation_append_def VMExecutedOperation_decode_def rlp_simps option.pred_set
      memory_diff.append_option_roundtrip storage_diff.append_option_roundtrip)

interpretation vm_operation: codec "VMOperation_append R" "VMOperation_decode R" "\<lambda>v. rlp_ok R \<and> operation_fits v" for R :: "'r Rlp"
  by unfold_locales
    (simp add: VMOperation_append_def VMOperation_decode_def operation_fits_def rlp_simps option.pred_set
      usize.decode_append vm_executed.append_option_roundtrip)

lemma fold_max_le: "x \<in> set xs \<or> x \<le> m \<Longrightarrow> x \<le> fold max xs (m :: nat)"
proof (induction xs arbitrary: m)
  case (Cons a xs)
  then have "x \<in> set xs \<or> x \<le> max a m" by (simp add: le_max_iff_disj) blast
  then show ?case using Cons.IH [of "max a m"] by simp
qed simp

lemma mapM_all: "(\<And>x. x \<in> set xs \<Longrightarrow> f (g x) = Ok x) \<Longrightarrow> res_mapM f (map g xs) = Ok xs"
  by (induction xs) auto

lemma VMTrace_decode_append:
  "rlp_ok R \<Longrightarrow> vm_trace_fits t \<Longrightarrow> nesting t \<le> n \<Longrightarrow> VMTrace_decode R n (VMTrace_append R t) = Ok t"
proof (induction t arbitrary: n)
  case (VMTrace parent_step code operations subs)
  obtain k where n: "n = Suc k" using VMTrace.prems(3) by (cases n) auto
  have "res_mapM (VMTrace_decode R k) (map (VMTrace_append R) subs) = Ok subs"
  proof (rule mapM_all)
    fix t assume t: "t \<in> set subs"
    then have "nesting t \<le> k" using VMTrace.prems(3) n fold_max_le [of "nesting t" "map nesting subs" 0] by fastforce
    moreover have "vm_trace_fits t" using VMTrace.prems(2) t by (auto simp: list_all_iff)
    ultimately show "VMTrace_decode R k (VMTrace_append R t) = Ok t" using VMTrace.IH [OF t] VMTrace.prems(1) by blast
  qed
  then have "as_list R (VMTrace_decode R k) (rl_list R (map (VMTrace_append R) subs)) = Ok subs"
    using VMTrace.prems(1) by (simp add: as_list_def rlp_simps)
  then show ?case using VMTrace.prems(1,2) n
    by (simp add: rlp_simps usize.decode_append vm_operation.append_list_roundtrip list_all_iff)
qed

end
