(* ===== verification/Sample_Items.thy ===== *)
theory Sample_Items
  imports Transactions Trace_Codec
begin

text \<open>
  A concrete RLP library: items are trees whose leaves are tagged by the kind of value they hold, with
  all integers under one tag. It has what \<open>rlp_ok\<close> asks for, and it is where the instances of the
  theorems about encodings are evaluated; so is the address book that stands in for the parser of
  addresses.
\<close>

datatype item =
  I_list "item list" | I_number nat | I_h256 h256 | I_h512 u512 | I_h2048 h2048 | I_address address
| I_bytes bytes | I_string string | I_option "item option"

definition item_number :: "'w::len itself \<Rightarrow> item \<Rightarrow> 'w word decoded" where
  "item_number w i = (case i of I_number n \<Rightarrow> if n < 2 ^ LENGTH('w) then Ok (of_nat n) else Err ''RlpIsTooBig'' | _ \<Rightarrow> Err ''RlpExpectedToBeData'')"

definition sample_items :: "item Rlp" where
  "sample_items = \<lparr>
     rl_list = I_list,
     rl_at = (\<lambda>r i. case r of I_list xs \<Rightarrow> if i < length xs then Ok (xs ! i) else Err ''RlpIsTooShort'' | _ \<Rightarrow> Err ''RlpExpectedToBeList''),
     rl_items = (\<lambda>r. case r of I_list xs \<Rightarrow> Ok xs | _ \<Rightarrow> Err ''RlpExpectedToBeList''),
     rl_item_count = (\<lambda>r. case r of I_list xs \<Rightarrow> Ok (length xs) | _ \<Rightarrow> Err ''RlpExpectedToBeList''),
     rl_is_empty = (\<lambda>r. r = I_string []),
     rl_u8 = (\<lambda>v. I_number (unat v)), un_u8 = item_number TYPE(8),
     rl_u32 = (\<lambda>v. I_number (unat v)), un_u32 = item_number TYPE(32),
     rl_u64 = (\<lambda>v. I_number (unat v)), un_u64 = item_number TYPE(64),
     rl_u256 = (\<lambda>v. I_number (unat v)), un_u256 = item_number TYPE(256),
     rl_h256 = I_h256, un_h256 = (\<lambda>r. case r of I_h256 h \<Rightarrow> Ok h | _ \<Rightarrow> Err ''RlpInvalidLength''),
     rl_h512 = I_h512, un_h512 = (\<lambda>r. case r of I_h512 h \<Rightarrow> Ok h | _ \<Rightarrow> Err ''RlpInvalidLength''),
     rl_h2048 = I_h2048, un_h2048 = (\<lambda>r. case r of I_h2048 h \<Rightarrow> Ok h | _ \<Rightarrow> Err ''RlpInvalidLength''),
     rl_address = I_address, un_address = (\<lambda>r. case r of I_address a \<Rightarrow> Ok a | _ \<Rightarrow> Err ''RlpInvalidLength''),
     rl_bytes = I_bytes, un_bytes = (\<lambda>r. case r of I_bytes b \<Rightarrow> Ok b | _ \<Rightarrow> Err ''RlpExpectedToBeData''),
     rl_string = I_string, un_string = (\<lambda>r. case r of I_string s \<Rightarrow> Ok s | _ \<Rightarrow> Err ''RlpExpectedToBeData''),
     rl_option = I_option, un_option = (\<lambda>r. case r of I_option x \<Rightarrow> Ok x | _ \<Rightarrow> Err ''RlpInvalidLength'')\<rparr>"

lemma item_number_same [simp]: "item_number TYPE('w::len) (I_number (unat (v :: 'w word))) = Ok v"
  by (simp add: item_number_def)

lemma item_number_wider: "LENGTH('v::len) \<le> LENGTH('w::len) \<Longrightarrow> item_number TYPE('w) (I_number (unat (v :: 'v word))) = Ok (ucast v)"
proof -
  assume le: "LENGTH('v) \<le> LENGTH('w)"
  have "unat v < 2 ^ LENGTH('w)"
    using unsigned_less [of v] le by (meson less_le_trans one_le_numeral power_increasing)
  then show ?thesis by (simp add: item_number_def unsigned_ucast_eq)
qed

lemma item_number_narrow: "unat (v :: u32) < 256 \<Longrightarrow> item_number TYPE(8) (I_number (unat v)) = Ok (ucast v)"
  by (simp add: item_number_def)

lemma sample_items_ok [simp]: "rlp_ok sample_items"
  by (simp add: rlp_ok_def sample_items_def item_number_narrow item_number_wider)

text \<open>The hexadecimal form of an address is a word of its own for each address.\<close>

definition sample_crypto :: crypto where
  "sample_crypto = \<lparr>
     pubkey_to_address = (\<lambda>p. ucast p), signature_bytes_len = 65,
     address_hex = (\<lambda>a. if a = store_addr then STORE_ADDRESS else replicate (41 + unat a) (CHR ''0'')),
     address_from_str = (\<lambda>s. if s = STORE_ADDRESS then Some store_addr
        else if length s < 41 then None else Some (of_nat (length s - 41)))\<rparr>"

lemma sample_crypto_ok [simp]: "crypto_ok sample_crypto"
proof -
  have "replicate (41 + n) (CHR ''0'') \<noteq> STORE_ADDRESS" for n
  proof
    assume "replicate (41 + n) (CHR ''0'') = STORE_ADDRESS"
    then have "length (replicate (41 + n) (CHR ''0'')) = length STORE_ADDRESS" by (rule arg_cong)
    then show False by (simp add: STORE_ADDRESS_def)
  qed
  then show ?thesis by (auto simp: crypto_ok_def sample_crypto_def STORE_ADDRESS_def)
qed

end
