(* ===== verification/Headers.thy ===== *)
theory Headers
  imports Transactions Receipts
begin

text \<open>
  Block headers (\<^verbatim>\<open>cita-executor/core/src/header.rs\<close>): the fields, the setters, the RLP encoding and the
  memoised hash. The proof of a header is a protobuf message, a type parameter with its codec. The
  invariant is that a memoised hash is the hash of the item the header was decoded from until a
  setter is called, and otherwise the hash of its encoding; the lemmas show that every operation
  keeps it, and that the two differ for a timestamp that \<open>decode\<close> cuts to 64 bits.
\<close>

section \<open>Data\<close>

record 'p Header =
  hdr_parent_hash :: h256
  hdr_timestamp :: u64
  hdr_number :: u64
  hdr_transactions_root :: h256
  hdr_state_root :: h256
  hdr_receipts_root :: h256
  hdr_log_bloom :: h2048
  hdr_gas_used :: u256
  hdr_gas_limit :: u256
  hdr_proof :: 'p
  hdr_hash :: "h256 option"
  hdr_version :: u32

text \<open>What a header needs of other crates: the RLP library with the bytes of an item (\<open>as_raw\<close>, \<open>out\<close>), the
  hash, the hash of the empty trie, and the message \<open>Proof\<close> with its codec.\<close>

record ('r, 'p) header_libs =
  hl_rlp :: "'r Rlp"
  hl_raw :: "'r \<Rightarrow> bytes"
  hl_crypt_hash :: "bytes \<Rightarrow> h256"
  hl_hash_null_rlp :: h256
  hl_proof_new :: 'p
  hl_proof_append :: "'p \<Rightarrow> 'r"
  hl_proof_decode :: "'r \<Rightarrow> 'p decoded"

definition header_libs_ok :: "('r, 'p) header_libs \<Rightarrow> bool" where
  "header_libs_ok H \<longleftrightarrow> rlp_ok (hl_rlp H) \<and> (\<forall>p. hl_proof_decode H (hl_proof_append H p) = Ok p)"

text \<open>\<open>PartialEq\<close> leaves out the memoised hash and the version.\<close>

definition Header_eq :: "'p Header \<Rightarrow> 'p Header \<Rightarrow> bool" where
  "Header_eq a c \<longleftrightarrow> hdr_parent_hash a = hdr_parent_hash c \<and> hdr_timestamp a = hdr_timestamp c \<and>
     hdr_number a = hdr_number c \<and> hdr_transactions_root a = hdr_transactions_root c \<and>
     hdr_state_root a = hdr_state_root c \<and> hdr_receipts_root a = hdr_receipts_root c \<and>
     hdr_log_bloom a = hdr_log_bloom c \<and> hdr_gas_used a = hdr_gas_used c \<and> hdr_gas_limit a = hdr_gas_limit c \<and>
     hdr_proof a = hdr_proof c"

definition Header_default :: "('r, 'p) header_libs \<Rightarrow> 'p Header" where
  "Header_default H = \<lparr>hdr_parent_hash = 0, hdr_timestamp = 0, hdr_number = 0, hdr_transactions_root = hl_hash_null_rlp H,
     hdr_state_root = hl_hash_null_rlp H, hdr_receipts_root = hl_hash_null_rlp H, hdr_log_bloom = 0, hdr_gas_used = 0,
     hdr_gas_limit = 2 ^ 64 - 1, hdr_proof = hl_proof_new H, hdr_hash = None, hdr_version = 0\<rparr>"

section \<open>Operations\<close>

text \<open>\<open>u64::max_value().into()\<close>.\<close>

definition u64_max_value :: u256 where
  "u64_max_value = 2 ^ 64 - 1"

definition note_dirty :: "'p Header \<Rightarrow> 'p Header" where
  "note_dirty h = h\<lparr>hdr_hash := None\<rparr>"

definition set_parent_hash :: "h256 \<Rightarrow> 'p Header \<Rightarrow> 'p Header" where
  "set_parent_hash a h = note_dirty (h\<lparr>hdr_parent_hash := a\<rparr>)"

definition set_state_root :: "h256 \<Rightarrow> 'p Header \<Rightarrow> 'p Header" where
  "set_state_root a h = note_dirty (h\<lparr>hdr_state_root := a\<rparr>)"

definition set_transactions_root :: "h256 \<Rightarrow> 'p Header \<Rightarrow> 'p Header" where
  "set_transactions_root a h = note_dirty (h\<lparr>hdr_transactions_root := a\<rparr>)"

definition set_receipts_root :: "h256 \<Rightarrow> 'p Header \<Rightarrow> 'p Header" where
  "set_receipts_root a h = note_dirty (h\<lparr>hdr_receipts_root := a\<rparr>)"

definition set_log_bloom :: "h2048 \<Rightarrow> 'p Header \<Rightarrow> 'p Header" where
  "set_log_bloom a h = note_dirty (h\<lparr>hdr_log_bloom := a\<rparr>)"

definition set_timestamp :: "u64 \<Rightarrow> 'p Header \<Rightarrow> 'p Header" where
  "set_timestamp a h = note_dirty (h\<lparr>hdr_timestamp := a\<rparr>)"

text \<open>The clock is an argument. The addition panics on the last timestamp there is.\<close>

definition set_timestamp_now :: "u64 \<Rightarrow> u64 \<Rightarrow> 'p Header \<Rightarrow> ('e, 'p Header) res" where
  "set_timestamp_now now but_later_than h =
     res_map (\<lambda>later. note_dirty (h\<lparr>hdr_timestamp := max now later\<rparr>)) (plus_chk but_later_than 1)"

definition set_number :: "u64 \<Rightarrow> 'p Header \<Rightarrow> 'p Header" where
  "set_number a h = note_dirty (h\<lparr>hdr_number := a\<rparr>)"

definition set_gas_used :: "u256 \<Rightarrow> 'p Header \<Rightarrow> 'p Header" where
  "set_gas_used a h = note_dirty (h\<lparr>hdr_gas_used := a\<rparr>)"

definition set_gas_limit :: "u256 \<Rightarrow> 'p Header \<Rightarrow> 'p Header" where
  "set_gas_limit a h = note_dirty (h\<lparr>hdr_gas_limit := a\<rparr>)"

definition set_version :: "u32 \<Rightarrow> 'p Header \<Rightarrow> 'p Header" where
  "set_version a h = note_dirty (h\<lparr>hdr_version := a\<rparr>)"

definition set_proof :: "'p \<Rightarrow> 'p Header \<Rightarrow> 'p Header" where
  "set_proof a h = note_dirty (h\<lparr>hdr_proof := a\<rparr>)"

definition stream_rlp :: "('r, 'p) header_libs \<Rightarrow> 'p Header \<Rightarrow> 'r" where
  "stream_rlp H h = (let R = hl_rlp H in rl_list R
     [rl_h256 R (hdr_parent_hash h), rl_h256 R (hdr_state_root h), rl_h256 R (hdr_transactions_root h),
      rl_h256 R (hdr_receipts_root h), rl_h2048 R (hdr_log_bloom h), rl_u64 R (hdr_number h),
      rl_u256 R (hdr_gas_limit h), rl_u256 R (hdr_gas_used h), rl_u64 R (hdr_timestamp h), rl_u32 R (hdr_version h),
      hl_proof_append H (hdr_proof h)])"

definition Header_rlp :: "('r, 'p) header_libs \<Rightarrow> 'p Header \<Rightarrow> bytes" where
  "Header_rlp H h = hl_raw H (stream_rlp H h)"

definition rlp_hash :: "('r, 'p) header_libs \<Rightarrow> 'p Header \<Rightarrow> h256" where
  "rlp_hash H h = hl_crypt_hash H (Header_rlp H h)"

definition Header_hash :: "('r, 'p) header_libs \<Rightarrow> 'p Header \<Rightarrow> h256 \<times> 'p Header" where
  "Header_hash H self =
     (case hdr_hash self of
        Some h \<Rightarrow> (h, self)
      | None \<Rightarrow> let h = rlp_hash H self in (h, self\<lparr>hdr_hash := Some h\<rparr>))"

definition Header_decode :: "('r, 'p) header_libs \<Rightarrow> 'r \<Rightarrow> 'p Header decoded" where
  "Header_decode H r = (let R = hl_rlp H in
     res_bind (val_at R (un_h256 R) r 0) (\<lambda>parent_hash.
     res_bind (val_at R (un_h256 R) r 1) (\<lambda>state_root.
     res_bind (val_at R (un_h256 R) r 2) (\<lambda>transactions_root.
     res_bind (val_at R (un_h256 R) r 3) (\<lambda>receipts_root.
     res_bind (val_at R (un_h2048 R) r 4) (\<lambda>log_bloom.
     res_bind (val_at R (un_u64 R) r 5) (\<lambda>number.
     res_bind (val_at R (un_u256 R) r 6) (\<lambda>gas_limit.
     res_bind (val_at R (un_u256 R) r 7) (\<lambda>gas_used.
     res_bind (val_at R (un_u256 R) r 8) (\<lambda>timestamp.
     res_bind (as_u64 (min timestamp u64_max_value)) (\<lambda>timestamp.
     res_bind (val_at R (un_u32 R) r 9) (\<lambda>version.
     res_bind (val_at R (hl_proof_decode H) r 10) (\<lambda>proof.
     Ok \<lparr>hdr_parent_hash = parent_hash, hdr_timestamp = timestamp, hdr_number = number,
         hdr_transactions_root = transactions_root, hdr_state_root = state_root, hdr_receipts_root = receipts_root,
         hdr_log_bloom = log_bloom, hdr_gas_used = gas_used, hdr_gas_limit = gas_limit, hdr_proof = proof,
         hdr_hash = Some (hl_crypt_hash H (hl_raw H r)), hdr_version = version\<rparr>)))))))))))))"

section \<open>The memoised hash\<close>

text \<open>A header as the code makes one: new or decoded from any item, and then any sequence of
  operations. The item that it was decoded from is kept along until a setter is called.\<close>

inductive made :: "('r, 'p) header_libs \<Rightarrow> 'r option \<Rightarrow> 'p Header \<Rightarrow> bool" for H where
  made_default: "made H None (Header_default H)"
| made_decode: "Header_decode H r = Ok h \<Longrightarrow> made H (Some r) h"
| made_hash: "made H src h \<Longrightarrow> made H src (snd (Header_hash H h))"
| made_parent_hash: "made H src h \<Longrightarrow> made H None (set_parent_hash a h)"
| made_state_root: "made H src h \<Longrightarrow> made H None (set_state_root a h)"
| made_transactions_root: "made H src h \<Longrightarrow> made H None (set_transactions_root a h)"
| made_receipts_root: "made H src h \<Longrightarrow> made H None (set_receipts_root a h)"
| made_log_bloom: "made H src h \<Longrightarrow> made H None (set_log_bloom b h)"
| made_timestamp: "made H src h \<Longrightarrow> made H None (set_timestamp t h)"
| made_timestamp_now: "made H src h \<Longrightarrow> set_timestamp_now now t h = (Ok h' :: (string, 'p Header) res) \<Longrightarrow> made H None h'"
| made_number: "made H src h \<Longrightarrow> made H None (set_number t h)"
| made_gas_used: "made H src h \<Longrightarrow> made H None (set_gas_used a h)"
| made_gas_limit: "made H src h \<Longrightarrow> made H None (set_gas_limit a h)"
| made_version: "made H src h \<Longrightarrow> made H None (set_version v h)"
| made_proof: "made H src h \<Longrightarrow> made H None (set_proof p h)"

text \<open>The memoised hash is that of the item the header was decoded from, and otherwise that of its
  encoding.\<close>

definition due_hash :: "('r, 'p) header_libs \<Rightarrow> 'r option \<Rightarrow> 'p Header \<Rightarrow> h256" where
  "due_hash H src h = (case src of None \<Rightarrow> rlp_hash H h | Some r \<Rightarrow> hl_crypt_hash H (hl_raw H r))"

definition memo_ok :: "('r, 'p) header_libs \<Rightarrow> 'r option \<Rightarrow> 'p Header \<Rightarrow> bool" where
  "memo_ok H src h \<longleftrightarrow> hdr_hash h = Some (due_hash H src h) \<or> hdr_hash h = None \<and> src = None"

lemma memo_note_dirty [simp]: "memo_ok H None (note_dirty h)"
  by (simp add: memo_ok_def note_dirty_def)

lemma rlp_hash_memo [simp]: "rlp_hash H (h\<lparr>hdr_hash := m\<rparr>) = rlp_hash H h"
  by (simp add: rlp_hash_def Header_rlp_def stream_rlp_def)

lemma Header_hash_memo:
  assumes "memo_ok H src h"
  shows "fst (Header_hash H h) = due_hash H src h" "memo_ok H src (snd (Header_hash H h))" "Header_eq (snd (Header_hash H h)) h"
  using assms by (auto simp: Header_hash_def memo_ok_def due_hash_def Let_def Header_eq_def split: option.splits)

lemma Header_decode_memo: "Header_decode H r = Ok h \<Longrightarrow> hdr_hash h = Some (hl_crypt_hash H (hl_raw H r))"
  by (auto simp: Header_decode_def Let_def)

lemmas header_setters = set_parent_hash_def set_state_root_def set_transactions_root_def set_receipts_root_def
  set_log_bloom_def set_timestamp_def set_timestamp_now_def set_number_def set_gas_used_def set_gas_limit_def
  set_version_def set_proof_def

lemma timestamp_decoded: "as_u64 (min (ucast (t :: u64)) u64_max_value) = Ok t"
proof -
  have u: "unat (ucast t :: u256) = unat t" by (rule unat_ucast_up) simp
  have m: "unat u64_max_value = 2 ^ 64 - 1" by (simp add: u64_max_value_def)
  have t: "unat t < 2 ^ 64" using unsigned_less [of t, where ?'a = nat] by simp
  then have "(ucast t :: u256) \<le> u64_max_value" unfolding word_le_nat_alt u m by simp
  moreover have "(ucast (ucast t :: u256) :: u64) = t"
    using low_u64_small [of "ucast t"] u t by (simp add: word_unat_eq_iff low_u64_def)
  ultimately show ?thesis using u t by (simp add: min_absorb1 as_u64_def)
qed

lemma Header_decode_append:
  "header_libs_ok H \<Longrightarrow> Header_decode H (stream_rlp H h) = Ok (h\<lparr>hdr_hash := Some (rlp_hash H h)\<rparr>)"
  by (simp add: header_libs_ok_def Header_decode_def rlp_hash_def Header_rlp_def stream_rlp_def Let_def rlp_simps
      timestamp_decoded)

interpretation header: codec "stream_rlp H" "Header_decode H" "\<lambda>h. header_libs_ok H \<and> hdr_hash h = Some (rlp_hash H h)" for H
  by unfold_locales (auto simp: Header_decode_append)

lemma made_memo_ok: "made H src h \<Longrightarrow> memo_ok H src h"
proof (induction rule: made.induct)
  case made_default
  show ?case by (simp add: memo_ok_def Header_default_def)
next
  case (made_decode r h)
  then show ?case by (simp add: memo_ok_def due_hash_def Header_decode_memo)
qed (auto simp: header_setters Header_hash_memo)

lemma made_decoded: "made H src h \<Longrightarrow> src = Some r \<Longrightarrow> Header_decode H r = Ok h"
proof (induction rule: made.induct)
  case (made_hash src h)
  then show ?case by (simp add: Header_hash_def Header_decode_memo)
qed simp_all

text \<open>The item of a header whose timestamp takes more than 64 bits, as another node may send it.\<close>

definition long_timestamp_item :: "('r, 'p) header_libs \<Rightarrow> 'p Header \<Rightarrow> u256 \<Rightarrow> 'r" where
  "long_timestamp_item H h t = (let R = hl_rlp H in rl_list R
     [rl_h256 R (hdr_parent_hash h), rl_h256 R (hdr_state_root h), rl_h256 R (hdr_transactions_root h),
      rl_h256 R (hdr_receipts_root h), rl_h2048 R (hdr_log_bloom h), rl_u64 R (hdr_number h),
      rl_u256 R (hdr_gas_limit h), rl_u256 R (hdr_gas_used h), rl_u256 R t, rl_u32 R (hdr_version h),
      hl_proof_append H (hdr_proof h)])"

lemma timestamp_clamped: "2 ^ 64 \<le> unat t \<Longrightarrow> as_u64 (min t u64_max_value) = Ok (2 ^ 64 - 1)"
proof -
  assume "2 ^ 64 \<le> unat t"
  then have "u64_max_value \<le> t" unfolding word_le_nat_alt by (simp add: u64_max_value_def)
  then have "min t u64_max_value = u64_max_value" by (rule min_absorb2)
  then show ?thesis by (simp add: as_u64_def u64_max_value_def)
qed

lemma decode_long_timestamp:
  "header_libs_ok H \<Longrightarrow> 2 ^ 64 \<le> unat t \<Longrightarrow> Header_decode H (long_timestamp_item H h t) =
     Ok (h\<lparr>hdr_timestamp := 2 ^ 64 - 1, hdr_hash := Some (hl_crypt_hash H (hl_raw H (long_timestamp_item H h t)))\<rparr>)"
  by (simp add: header_libs_ok_def Header_decode_def long_timestamp_item_def Let_def rlp_simps timestamp_clamped)

end
