(* ===== verification/Filters.thy ===== *)
theory Filters
  imports Receipts Trace
begin

text \<open>
  Filters over logs (\<^verbatim>\<open>cita-chain/types/src/filter.rs\<close>) and over traces
  (\<^verbatim>\<open>cita-executor/core/src/trace/types/filter.rs\<close>), and the bloom filters of traces (\<^verbatim>\<open>trace.rs\<close>, \<^verbatim>\<open>flat.rs\<close>).
  A query first looks for blocks whose bloom filter contains one of the \<open>bloom_possibilities\<close> and then
  matches what is in them. The lemmas show that the first step misses nothing the second would find,
  except for a log filter with an empty list of topics.
\<close>

section \<open>Bloom filters\<close>

text \<open>What the crate \<open>bloomable\<close> promises: adding a hash sets the bits of the hash and no other.\<close>

definition bloom_ok :: "('d, 'm, 'l) Libs \<Rightarrow> bool" where
  "bloom_ok L \<longleftrightarrow> (\<forall>b h. with_bloomed L b h = b OR with_bloomed L 0 h)"

definition contains_bloom :: "h2048 \<Rightarrow> h2048 \<Rightarrow> bool" where
  "contains_bloom self b \<longleftrightarrow> self AND b = b"

lemma contains_bloom_simps [simp]:
  "contains_bloom c 0" "contains_bloom c c" "contains_bloom c (a OR b) \<longleftrightarrow> contains_bloom c a \<and> contains_bloom c b"
  by (auto simp: contains_bloom_def bit_eq_iff bit_and_iff bit_or_iff)

lemma contains_bloom_or: "contains_bloom c b \<Longrightarrow> contains_bloom (c OR d) b" "contains_bloom d b \<Longrightarrow> contains_bloom (c OR d) b"
  by (auto simp: contains_bloom_def bit_eq_iff bit_and_iff bit_or_iff)

lemma contains_bloom_trans: "contains_bloom c b \<Longrightarrow> contains_bloom b a \<Longrightarrow> contains_bloom c a"
  by (auto simp: contains_bloom_def bit_eq_iff bit_and_iff)

lemma contains_with_bloomed:
  "bloom_ok L \<Longrightarrow> contains_bloom c (with_bloomed L b h) \<longleftrightarrow> contains_bloom c b \<and> contains_bloom c (from_bloomed L h)"
proof -
  assume "bloom_ok L"
  then have "with_bloomed L b h = b OR from_bloomed L h" unfolding bloom_ok_def from_bloomed_def by blast
  then show ?thesis by simp
qed

text \<open>A bloom filter that is the union of others contains each of them.\<close>

lemma contains_fold_start: "contains_bloom c b \<Longrightarrow> contains_bloom (foldl (\<lambda>b x. b OR f x) c xs) b"
  by (induction xs arbitrary: c) (simp_all add: contains_bloom_or)

lemma contains_fold_or: "x \<in> set xs \<Longrightarrow> contains_bloom (foldl (\<lambda>b x. b OR f x) c xs) (f x)"
  by (induction xs arbitrary: c) (auto simp: contains_bloom_or contains_fold_start)

section \<open>Log filters\<close>

datatype BlockId = BlockId_Hash h256 | BlockId_Number u64 | Earliest | Latest

record Filter =
  fl_from_block :: BlockId
  fl_to_block :: BlockId
  fl_address :: "address list option"
  fl_topics :: "h256 list option list"
  fl_limit :: "nat option"

text \<open>\<open>Clone\<close> copies the first four topics and panics where there are fewer.\<close>

definition Filter_clone :: "Filter \<Rightarrow> ('e, Filter) res" where
  "Filter_clone f = (if length (fl_topics f) < 4 then Panic else Ok (f\<lparr>fl_topics := take 4 (fl_topics f)\<rparr>))"

definition hash_address :: "('d, 'm, 'l) Libs \<Rightarrow> address \<Rightarrow> h256" where
  "hash_address L a = crypt_hash L (address_bytes a)"

definition hash_topic :: "('d, 'm, 'l) Libs \<Rightarrow> h256 \<Rightarrow> h256" where
  "hash_topic L t = crypt_hash L (h256_bytes t)"

definition possibilities_topic :: "('d, 'm, 'l) Libs \<Rightarrow> h2048 list \<Rightarrow> h256 list option \<Rightarrow> h2048 list" where
  "possibilities_topic L bs topic =
     (case topic of None \<Rightarrow> bs
      | Some topics \<Rightarrow> concat (map (\<lambda>bloom. map (\<lambda>topic. with_bloomed L bloom (hash_topic L topic)) topics) bs))"

definition Filter_bloom_possibilities :: "('d, 'm, 'l) Libs \<Rightarrow> Filter \<Rightarrow> h2048 list" where
  "Filter_bloom_possibilities L f =
     (let blooms = (case fl_address f of
         Some addresses \<Rightarrow> if addresses \<noteq> [] then map (\<lambda>address. with_bloomed L 0 (hash_address L address)) addresses else [0]
       | None \<Rightarrow> [0]) in
      foldl (possibilities_topic L) blooms (fl_topics f))"

definition Filter_matches :: "Filter \<Rightarrow> LogEntry \<Rightarrow> bool" where
  "Filter_matches f log \<longleftrightarrow>
     (case fl_address f of
        Some addresses \<Rightarrow> if addresses \<noteq> [] then list_ex (\<lambda>address. le_address log = address) addresses else True
      | None \<Rightarrow> True) \<and>
     list_all (\<lambda>(i, topic). case topic of
        Some topics \<Rightarrow> if topics \<noteq> []
          then list_ex (\<lambda>topic. i < length (le_topics log) \<and> le_topics log ! i = topic) topics else True
      | None \<Rightarrow> True) (List.enumerate 0 (fl_topics f))"

text \<open>The bloom filter of a log entry has its address and its topics, and that of a receipt those of
  its log entries.\<close>

lemma contains_topics:
  "bloom_ok L \<Longrightarrow> contains_bloom c (foldl (\<lambda>b t. with_bloomed L b (h t)) d ts) \<longleftrightarrow>
     contains_bloom c d \<and> (\<forall>t\<in>set ts. contains_bloom c (from_bloomed L (h t)))"
  by (induction ts arbitrary: d) (auto simp: contains_with_bloomed)

lemma LogEntry_bloom_contains:
  assumes "bloom_ok L" "contains_bloom c (LogEntry_bloom L log)"
  shows "contains_bloom c (from_bloomed L (hash_address L (le_address log)))"
    "t \<in> set (le_topics log) \<Longrightarrow> contains_bloom c (from_bloomed L (hash_topic L t))"
  using assms contains_topics [OF assms(1), where h = "\<lambda>t. crypt_hash L (h256_bytes t)"]
  by (auto simp: LogEntry_bloom_def hash_address_def hash_topic_def)

lemma Receipt_bloom_contains:
  "log \<in> set logs \<Longrightarrow> contains_bloom (rc_log_bloom (Receipt_new L root gas logs err nonce)) (LogEntry_bloom L log)"
  by (simp add: Receipt_new_def contains_fold_or)

text \<open>Each topic of the filter keeps a possibility that the bloom filter contains.\<close>

lemma possibilities_topic_contains:
  assumes "bloom_ok L" "b \<in> set bs" "contains_bloom c b"
    "\<And>ts. topic = Some ts \<Longrightarrow> \<exists>t\<in>set ts. contains_bloom c (from_bloomed L (hash_topic L t))"
  shows "\<exists>b\<in>set (possibilities_topic L bs topic). contains_bloom c b"
proof (cases topic)
  case (Some ts)
  then obtain t where "t \<in> set ts" "contains_bloom c (from_bloomed L (hash_topic L t))" using assms(4) by blast
  then show ?thesis using Some assms(2,3) contains_with_bloomed [OF assms(1)]
    by (auto simp: possibilities_topic_def intro!: bexI [of _ b] bexI [of _ t])
qed (use assms in \<open>auto simp: possibilities_topic_def\<close>)

lemma possibilities_contains:
  assumes "bloom_ok L" "\<exists>b\<in>set bs. contains_bloom c b"
    "\<And>ts. Some ts \<in> set topics \<Longrightarrow> \<exists>t\<in>set ts. contains_bloom c (from_bloomed L (hash_topic L t))"
  shows "\<exists>b\<in>set (foldl (possibilities_topic L) bs topics). contains_bloom c b"
  using assms(2,3)
proof (induction topics arbitrary: bs)
  case (Cons topic topics)
  then have "\<exists>b\<in>set (possibilities_topic L bs topic). contains_bloom c b"
    using possibilities_topic_contains [OF assms(1)] by auto
  then show ?case using Cons by simp
qed simp

lemma Filter_topic_matches:
  assumes "Filter_matches f log" "Some ts \<in> set (fl_topics f)" "ts \<noteq> []"
  shows "\<exists>t\<in>set ts. t \<in> set (le_topics log)"
proof -
  obtain i where "i < length (fl_topics f)" "fl_topics f ! i = Some ts" using assms(2) by (metis in_set_conv_nth)
  then have i: "(i, Some ts) \<in> set (List.enumerate 0 (fl_topics f))" by (simp add: in_set_enumerate_eq)
  show ?thesis using bspec [OF conjunct2 [OF assms(1) [unfolded Filter_matches_def list_all_iff]] i] assms(3)
    by (auto simp: list_ex_iff intro!: bexI [of _ "le_topics log ! i"])
qed

lemma Filter_bloom_sound:
  assumes L: "bloom_ok L" and m: "Filter_matches f log" and ne: "Some [] \<notin> set (fl_topics f)"
    and c: "contains_bloom c (LogEntry_bloom L log)"
  shows "\<exists>b\<in>set (Filter_bloom_possibilities L f). contains_bloom c b"
proof -
  note parts = LogEntry_bloom_contains [OF L c]
  let ?blooms = "case fl_address f of Some as \<Rightarrow> if as \<noteq> [] then map (\<lambda>a. with_bloomed L 0 (hash_address L a)) as else [0] | None \<Rightarrow> [0]"
  have "\<exists>b\<in>set ?blooms. contains_bloom c b"
    using m parts(1) by (auto simp: Filter_matches_def from_bloomed_def list_ex_iff split: option.splits if_splits)
  moreover have "\<exists>t\<in>set ts. contains_bloom c (from_bloomed L (hash_topic L t))" if "Some ts \<in> set (fl_topics f)" for ts
    using Filter_topic_matches [OF m that] ne that parts(2) by fastforce
  ultimately show ?thesis
    unfolding Filter_bloom_possibilities_def Let_def by (rule possibilities_contains [OF L])
qed

text \<open>An empty list of topics matches every log but leaves no possibility.\<close>

lemma possibilities_topic_Nil [simp]: "possibilities_topic L [] topic = []" "possibilities_topic L bs (Some []) = []"
  by (simp_all add: possibilities_topic_def split: option.splits)

lemma possibilities_none: "foldl (possibilities_topic L) [] topics = []"
  by (induction topics) simp_all

lemma possibilities_empty: "Some [] \<in> set topics \<Longrightarrow> foldl (possibilities_topic L) bs topics = []"
  by (induction topics arbitrary: bs) (auto simp: possibilities_none)

section \<open>Bloom filters of traces\<close>

definition CreateResult_bloom :: "('d, 'm, 'l) Libs \<Rightarrow> CreateResult \<Rightarrow> h2048" where
  "CreateResult_bloom L r = from_bloomed L (hash_address L (cre_address r))"

definition Call_bloom :: "('d, 'm, 'l) Libs \<Rightarrow> TraceCall \<Rightarrow> h2048" where
  "Call_bloom L c = with_bloomed L (from_bloomed L (hash_address L (tc_from c))) (hash_address L (tc_to c))"

definition Create_bloom :: "('d, 'm, 'l) Libs \<Rightarrow> TraceCreate \<Rightarrow> h2048" where
  "Create_bloom L c = from_bloomed L (hash_address L (tcr_from c))"

definition Suicide_bloom :: "('d, 'm, 'l) Libs \<Rightarrow> TraceSuicide \<Rightarrow> h2048" where
  "Suicide_bloom L s = with_bloomed L (from_bloomed L (hash_address L (ts_address s))) (hash_address L (ts_refund_address s))"

definition Action_bloom :: "('d, 'm, 'l) Libs \<Rightarrow> TraceAction \<Rightarrow> h2048" where
  "Action_bloom L a =
     (case a of ActCall call \<Rightarrow> Call_bloom L call | ActCreate create \<Rightarrow> Create_bloom L create
      | ActSuicide suicide \<Rightarrow> Suicide_bloom L suicide)"

definition Res_bloom :: "('d, 'm, 'l) Libs \<Rightarrow> TraceRes \<Rightarrow> h2048" where
  "Res_bloom L r = (case r of ResCreate create \<Rightarrow> CreateResult_bloom L create | _ \<Rightarrow> 0)"

definition FlatTrace_bloom :: "('d, 'm, 'l) Libs \<Rightarrow> FlatTrace \<Rightarrow> h2048" where
  "FlatTrace_bloom L t = Action_bloom L (ft_action t) OR Res_bloom L (ft_result t)"

text \<open>\<open>FlatTransactionTraces\<close> and \<open>FlatBlockTraces\<close> wrap lists.\<close>

definition FlatTransactionTraces_bloom :: "('d, 'm, 'l) Libs \<Rightarrow> FlatTrace list \<Rightarrow> h2048" where
  "FlatTransactionTraces_bloom L ts = foldl (\<lambda>bloom trace. bloom OR FlatTrace_bloom L trace) 0 ts"

definition FlatBlockTraces_bloom :: "('d, 'm, 'l) Libs \<Rightarrow> FlatTrace list list \<Rightarrow> h2048" where
  "FlatBlockTraces_bloom L bs = foldl (\<lambda>bloom tx_traces. bloom OR FlatTransactionTraces_bloom L tx_traces) 0 bs"

section \<open>Trace filters\<close>

record AddressesFilter =
  af_list :: "address list"

definition AddressesFilter_matches_all :: "AddressesFilter \<Rightarrow> bool" where
  "AddressesFilter_matches_all f \<longleftrightarrow> af_list f = []"

definition AddressesFilter_matches :: "AddressesFilter \<Rightarrow> address \<Rightarrow> bool" where
  "AddressesFilter_matches f address \<longleftrightarrow> AddressesFilter_matches_all f \<or> address \<in> set (af_list f)"

definition AddressesFilter_blooms :: "('d, 'm, 'l) Libs \<Rightarrow> AddressesFilter \<Rightarrow> h2048 list" where
  "AddressesFilter_blooms L f =
     (if af_list f = [] then [0] else map (\<lambda>address. from_bloomed L (hash_address L address)) (af_list f))"

definition AddressesFilter_with_blooms :: "('d, 'm, 'l) Libs \<Rightarrow> AddressesFilter \<Rightarrow> h2048 list \<Rightarrow> h2048 list" where
  "AddressesFilter_with_blooms L f blooms =
     (if af_list f = [] then blooms
      else concat (map (\<lambda>bloom. map (\<lambda>address. with_bloomed L bloom (hash_address L address)) (af_list f)) blooms))"

record TraceFilter =
  tfl_range :: "nat \<times> nat"
  tfl_from_address :: AddressesFilter
  tfl_to_address :: AddressesFilter

definition TraceFilter_bloom_possibilities :: "('d, 'm, 'l) Libs \<Rightarrow> TraceFilter \<Rightarrow> h2048 list" where
  "TraceFilter_bloom_possibilities L f =
     AddressesFilter_with_blooms L (tfl_to_address f) (AddressesFilter_blooms L (tfl_from_address f))"

definition TraceFilter_matches :: "TraceFilter \<Rightarrow> FlatTrace \<Rightarrow> bool" where
  "TraceFilter_matches f trace =
     (case ft_action trace of
        ActCall call \<Rightarrow>
          AddressesFilter_matches (tfl_from_address f) (tc_from call) \<and>
          AddressesFilter_matches (tfl_to_address f) (tc_to call)
      | ActCreate create \<Rightarrow>
          AddressesFilter_matches (tfl_from_address f) (tcr_from create) \<and>
          (case ft_result trace of
             ResCreate create_result \<Rightarrow> AddressesFilter_matches (tfl_to_address f) (cre_address create_result)
           | _ \<Rightarrow> False)
      | ActSuicide suicide \<Rightarrow>
          AddressesFilter_matches (tfl_from_address f) (ts_address suicide) \<and>
          AddressesFilter_matches (tfl_to_address f) (ts_refund_address suicide))"

lemma addresses_blooms:
  assumes "bloom_ok L" "AddressesFilter_matches fr a" "AddressesFilter_matches to b"
    "contains_bloom c (from_bloomed L (hash_address L a))" "contains_bloom c (from_bloomed L (hash_address L b))"
  shows "\<exists>p\<in>set (AddressesFilter_with_blooms L to (AddressesFilter_blooms L fr)). contains_bloom c p"
proof -
  have "\<exists>p\<in>set (AddressesFilter_blooms L fr). contains_bloom c p"
    using assms(2,4)
    by (auto simp: AddressesFilter_matches_def AddressesFilter_matches_all_def AddressesFilter_blooms_def intro: bexI [of _ a])
  then obtain p where p: "p \<in> set (AddressesFilter_blooms L fr)" "contains_bloom c p" by blast
  show ?thesis
  proof (cases "af_list to = []")
    case False
    then have "b \<in> set (af_list to)" using assms(3) by (simp add: AddressesFilter_matches_def AddressesFilter_matches_all_def)
    then show ?thesis using False p assms(5) contains_with_bloomed [OF assms(1)]
      by (auto simp: AddressesFilter_with_blooms_def intro!: bexI [of _ p] bexI [of _ b])
  qed (use p in \<open>auto simp: AddressesFilter_with_blooms_def\<close>)
qed

text \<open>A trace that matches names two addresses that its bloom filter has.\<close>

lemma TraceFilter_addresses:
  assumes "bloom_ok L" "TraceFilter_matches f t" "contains_bloom c (FlatTrace_bloom L t)"
  obtains a b where "AddressesFilter_matches (tfl_from_address f) a" "AddressesFilter_matches (tfl_to_address f) b"
    "contains_bloom c (from_bloomed L (hash_address L a))" "contains_bloom c (from_bloomed L (hash_address L b))"
  using assms(2,3) contains_with_bloomed [OF assms(1)]
  by (auto simp: TraceFilter_matches_def FlatTrace_bloom_def Action_bloom_def Res_bloom_def Call_bloom_def Create_bloom_def
      Suicide_bloom_def CreateResult_bloom_def split: TraceAction.splits TraceRes.splits)

lemma TraceFilter_bloom_sound:
  assumes "bloom_ok L" "TraceFilter_matches f t" "contains_bloom c (FlatTrace_bloom L t)"
  shows "\<exists>p\<in>set (TraceFilter_bloom_possibilities L f). contains_bloom c p"
  unfolding TraceFilter_bloom_possibilities_def
  by (rule TraceFilter_addresses [OF assms]) (rule addresses_blooms [OF assms(1)])

lemma FlatBlockTraces_contains:
  assumes "ts \<in> set bs" "t \<in> set ts"
  shows "contains_bloom (FlatBlockTraces_bloom L bs) (FlatTrace_bloom L t)"
  using contains_fold_or [OF assms(1), of "FlatTransactionTraces_bloom L" 0] contains_fold_or [OF assms(2), of "FlatTrace_bloom L" 0]
  unfolding FlatBlockTraces_bloom_def FlatTransactionTraces_bloom_def by (rule contains_bloom_trans)

end
