(* ===== verification/Codec_Properties.thy ===== *)
theory Codec_Properties
  imports Sample_Items Headers Filters Sample_Node
begin

text \<open>
  The properties of the encodings, of the memoised hash of a header and of the filters, each with an
  instance over the sample items.
\<close>

definition sample_header_libs :: "(item, unit) header_libs" where
  "sample_header_libs = \<lparr>hl_rlp = sample_items, hl_raw = (\<lambda>i. case i of I_list xs \<Rightarrow> replicate (length xs) 0 | _ \<Rightarrow> []),
     hl_crypt_hash = sample_hash, hl_hash_null_rlp = 1, hl_proof_new = (), hl_proof_append = (\<lambda>_. I_bytes []),
     hl_proof_decode = (\<lambda>_. Ok ())\<rparr>"

lemma sample_header_libs_ok [simp]: "header_libs_ok sample_header_libs"
  by (simp add: header_libs_ok_def sample_header_libs_def)

lemma sample_bloom_ok [simp]: "bloom_ok sample_libs"
  by (simp add: bloom_ok_def sample_libs_def)

definition sample_trace :: FlatTrace where
  "sample_trace = \<lparr>ft_action = ActCall \<lparr>tc_from = 1, tc_to = 2, tc_value = 0, tc_gas = 0, tc_input = [], tc_call_type = CT_Call\<rparr>,
     ft_result = ResNone, ft_subtraces = 0, ft_trace_address = [4, 5]\<rparr>"

section \<open>Encodings\<close>

text \<open>C34: A receipt is read back from its encoding as it was exactly where it has no error or one of the
  first five errors of the list. The decoder has no number for running out of gas, so from there on
  every error is read as the one after it, and the last one is not read at all.\<close>

theorem receipt_encoding_exact:
  assumes "rlp_ok R"
  shows "(Receipt_decode R (Receipt_append R r) = Ok r \<longleftrightarrow> pred_option (\<lambda>e. ReceiptError_as_u8 e < 5) (rc_error r)) \<and>
    Receipt_decode R (Receipt_append R (r\<lparr>rc_error := Some RE_OutOfGas\<rparr>)) = Ok (r\<lparr>rc_error := Some RE_BadJumpDestination\<rparr>) \<and>
    Receipt_decode R (Receipt_append R (r\<lparr>rc_error := Some RE_Internal\<rparr>)) = Err ''Unknown Receipt error.''"
  unfolding Receipt_decode_append [OF assms] receipt_read_same by (simp add: receipt_read_def)

theorem receipt_encoding_exact_witness:
  "Receipt_decode sample_items (Receipt_append sample_items (Receipt_new sample_libs (Some 1) 21000 [] None 0)) =
     Ok (Receipt_new sample_libs (Some 1) 21000 [] None 0)"
  using receipt_encoding_exact [of sample_items "Receipt_new sample_libs (Some 1) 21000 [] None 0"] by simp

text \<open>C19: A signed transaction comes back from its RLP encoding as it was, up to its sender, which is
  recomputed from the public key, and to a call of the storing address, which is read as a store. It
  comes back from its protobuf message the same way, except that the message has no gas price, no
  value and no account nonce; no other field is lost.\<close>

theorem transaction_encodings_exact:
  assumes "rlp_ok R" "crypto_ok C" "unat (tx_gas_limit t) < 2 ^ 64" "length (tx_signature t) = signature_bytes_len C"
  shows "SignedTransaction_decode C R (SignedTransaction_append R t) =
      Ok (t\<lparr>tx_action := action_read (tx_action t), tx_sender := pubkey_to_address C (tx_public t)\<rparr>) \<and>
    res_bind (SignedTransaction_protobuf C t) (SignedTransaction_new C) =
      Ok (t\<lparr>tx_gas_price := 0, tx_value := 0, tx_action := action_read (tx_action t),
           tx_sender := pubkey_to_address C (tx_public t), tx_account_nonce := 0\<rparr>)"
  using SignedTransaction_decode_append [OF assms(1)] SignedTransaction_new_protobuf [OF assms(2-4)] by simp

theorem transaction_encodings_exact_witness:
  "let t = sample_tx\<lparr>tx_signature := replicate 65 1, tx_public := 7\<rparr> in
    SignedTransaction_decode sample_crypto sample_items (SignedTransaction_append sample_items t) = Ok t \<and>
    res_bind (SignedTransaction_protobuf sample_crypto t) (SignedTransaction_new sample_crypto) = Ok (t\<lparr>tx_gas_price := 0\<rparr>)"
proof -
  let ?t = "sample_tx\<lparr>tx_signature := replicate 65 1, tx_public := 7\<rparr>"
  have a: "action_read (tx_action ?t) = tx_action ?t" by (simp add: sample_tx_def action_read_def plain_action_def)
  have b: "unat (tx_gas_limit ?t) < 2 ^ 64" "length (tx_signature ?t) = signature_bytes_len sample_crypto"
    by (simp_all add: sample_tx_def sample_crypto_def)
  have c: "?t\<lparr>tx_sender := pubkey_to_address sample_crypto (tx_public ?t)\<rparr> = ?t"
    "?t\<lparr>tx_gas_price := 0, tx_value := 0, tx_sender := pubkey_to_address sample_crypto (tx_public ?t), tx_account_nonce := 0\<rparr> =
      ?t\<lparr>tx_gas_price := 0\<rparr>"
    by (simp_all add: sample_tx_def sample_crypto_def)
  have d: "?t\<lparr>tx_action := tx_action ?t\<rparr> = ?t"
     "?t\<lparr>tx_gas_price := 0, tx_value := 0, tx_action := tx_action ?t\<rparr> = ?t\<lparr>tx_gas_price := 0, tx_value := 0\<rparr>" by simp_all
  show ?thesis
    using transaction_encodings_exact [OF sample_items_ok sample_crypto_ok b] unfolding a d c Let_def by blast
qed

text \<open>C21: The traces of a block and the trace of the virtual machine are read back from their encodings as
  they were; the reader of the nested trace ends once it may descend as deep as the trace is nested.\<close>

theorem trace_encodings_roundtrip:
  assumes "rlp_ok R" "list_all (list_all trace_fits) bs" "vm_trace_fits t" "nesting t \<le> n"
  shows "FlatBlockTraces_decode R (FlatBlockTraces_append R bs) = Ok bs \<and> VMTrace_decode R n (VMTrace_append R t) = Ok t"
  using block_traces.decode_append [of R bs] VMTrace_decode_append [of R t n] assms by blast

theorem trace_encodings_roundtrip_witness:
  "let bs = [[sample_trace], []];
      t = VMTrace 0 [0x60] [] [VMTrace 7 [] [\<lparr>vo_pc = 1, vo_instruction = 2, vo_gas_cost = 3, vo_executed = None\<rparr>] []] in
    FlatBlockTraces_decode sample_items (FlatBlockTraces_append sample_items bs) = Ok bs \<and>
    VMTrace_decode sample_items 2 (VMTrace_append sample_items t) = Ok t"
  unfolding Let_def
  by (rule trace_encodings_roundtrip) (simp_all add: sample_trace_def trace_fits_def operation_fits_def)

section \<open>Headers\<close>

text \<open>C16: What \<open>hash\<close> returns: for a header that was made new or changed since it was decoded, the
  hash of its current encoding; for one decoded from an item and not changed since, the hash of the
  bytes of that item. The two agree where the item is an encoding of a header, which is read back with
  the same fields. They need not agree for an item whose timestamp takes more than 64 bits: the
  timestamp of the header is then the largest there is, while the hash is still that of the item.\<close>

theorem header_hash_current:
  assumes "header_libs_ok H" "made H src h"
  shows "fst (Header_hash H h) = (case src of None \<Rightarrow> rlp_hash H h | Some r \<Rightarrow> hl_crypt_hash H (hl_raw H r)) \<and>
    Header_eq (snd (Header_hash H h)) h \<and>
    Header_decode H (stream_rlp H h) = Ok (h\<lparr>hdr_hash := Some (rlp_hash H h)\<rparr>) \<and>
    (\<forall>h0. src = Some (stream_rlp H h0) \<longrightarrow> Header_eq h h0 \<and> fst (Header_hash H h) = rlp_hash H h) \<and>
    (\<forall>t. 2 ^ 64 \<le> unat t \<longrightarrow> Header_decode H (long_timestamp_item H h t) =
       Ok (h\<lparr>hdr_timestamp := 2 ^ 64 - 1, hdr_hash := Some (hl_crypt_hash H (hl_raw H (long_timestamp_item H h t)))\<rparr>))"
proof (intro conjI allI impI)
  note hash = Header_hash_memo [OF made_memo_ok [OF assms(2)]]
  show "fst (Header_hash H h) = (case src of None \<Rightarrow> rlp_hash H h | Some r \<Rightarrow> hl_crypt_hash H (hl_raw H r))"
    using hash(1) by (simp add: due_hash_def)
  show "Header_eq (snd (Header_hash H h)) h" by (rule hash(3))
  fix h0
  assume src: "src = Some (stream_rlp H h0)"
  then have h: "h = h0\<lparr>hdr_hash := Some (rlp_hash H h0)\<rparr>"
    using made_decoded [OF assms(2)] Header_decode_append [OF assms(1)] by simp
  then show "Header_eq h h0" by (simp add: Header_eq_def)
  show "fst (Header_hash H h) = rlp_hash H h"
    using hash(1) src h by (simp add: due_hash_def) (simp add: rlp_hash_def Header_rlp_def)
qed (use assms(1) in \<open>simp_all add: Header_decode_append decode_long_timestamp\<close>)

theorem header_hash_current_witness:
  "let h = set_number 5 (snd (Header_hash sample_header_libs (Header_default sample_header_libs))) in
    fst (Header_hash sample_header_libs h) = rlp_hash sample_header_libs h \<and>
    Header_decode sample_header_libs (long_timestamp_item sample_header_libs h (2 ^ 70)) =
      Ok (h\<lparr>hdr_timestamp := 2 ^ 64 - 1, hdr_hash := Some (hl_crypt_hash sample_header_libs
        (hl_raw sample_header_libs (long_timestamp_item sample_header_libs h (2 ^ 70))))\<rparr>)"
proof -
  have "2 ^ 64 \<le> unat (2 ^ 70 :: u256)" by simp
  then show ?thesis unfolding Let_def
    using header_hash_current [OF sample_header_libs_ok made_number [OF made_hash [OF made_default]]] by simp
qed

section \<open>Filters\<close>

text \<open>C18: Searching by blooms loses no trace: where a trace filter matches a trace of a block, one of its bloom
  possibilities is contained in every bloom that contains the bloom of the traces of the block.\<close>

theorem trace_filter_complete:
  assumes "bloom_ok L" "TraceFilter_matches f t" "t \<in> set ts" "ts \<in> set bs" "contains_bloom c (FlatBlockTraces_bloom L bs)"
  shows "\<exists>p\<in>set (TraceFilter_bloom_possibilities L f). contains_bloom c p"
  using TraceFilter_bloom_sound [OF assms(1,2) contains_bloom_trans [OF assms(5) FlatBlockTraces_contains [OF assms(4,3)]]] .

theorem trace_filter_complete_witness:
  "\<exists>p\<in>set (TraceFilter_bloom_possibilities sample_libs
      \<lparr>tfl_range = (0, 10), tfl_from_address = \<lparr>af_list = []\<rparr>, tfl_to_address = \<lparr>af_list = [3, 2]\<rparr>\<rparr>).
    contains_bloom (FlatBlockTraces_bloom sample_libs [[], [sample_trace]]) p"
  by (rule trace_filter_complete [of _ _ sample_trace "[sample_trace]" "[[], [sample_trace]]"])
    (simp_all add: sample_trace_def TraceFilter_matches_def AddressesFilter_matches_def AddressesFilter_matches_all_def)

end
