(* ===== verification/Blocks.thy ===== *)
theory Blocks
  imports Executive Headers
begin

text \<open>
  Blocks and their execution (\<^verbatim>\<open>cita-executor/core/src/libexecutor/block.rs\<close>): the block with its encoding,
  the open block that transactions are applied to, and the closed block. \<open>Deref\<close> makes the fields of
  the executed block and of the block those of the open block, so its record has them all. The
  interruption flag of the executor is an argument, read at the transactions whose index is a
  multiple of 256.
\<close>

section \<open>Blocks\<close>

record 'p Block =
  blk_header :: "'p Header"
  blk_body :: "SignedTransaction list"

definition Block_new :: "('r, 'p) header_libs \<Rightarrow> 'p Block" where
  "Block_new H = \<lparr>blk_header = Header_default H, blk_body = []\<rparr>"

definition BlockBody_append :: "'r Rlp \<Rightarrow> SignedTransaction list \<Rightarrow> 'r" where
  "BlockBody_append R body = append_list R (SignedTransaction_append R) body"

definition BlockBody_decode :: "crypto \<Rightarrow> 'r Rlp \<Rightarrow> 'r \<Rightarrow> SignedTransaction list decoded" where
  "BlockBody_decode C R r = as_list R (SignedTransaction_decode C R) r"

definition transaction_hashes :: "SignedTransaction list \<Rightarrow> h256 list" where
  "transaction_hashes body = map tx_hash body"

definition Block_append :: "('r, 'p) header_libs \<Rightarrow> 'p Block \<Rightarrow> 'r" where
  "Block_append H b = rl_list (hl_rlp H) [stream_rlp H (blk_header b), BlockBody_append (hl_rlp H) (blk_body b)]"

definition Block_decode :: "crypto \<Rightarrow> ('r, 'p) header_libs \<Rightarrow> 'r \<Rightarrow> 'p Block decoded" where
  "Block_decode C H r = (let R = hl_rlp H in
     res_bind (rl_item_count R r) (\<lambda>count.
     if count \<noteq> 2 then Err ''RlpIncorrectListLen'' else
     res_bind (val_at R (Header_decode H) r 0) (\<lambda>header.
     res_bind (val_at R (BlockBody_decode C R) r 1) (\<lambda>body.
     Ok \<lparr>blk_header = header, blk_body = body\<rparr>))))"

text \<open>A transaction as it comes from its encoding.\<close>

definition tx_regular :: "crypto \<Rightarrow> SignedTransaction \<Rightarrow> bool" where
  "tx_regular C t \<longleftrightarrow> plain_action (tx_action t) \<and> tx_sender t = pubkey_to_address C (tx_public t)"

lemma BlockBody_decode_append:
  "rlp_ok R \<Longrightarrow> list_all (tx_regular C) body \<Longrightarrow> BlockBody_decode C R (BlockBody_append R body) = Ok body"
  by (simp add: BlockBody_decode_def BlockBody_append_def signed_tx.append_list_roundtrip list_all_iff tx_regular_def)

interpretation block: codec "Block_append H" "Block_decode C H"
    "\<lambda>b. header_libs_ok H \<and> hdr_hash (blk_header b) = Some (rlp_hash H (blk_header b)) \<and> list_all (tx_regular C) (blk_body b)" for C and H :: "('r, 'p) header_libs"
proof
  fix b :: "'p Block"
  assume b: "header_libs_ok H \<and> hdr_hash (blk_header b) = Some (rlp_hash H (blk_header b)) \<and> list_all (tx_regular C) (blk_body b)"
  then have "rlp_ok (hl_rlp H)" by (simp add: header_libs_ok_def)
  then show "Block_decode C H (Block_append H b) = Ok b" using b header.decode_append [of H "blk_header b"]
    by (simp add: Block_append_def Block_decode_def Let_def rlp_simps BlockBody_decode_append)
qed

section \<open>Open blocks\<close>

definition CHECK_NUM :: nat where
  "CHECK_NUM = 0xff"

record ('d, 'l, 'p) OpenBlock =
  ob_block :: "'p Block"
  ob_receipts :: "Receipt option list"
  ob_state :: "('d, 'l) State"
  ob_current_gas_used :: u256
  ob_traces :: "FlatTrace list list option"
  ob_last_hashes :: "h256 list"
  ob_account_gas_limit :: u256
  ob_account_gas :: "(address \<times> u256) list"

text \<open>The parts of the system configuration that a block is opened with.\<close>

record AccountGasLimit =
  common_gas_limit :: u64
  specific_gas_limit :: "(address \<times> u64) list"

definition OpenBlock_new ::
  "('d, 'm, 'l) Libs \<Rightarrow> AccountFactory \<Rightarrow> address set \<Rightarrow> address set \<Rightarrow> AccountGasLimit \<Rightarrow> bool \<Rightarrow> 'p Block \<Rightarrow>
   'd \<Rightarrow> h256 \<Rightarrow> h256 list \<Rightarrow> ('d, 'l, 'p) OpenBlock trie_result" where
  "OpenBlock_new L factory senders creators limits tracing block db state_root last_hashes =
     res_bind (State_from_existing L db state_root 0 factory) (\<lambda>state.
     Ok \<lparr>ob_block = block, ob_receipts = [], ob_state = state\<lparr>st_senders := senders, st_creators := creators\<rparr>,
         ob_current_gas_used = 0, ob_traces = (if tracing then Some [] else None), ob_last_hashes = last_hashes,
         ob_account_gas_limit = ucast (common_gas_limit limits),
         ob_account_gas = fold (\<lambda>(key, value) acc. AList.update key (ucast value) acc) (specific_gas_limit limits) []\<rparr>)"

definition OpenBlock_env_info :: "('d, 'l, 'p) OpenBlock \<Rightarrow> EnvInfo" where
  "OpenBlock_env_info b = \<lparr>
     ei_number = hdr_number (blk_header (ob_block b)), ei_author = 0, ei_timestamp = hdr_timestamp (blk_header (ob_block b)),
     ei_difficulty = 0, ei_gas_limit = hdr_gas_limit (blk_header (ob_block b)), ei_last_hashes = ob_last_hashes b,
     ei_gas_used = ob_current_gas_used b, ei_account_gas_limit = 0\<rparr>"

definition push_receipt :: "Receipt option \<Rightarrow> ('d, 'l, 'p) OpenBlock \<Rightarrow> ('d, 'l, 'p) OpenBlock" where
  "push_receipt r b = b\<lparr>ob_receipts := ob_receipts b @ [r]\<rparr>"

text \<open>The receipt of a transaction that \<open>State::apply\<close> rejects.\<close>

definition rejected_receipt :: "('d, 'm, 'l) Libs \<Rightarrow> ExecutionError \<Rightarrow> Receipt option" where
  "rejected_receipt L e =
     (let receipt = (\<lambda>err. Some (Receipt_new L None 0 [] (Some err) 0)) in
      case e of
        NoTransactionPermission \<Rightarrow> receipt RE_NoTransactionPermission
      | NoContractPermission \<Rightarrow> receipt RE_NoContractPermission
      | NotEnoughBaseGas _ _ \<Rightarrow> receipt RE_NotEnoughBaseGas
      | BlockGasLimitReached _ _ _ \<Rightarrow> receipt RE_BlockGasLimitReached
      | AccountGasLimitReached _ _ \<Rightarrow> receipt RE_AccountGasLimitReached
      | _ \<Rightarrow> None)"

text \<open>The branch of \<open>apply_transaction\<close> for an outcome.\<close>

definition accept_outcome ::
  "bool \<Rightarrow> address \<Rightarrow> ApplyOutcome \<Rightarrow> (('d, 'l, 'p) OpenBlock, ExecutionError, unit) sm" where
  "accept_outcome quota sender outcome b =
     (let b1 = b\<lparr>ob_traces := map_option (\<lambda>tr. tr @ [ao_trace outcome]) (ob_traces b)\<rparr>;
          gas_used = rc_gas_used (ao_receipt outcome) in
      case minus_chk gas_used (ob_current_gas_used b1) of
        Ok transaction_gas_used \<Rightarrow>
          let b2 = b1\<lparr>ob_current_gas_used := gas_used\<rparr> in
          (case (if quota then map_of (ob_account_gas b2) sender else None) of
             None \<Rightarrow> (Ok (), push_receipt (Some (ao_receipt outcome)) b2)
           | Some value \<Rightarrow>
               (case minus_chk value transaction_gas_used of
                  Ok value' \<Rightarrow>
                    (Ok (), push_receipt (Some (ao_receipt outcome))
                       (b2\<lparr>ob_account_gas := AList.update sender value' (ob_account_gas b2)\<rparr>))
                | Err e \<Rightarrow> (Err e, b2) | Panic \<Rightarrow> (Panic, b2) | Diverge \<Rightarrow> (Diverge, b2)))
      | Err e \<Rightarrow> (Err e, b1) | Panic \<Rightarrow> (Panic, b1) | Diverge \<Rightarrow> (Diverge, b1))"

text \<open>An account that is not in the table yet gets the common limit.\<close>

definition enter_account :: "address \<Rightarrow> ('d, 'l, 'p) OpenBlock \<Rightarrow> ('d, 'l, 'p) OpenBlock" where
  "enter_account a b =
     (if map_of (ob_account_gas b) a = None
      then b\<lparr>ob_account_gas := AList.update a (ob_account_gas_limit b) (ob_account_gas b)\<rparr> else b)"

definition apply_transaction ::
  "nat \<Rightarrow> ('d, 'm, 'l) Env \<Rightarrow> bool \<Rightarrow> bool \<Rightarrow> (SignedTransaction \<times> ('d, 'l, 'p) OpenBlock, ExecutionError, unit) sm" where
  "apply_transaction n E permission quota = (\<lambda>(t, b).
     let b1 = enter_account (tx_sender t) b in
     case expect (map_of (ob_account_gas b1) (tx_sender t)) of
       Ok limit \<Rightarrow>
         let env_info' = (OpenBlock_env_info b)\<lparr>ei_account_gas_limit := limit\<rparr>; has_traces = ob_traces b1 \<noteq> None in
         (case State_apply n (E\<lparr>env_info := env_info'\<rparr>) has_traces permission quota (t, ob_state b1) of
            (r, (t', state')) \<Rightarrow>
              let b2 = b1\<lparr>ob_state := state'\<rparr> in
              (case r of
                 Ok outcome \<Rightarrow> (case accept_outcome quota (tx_sender t') outcome b2 of (r', b3) \<Rightarrow> (r', (t', b3)))
               | Err e \<Rightarrow> (Ok (), (t', push_receipt (rejected_receipt (env_libs E) e) b2))
               | Panic \<Rightarrow> (Panic, (t', b2)) | Diverge \<Rightarrow> (Diverge, (t', b2))))
     | Err e \<Rightarrow> (Err e, (t, b1)) | Panic \<Rightarrow> (Panic, (t, b1)) | Diverge \<Rightarrow> (Diverge, (t, b1)))"

text \<open>The loop over the transactions: it yields the transactions with their account nonces set, or
  nothing where it was interrupted.\<close>

primrec apply_loop ::
  "nat \<Rightarrow> ('d, 'm, 'l) Env \<Rightarrow> (nat \<Rightarrow> bool) \<Rightarrow> bool \<Rightarrow> bool \<Rightarrow> nat \<Rightarrow> SignedTransaction list \<Rightarrow>
   (('d, 'l, 'p) OpenBlock, ExecutionError, SignedTransaction list option) sm" where
  "apply_loop n E interrupted permission quota index [] b = (Ok (Some []), b)"
| "apply_loop n E interrupted permission quota index (t # ts) b =
     (if and index CHECK_NUM = 0 \<and> interrupted index then (Ok None, b)
      else (case apply_transaction n E permission quota (t, b) of
        (Ok _, (t', b1)) \<Rightarrow>
          (case apply_loop n E interrupted permission quota (Suc index) ts b1 of
             (r, b2) \<Rightarrow> (res_map (map_option (Cons t')) r, b2))
      | (Err e, (t', b1)) \<Rightarrow> (Err e, b1) | (Panic, (t', b1)) \<Rightarrow> (Panic, b1) | (Diverge, (t', b1)) \<Rightarrow> (Diverge, b1)))"

definition apply_transactions ::
  "nat \<Rightarrow> ('d, 'm, 'l) Env \<Rightarrow> (nat \<Rightarrow> bool) \<Rightarrow> bool \<Rightarrow> bool \<Rightarrow> (('d, 'l, 'p) OpenBlock, ExecutionError, bool) sm" where
  "apply_transactions n E interrupted permission quota b =
     (case apply_loop n E interrupted permission quota 0 (blk_body (ob_block b)) b of
        (Ok None, b1) \<Rightarrow> (Ok False, b1)
      | (Ok (Some transactions), b1) \<Rightarrow>
          let b2 = b1\<lparr>ob_block := (ob_block b1)\<lparr>blk_body := transactions\<rparr>\<rparr> in
          (case State_commit (env_libs E) (ob_state b2) of
             (Ok _, s) \<Rightarrow>
               (Ok True, b2\<lparr>ob_state := s,
                  ob_block := (ob_block b2)\<lparr>blk_header := set_gas_used (ob_current_gas_used b2) (blk_header (ob_block b2))\<rparr>\<rparr>)
           | (Diverge, s) \<Rightarrow> (Diverge, b2\<lparr>ob_state := s\<rparr>)
           | (_, s) \<Rightarrow> (Panic, b2\<lparr>ob_state := s\<rparr>))
      | (Err e, b1) \<Rightarrow> (Err e, b1) | (Panic, b1) \<Rightarrow> (Panic, b1) | (Diverge, b1) \<Rightarrow> (Diverge, b1))"

text \<open>The root of the receipts is the Merkle root of their encodings, a parameter.\<close>

definition into_closed_block ::
  "(bytes list \<Rightarrow> h256) \<Rightarrow> 'r Rlp \<Rightarrow> ('r \<Rightarrow> bytes) \<Rightarrow> ('d, 'l, 'p) OpenBlock \<Rightarrow> ('d, 'l, 'p) OpenBlock" where
  "into_closed_block merkle_root R raw b =
     (let receipts_root = merkle_root (map (\<lambda>r. raw (append_option R (Receipt_append R) r)) (ob_receipts b));
          log_bloom = foldl (\<lambda>b r. b OR rc_log_bloom r) 0 (List.map_filter id (ob_receipts b));
          header = set_log_bloom log_bloom (set_receipts_root receipts_root
            (set_state_root (st_root (ob_state b)) (blk_header (ob_block b)))) in
      b\<lparr>ob_block := (ob_block b)\<lparr>blk_header := header\<rparr>\<rparr>)"

end
