(* ===== verification/Block_Safety.thy ===== *)
theory Block_Safety
  imports Blocks Transaction_Safety
begin

text \<open>
  The transactions of a block run to the end: none of the subtractions of the gas accounting
  underflows, every transaction gets one receipt, the gas used stays within the limit of the block,
  and what an account may still use goes down by what its transactions use.
\<close>

section \<open>What \<open>transact\<close> does to the transaction\<close>

definition nonce_only :: "(SignedTransaction \<times> 's, 'x, 'a) sm \<Rightarrow> bool" where
  "nonce_only f \<longleftrightarrow> (\<forall>t s. \<exists>m. fst (snd (f (t, s))) = t\<lparr>tx_account_nonce := m\<rparr>)"

lemma nonce_onlyE:
  assumes "nonce_only f"
  obtains m where "fst (snd (f (t, s))) = t\<lparr>tx_account_nonce := m\<rparr>"
  using assms unfolding nonce_only_def by blast

lemma nonce_only_same: "(\<And>t s. fst (snd (f (t, s))) = t) \<Longrightarrow> nonce_only f"
proof -
  assume "\<And>t s. fst (snd (f (t, s))) = t"
  then have "fst (snd (f (t, s))) = t\<lparr>tx_account_nonce := tx_account_nonce t\<rparr>" for t s by simp
  then show ?thesis unfolding nonce_only_def by blast
qed

lemma nonce_only_steps:
  "nonce_only (sm_get g)" "nonce_only (sm_lift r)" "nonce_only (sm_ret a)" "nonce_only (on_ex h)"
  by (rule nonce_only_same, simp add: sm_get_def sm_lift_def sm_ret_def on_ex_def split: prod.splits)+

lemma nonce_only_modify: "nonce_only (sm_modify (\<lambda>(t, ex). (t\<lparr>tx_account_nonce := nonce\<rparr>, ex)))"
  unfolding nonce_only_def sm_modify_def by auto

lemma nonce_only_bind:
  assumes "nonce_only m" "\<And>a. nonce_only (f a)"
  shows "nonce_only (sm_bind m f)"
  unfolding nonce_only_def
proof (intro allI)
  fix t s
  obtain r t1 s1 where m: "m (t, s) = (r, (t1, s1))" using prod_cases3 by blast
  obtain k where t1: "t1 = t\<lparr>tx_account_nonce := k\<rparr>" using nonce_onlyE [OF assms(1), of t s] m by auto
  show "\<exists>k. fst (snd (sm_bind m f (t, s))) = t\<lparr>tx_account_nonce := k\<rparr>"
  proof (cases "\<exists>a. r = Ok a")
    case True
    then obtain a where a: "r = Ok a" by blast
    obtain l where "fst (snd (f a (t1, s1))) = t1\<lparr>tx_account_nonce := l\<rparr>" using nonce_onlyE [OF assms(2)] by blast
    then have "fst (snd (sm_bind m f (t, s))) = t\<lparr>tx_account_nonce := l\<rparr>" using m a t1 by (simp add: sm_bind_def)
    then show ?thesis by blast
  next
    case False
    then have "fst (snd (sm_bind m f (t, s))) = t1" using m by (cases r) (simp_all add: sm_bind_def)
    then show ?thesis using t1 by blast
  qed
qed

lemma nonce_only_prod: "(\<And>a b. nonce_only (f a b)) \<Longrightarrow> nonce_only (case p of (a, b) \<Rightarrow> f a b)"
  by (cases p) simp

lemma transact_nonce_only: "nonce_only (transact_with_tracer n E T V options)"
  unfolding transact_with_tracer_def by (intro nonce_only_bind nonce_only_steps nonce_only_modify nonce_only_prod)

text \<open>A transaction that is carried out has passed the check of the quota.\<close>

definition only_if :: "bool \<Rightarrow> ('s, 'x, 'a) sm \<Rightarrow> bool" where
  "only_if P f \<longleftrightarrow> (\<forall>s a s'. f s = (Ok a, s') \<longrightarrow> P)"

lemma only_if_bind: "(\<And>a. only_if P (f a)) \<Longrightarrow> only_if P (sm_bind m f)"
  by (auto simp: only_if_def sm_bind_def split: prod.split_asm res.split_asm) blast

lemma only_if_lift: "(\<And>a. r = Ok a \<Longrightarrow> P) \<Longrightarrow> only_if P (sm_bind (sm_lift r) f)"
  unfolding only_if_def sm_bind_def sm_lift_def by (cases r) auto

definition only_from :: "('t \<Rightarrow> bool) \<Rightarrow> ('t \<times> 's, 'x, 'a) sm \<Rightarrow> bool" where
  "only_from P f \<longleftrightarrow> (\<forall>t s a s'. f (t, s) = (Ok a, s') \<longrightarrow> P t)"

lemma only_from_get: "(\<And>t. only_if (P t) (f t)) \<Longrightarrow> only_from P (sm_bind (sm_get fst) f)"
  by (auto simp: only_from_def only_if_def sm_bind_def sm_get_def) blast

lemma transact_with_tracer_quota:
  "only_from (\<lambda>t. check_quota (env_info E) options t = Ok ()) (transact_with_tracer n E T V options)"
  unfolding transact_with_tracer_def
  by (rule only_from_get, rule only_if_bind, rule only_if_bind, rule only_if_bind, rule only_if_bind, rule only_if_bind,
      rule only_if_bind, rule only_if_lift) simp

lemma stopped_tx:
  assumes "stop (transact_with_tracer n E T V options (start tracer vm t st)) = (r, (t', s'))"
  shows "\<exists>m. t' = t\<lparr>tx_account_nonce := m\<rparr>" "r = Ok x \<Longrightarrow> check_quota (env_info E) options t = Ok ()"
proof -
  obtain ex where ex: "transact_with_tracer n E T V options (start tracer vm t st) = (r, (t', ex))"
    using assms by (auto simp: stop_def split: prod.splits)
  show "\<exists>m. t' = t\<lparr>tx_account_nonce := m\<rparr>"
    using nonce_onlyE [OF transact_nonce_only] ex unfolding start_def by (metis fst_conv snd_conv)
  show "check_quota (env_info E) options t = Ok ()" if "r = Ok x"
    using transact_with_tracer_quota [unfolded only_from_def] ex that unfolding start_def by blast
qed

lemma transact_tx:
  assumes "transact n E options (t, st) = (r, (t', s'))"
  shows "\<exists>m. t' = t\<lparr>tx_account_nonce := m\<rparr>" "r = Ok x \<Longrightarrow> check_quota (env_info E) options t = Ok ()"
  using assms by (auto simp: transact_def split: bool.splits dest: stopped_tx)

lemma State_apply_tx:
  assumes "State_apply n E tracing permission quota (t, st) = (r, (t', s'))"
  shows "tx_sender t' = tx_sender t"
    "r = Ok x \<Longrightarrow> quota \<Longrightarrow> tx_sender t \<noteq> 0 \<Longrightarrow>
       unat (ei_gas_used (env_info E)) + unat (tx_gas_limit t) \<le> unat (ei_gas_limit (env_info E)) \<and>
       tx_gas_limit t \<le> ei_account_gas_limit (env_info E)"
proof -
  let ?E = "E\<lparr>env_builtins := []\<rparr>"
  let ?o = "\<lparr>to_tracing = tracing, to_vm_tracing = False, to_check_permission = permission, to_check_quota = quota\<rparr>"
  obtain r1 where r1: "transact n ?E ?o (t, st) = (r1, (t', s'))" and ok: "r = Ok x \<Longrightarrow> \<exists>y. r1 = Ok y"
    using assms by (auto simp: State_apply_def sm_bind_def sm_get_def sm_ret_def split: prod.split_asm res.split_asm)
  show "tx_sender t' = tx_sender t" using transact_tx(1) [OF r1] by auto
  show "unat (ei_gas_used (env_info E)) + unat (tx_gas_limit t) \<le> unat (ei_gas_limit (env_info E)) \<and>
       tx_gas_limit t \<le> ei_account_gas_limit (env_info E)" if c: "r = Ok x" "quota" "tx_sender t \<noteq> 0"
  proof -
    have "check_quota (env_info ?E) ?o t = Ok ()" using ok [OF c(1)] transact_tx(2) [OF r1] by blast
    then obtain total where "plus_chk (ei_gas_used (env_info E)) (tx_gas_limit t) = (Ok total :: (ExecutionError, u256) res)"
      "total \<le> ei_gas_limit (env_info E)" "tx_gas_limit t \<le> ei_account_gas_limit (env_info E)"
      using c by (auto simp: check_quota_def not_less split: if_splits)
    then show ?thesis using plus_chk_unat [of "ei_gas_used (env_info E)" "tx_gas_limit t" total] by (metis word_le_nat_alt)
  qed
qed

section \<open>One transaction of a block\<close>

text \<open>What an account may still use in the block.\<close>

definition account_room :: "('d, 'l, 'p) OpenBlock \<Rightarrow> address \<Rightarrow> nat" where
  "account_room b a = unat (case map_of (ob_account_gas b) a of Some v \<Rightarrow> v | None \<Rightarrow> ob_account_gas_limit b)"

definition tx_fit :: "SignedTransaction \<Rightarrow> bool" where
  "tx_fit t \<longleftrightarrow> tx_sender t \<noteq> 0 \<and> unat (tx_gas_limit t) < 2 ^ 64 \<and> length (tx_data t) < 2 ^ 64 \<and>
     unat (tx_gas_limit t) * unat (tx_gas_price t) < 2 ^ 256"

definition block_env_ok :: "('d, 'm, 'l) Env \<Rightarrow> ('d, 'l, 'p) OpenBlock \<Rightarrow> bool" where
  "block_env_ok E b \<longleftrightarrow> env_ok (E\<lparr>env_builtins := [], env_info := OpenBlock_env_info b\<rparr>)"

abbreviation block_limit :: "('d, 'l, 'p) OpenBlock \<Rightarrow> nat" where
  "block_limit b \<equiv> unat (hdr_gas_limit (blk_header (ob_block b)))"

abbreviation block_used :: "('d, 'l, 'p) OpenBlock \<Rightarrow> nat" where
  "block_used b \<equiv> unat (ob_current_gas_used b)"

definition stepped :: "('d, 'm, 'l) Libs \<Rightarrow> bool \<Rightarrow> SignedTransaction \<Rightarrow> ('d, 'l, 'p) OpenBlock \<Rightarrow> ('d, 'l, 'p) OpenBlock \<Rightarrow> bool" where
  "stepped L quota t b b' \<longleftrightarrow> state_good L (ob_state b') \<and> peak (ob_state b') \<le> Suc (peak (ob_state b) + unat (tx_gas_limit t)) \<and>
     (\<exists>r. ob_receipts b' = ob_receipts b @ [r]) \<and> ob_block b' = ob_block b \<and> ob_last_hashes b' = ob_last_hashes b \<and>
     block_used b \<le> block_used b' \<and> block_used b' \<le> block_used b + unat (tx_gas_limit t) \<and>
     (quota \<longrightarrow> block_used b \<le> block_limit b \<longrightarrow> block_used b' \<le> block_limit b) \<and>
     (\<forall>a. account_room b' a + (if quota \<and> a = tx_sender t then block_used b' - block_used b else 0) = account_room b a)"

lemma enter_account_simps [simp]:
  "ob_block (enter_account a b) = ob_block b" "ob_receipts (enter_account a b) = ob_receipts b"
  "ob_state (enter_account a b) = ob_state b" "ob_current_gas_used (enter_account a b) = ob_current_gas_used b"
  "ob_traces (enter_account a b) = ob_traces b" "ob_last_hashes (enter_account a b) = ob_last_hashes b"
  "ob_account_gas_limit (enter_account a b) = ob_account_gas_limit b" "account_room (enter_account a b) c = account_room b c"
  by (simp_all add: enter_account_def account_room_def update_conv' cong: option.case_cong)

lemma enter_account_has: "\<exists>v. map_of (ob_account_gas (enter_account a b)) a = Some v \<and> unat v = account_room b a"
  by (auto simp: enter_account_def account_room_def update_conv' split: option.splits)

text \<open>The accounting of an outcome whose gas is within the limits.\<close>

lemma accept_outcome_ok:
  assumes v: "map_of (ob_account_gas b) a = Some v" and le: "ob_current_gas_used b \<le> rc_gas_used (ao_receipt x)"
    and q: "quota \<Longrightarrow> unat (rc_gas_used (ao_receipt x)) - block_used b \<le> unat v"
  shows "\<exists>b'. accept_outcome quota a x b = (Ok (), b') \<and> ob_receipts b' = ob_receipts b @ [Some (ao_receipt x)] \<and>
    ob_state b' = ob_state b \<and> ob_block b' = ob_block b \<and> ob_last_hashes b' = ob_last_hashes b \<and>
    ob_current_gas_used b' = rc_gas_used (ao_receipt x) \<and>
    (\<forall>c. account_room b' c + (if quota \<and> c = a then unat (rc_gas_used (ao_receipt x)) - block_used b else 0) = account_room b c)"
proof -
  let ?g = "rc_gas_used (ao_receipt x)"
  have u: "unat (?g - ob_current_gas_used b) = unat ?g - block_used b" by (rule unat_minus_le [OF le])
  show ?thesis
  proof (cases quota)
    case True
    then have "?g - ob_current_gas_used b \<le> v" using q u by (simp add: word_le_nat_alt)
    then show ?thesis using True le v u q
      by (simp add: accept_outcome_def Let_def minus_chk_def push_receipt_def account_room_def update_conv' unat_minus_le cong: option.case_cong res.case_cong)
  next
    case False
    then show ?thesis using le by (simp add: accept_outcome_def minus_chk_def push_receipt_def account_room_def cong: option.case_cong)
  qed
qed

lemma apply_transaction_step:
  assumes n: "1025 \<le> n" and env: "block_env_ok E b" and st: "state_good (env_libs E) (ob_state b)" and tx: "tx_fit t"
    and used: "block_used b + unat (tx_gas_limit t) < 2 ^ 256" and c: "Suc (peak (ob_state b) + unat (tx_gas_limit t)) < 2 ^ 128"
  shows "\<exists>t' b'. apply_transaction n E permission quota (t, b) = (Ok (), (t', b')) \<and> stepped (env_libs E) quota t b b'"
proof -
  let ?a = "tx_sender t"
  let ?b = "enter_account ?a b"
  obtain v where v: "map_of (ob_account_gas ?b) ?a = Some v" "unat v = account_room b ?a" using enter_account_has [of ?a b] by blast
  let ?E = "E\<lparr>env_info := (OpenBlock_env_info b)\<lparr>ei_account_gas_limit := v\<rparr>\<rparr>"
  let ?tr = "ob_traces ?b \<noteq> None"
  obtain r t' s' where run: "State_apply n ?E ?tr permission quota (t, ob_state ?b) = (r, (t', s'))" using prod_cases3 by blast
  have e: "env_ok (?E\<lparr>env_builtins := []\<rparr>)" "state_good (env_libs ?E) (ob_state ?b)" "tx_ok (env_info ?E) t"
    using env st tx used by (simp_all add: block_env_ok_def env_ok_def OpenBlock_env_info_def tx_ok_def tx_fit_def)
  have post: "state_good (env_libs E) s' \<and> peak s' \<le> Suc (peak (ob_state b) + unat (tx_gas_limit t))" "returns r"
    and ok: "r = Ok x \<Longrightarrow> block_used b \<le> unat (rc_gas_used (ao_receipt x)) \<and>
      unat (rc_gas_used (ao_receipt x)) \<le> block_used b + unat (tx_gas_limit t)" for x
    using State_apply_wp [OF n e, of ?tr permission quota] run c
    by (auto simp: wp_def OpenBlock_env_info_def split: res.split_asm)
  note tx' = State_apply_tx [OF run]
  have q: "block_used b + unat (tx_gas_limit t) \<le> block_limit b \<and> tx_gas_limit t \<le> v" if "r = Ok x" quota for x
    using tx'(2) [OF that] tx by (simp add: tx_fit_def OpenBlock_env_info_def)
  consider x where "r = Ok x" | y where "r = Err y" using post(2) by (cases r) auto
  then show ?thesis
  proof cases
    case (1 x)
    have le: "ob_current_gas_used (?b\<lparr>ob_state := s'\<rparr>) \<le> rc_gas_used (ao_receipt x)" using ok [OF 1] by (simp add: word_le_nat_alt)
    have qv: "unat (rc_gas_used (ao_receipt x)) - block_used (?b\<lparr>ob_state := s'\<rparr>) \<le> unat v" if quota
      using q [OF 1 that] ok [OF 1] by (auto simp: word_le_nat_alt)
    have al: "account_room (?b\<lparr>ob_state := s'\<rparr>) c = account_room b c" for c
      using enter_account_simps(8) [of ?a b c] by (simp add: account_room_def cong: option.case_cong)
    have bu: "block_used (?b\<lparr>ob_state := s'\<rparr>) = block_used b" by simp
    have sel: "ob_receipts (?b\<lparr>ob_state := s'\<rparr>) = ob_receipts b" "ob_state (?b\<lparr>ob_state := s'\<rparr>) = s'"
      "ob_block (?b\<lparr>ob_state := s'\<rparr>) = ob_block b" "ob_last_hashes (?b\<lparr>ob_state := s'\<rparr>) = ob_last_hashes b" by simp_all
    have va: "map_of (ob_account_gas (?b\<lparr>ob_state := s'\<rparr>)) ?a = Some v" using v(1) by simp
    obtain b' where b': "accept_outcome quota ?a x (?b\<lparr>ob_state := s'\<rparr>) = (Ok (), b')"
      "ob_receipts b' = ob_receipts b @ [Some (ao_receipt x)]" "ob_state b' = s'" "ob_block b' = ob_block b"
      "ob_last_hashes b' = ob_last_hashes b" "ob_current_gas_used b' = rc_gas_used (ao_receipt x)"
      "\<And>c. account_room b' c + (if quota \<and> c = ?a then unat (rc_gas_used (ao_receipt x)) - block_used b else 0) = account_room b c"
      using accept_outcome_ok [OF va le, of quota, OF qv] by (simp only: al bu sel simp_thms) blast
    have "apply_transaction n E permission quota (t, b) = (Ok (), (t', b'))"
      using run 1 v(1) b'(1) tx'(1) by (simp add: apply_transaction_def Let_def)
    moreover have "unat (rc_gas_used (ao_receipt x)) \<le> block_limit b" if quota using q [OF 1 that] ok [OF 1] by linarith
    then have "stepped (env_libs E) quota t b b'"
      unfolding stepped_def b'(2-6) using post(1) ok [OF 1] b'(7) by blast
    ultimately show ?thesis by blast
  next
    case (2 y)
    let ?b' = "push_receipt (rejected_receipt (env_libs E) y) (?b\<lparr>ob_state := s'\<rparr>)"
    have "apply_transaction n E permission quota (t, b) = (Ok (), (t', ?b'))" using run 2 v(1) by (simp add: apply_transaction_def Let_def)
    moreover have "account_room ?b' c = account_room b c" for c
      using enter_account_simps(8) [of ?a b c] by (simp add: account_room_def push_receipt_def cong: option.case_cong)
    then have "stepped (env_libs E) quota t b ?b'" using post(1) by (auto simp: stepped_def push_receipt_def)
    ultimately show ?thesis by blast
  qed
qed

section \<open>All transactions of a block\<close>

definition demand :: "SignedTransaction list \<Rightarrow> nat" where
  "demand ts = sum_list (map (\<lambda>t. Suc (unat (tx_gas_limit t))) ts)"

lemma demand_simps [simp]: "demand [] = 0" "demand (t # ts) = Suc (unat (tx_gas_limit t) + demand ts)"
  by (simp_all add: demand_def)

text \<open>The state of the block after its transactions. The gas the block has used and what the accounts may
  still use add up to the same.\<close>

definition block_post :: "('d, 'm, 'l) Libs \<Rightarrow> bool \<Rightarrow> SignedTransaction list \<Rightarrow> ('d, 'l, 'p) OpenBlock \<Rightarrow> ('d, 'l, 'p) OpenBlock \<Rightarrow> bool" where
  "block_post L quota ts b b' \<longleftrightarrow> state_good L (ob_state b') \<and> ob_block b' = ob_block b \<and> ob_last_hashes b' = ob_last_hashes b \<and>
     (\<exists>rs. ob_receipts b' = ob_receipts b @ rs \<and> length rs \<le> length ts) \<and>
     block_used b \<le> block_used b' \<and> block_used b' \<le> block_used b + demand ts \<and>
     (quota \<longrightarrow> block_used b \<le> block_limit b \<longrightarrow> block_used b' \<le> block_limit b) \<and>
     (quota \<longrightarrow> (\<forall>A. finite A \<longrightarrow> tx_sender ` set ts \<subseteq> A \<longrightarrow>
        block_used b' + sum (account_room b') A = block_used b + sum (account_room b) A))"

lemma stepped_sum:
  assumes "stepped L True t b b'" "finite A" "tx_sender t \<in> A"
  shows "block_used b' + sum (account_room b') A = block_used b + sum (account_room b) A"
proof -
  let ?s = "tx_sender t" and ?d = "block_used b' - block_used b"
  have le: "block_used b \<le> block_used b'" and al: "\<And>a. account_room b' a + (if a = ?s then ?d else 0) = account_room b a"
    using assms(1) by (auto simp: stepped_def)
  have "sum (account_room b) A = sum (\<lambda>a. account_room b' a + (if a = ?s then ?d else 0)) A" using al by simp
  also have "\<dots> = sum (account_room b') A + ?d" using assms(2,3) by (simp add: sum.distrib)
  finally show ?thesis using le by simp
qed

lemma block_post_step:
  assumes s: "stepped L quota t b b1" and p: "block_post L quota ts b1 b'"
  shows "block_post L quota (t # ts) b b'"
proof -
  have eq: "ob_block b1 = ob_block b" "ob_last_hashes b1 = ob_last_hashes b" using s by (auto simp: stepped_def)
  have "block_used b' + sum (account_room b') A = block_used b + sum (account_room b) A"
    if "quota" "finite A" "tx_sender ` set (t # ts) \<subseteq> A" for A
    using stepped_sum [of L t b b1 A] s p that by (simp add: block_post_def)
  moreover obtain r rs where "ob_receipts b1 = ob_receipts b @ [r]" "ob_receipts b' = ob_receipts b1 @ rs" "length rs \<le> length ts"
    using s p unfolding stepped_def block_post_def by blast
  then have "ob_receipts b' = ob_receipts b @ (r # rs)" "length (r # rs) \<le> length (t # ts)" by simp_all
  then have "\<exists>rs. ob_receipts b' = ob_receipts b @ rs \<and> length rs \<le> length (t # ts)" by blast
  moreover have "block_used b \<le> block_used b'" "block_used b' \<le> block_used b + demand (t # ts)"
    using s p by (simp_all add: stepped_def block_post_def)
  moreover have "state_good L (ob_state b')" "ob_block b' = ob_block b" "ob_last_hashes b' = ob_last_hashes b"
    using p eq by (simp_all add: block_post_def)
  moreover have "block_used b' \<le> block_limit b" if "quota" "block_used b \<le> block_limit b"
    using s p eq that by (simp add: stepped_def block_post_def)
  ultimately show ?thesis unfolding block_post_def by blast
qed

lemma apply_loop_ok:
  assumes n: "1025 \<le> n"
  shows "block_env_ok E b \<Longrightarrow> state_good (env_libs E) (ob_state b) \<Longrightarrow> list_all tx_fit ts \<Longrightarrow>
    block_used b + demand ts < 2 ^ 256 \<Longrightarrow> peak (ob_state b) + demand ts < 2 ^ 128 \<Longrightarrow>
    \<exists>x b'. apply_loop n E interrupted permission quota index ts b = (Ok x, b') \<and> block_post (env_libs E) quota ts b b' \<and>
      ((\<forall>i. \<not> interrupted i) \<longrightarrow> (\<exists>ts'. x = Some ts' \<and> length ts' = length ts) \<and>
        length (ob_receipts b') = length (ob_receipts b) + length ts)"
proof (induction ts arbitrary: b index)
  case Nil
  then show ?case by (simp add: block_post_def)
next
  case (Cons t ts)
  show ?case
  proof (cases "and index CHECK_NUM = 0 \<and> interrupted index")
    case True
    then have "apply_loop n E interrupted permission quota index (t # ts) b = (Ok None, b)" by simp
    moreover have "block_post (env_libs E) quota (t # ts) b b" using Cons.prems(2) by (simp add: block_post_def)
    ultimately show ?thesis using True by blast
  next
    case False
    have tt: "tx_fit t" "block_used b + unat (tx_gas_limit t) < 2 ^ 256" "Suc (peak (ob_state b) + unat (tx_gas_limit t)) < 2 ^ 128"
      using Cons.prems(3-5) by simp_all
    obtain t' b1 where s: "apply_transaction n E permission quota (t, b) = (Ok (), (t', b1))" "stepped (env_libs E) quota t b b1"
      using apply_transaction_step [OF n Cons.prems(1,2), of t permission quota] tt by blast
    have b1: "block_env_ok E b1" "state_good (env_libs E) (ob_state b1)" "block_used b1 + demand ts < 2 ^ 256"
      "peak (ob_state b1) + demand ts < 2 ^ 128"
      using s(2) Cons.prems by (simp_all add: stepped_def block_env_ok_def env_ok_def OpenBlock_env_info_def)
    obtain x b' where l: "apply_loop n E interrupted permission quota (Suc index) ts b1 = (Ok x, b')"
      "block_post (env_libs E) quota ts b1 b'"
      "(\<forall>i. \<not> interrupted i) \<longrightarrow> (\<exists>ts'. x = Some ts' \<and> length ts' = length ts) \<and> length (ob_receipts b') = length (ob_receipts b1) + length ts"
      using Cons.IH [OF b1(1,2) _ b1(3,4), of "Suc index"] Cons.prems(3) by (simp only: list.pred_inject) blast
    have r: "length (ob_receipts b1) = Suc (length (ob_receipts b))" using s(2) unfolding stepped_def by auto
    have "apply_loop n E interrupted permission quota index (t # ts) b = (Ok (map_option (Cons t') x), b')"
      using s(1) l(1) False by auto
    moreover have "(\<exists>ts'. map_option (Cons t') x = Some ts' \<and> length ts' = length (t # ts)) \<and>
        length (ob_receipts b') = length (ob_receipts b) + length (t # ts)" if "\<forall>i. \<not> interrupted i"
      using l(3) that r by auto
    ultimately show ?thesis using block_post_step [OF s(2) l(2)] by blast
  qed
qed

end
