(* ===== verification/Block_Properties.thy ===== *)
theory Block_Properties
  imports Block_Safety Codec_Properties
begin

text \<open>
  The properties of blocks: their execution, their encoding and the bloom filter of their header, each
  with an instance on the sample node.
\<close>

section \<open>The sample block\<close>

definition sample_header :: "unit Header" where
  "sample_header = snd (Header_hash sample_header_libs (Header_default sample_header_libs))"

definition sample_open :: "(sample_store, sample_cache, unit) OpenBlock" where
  "sample_open = \<lparr>ob_block = \<lparr>blk_header = sample_header, blk_body = [sample_tx, sample_tx]\<rparr>, ob_receipts = [],
     ob_state = sample_state, ob_current_gas_used = 0, ob_traces = None, ob_last_hashes = [],
     ob_account_gas_limit = 150000, ob_account_gas = []\<rparr>"

definition sample_receipt :: Receipt where
  "sample_receipt = Receipt_new sample_libs None 21000 [\<lparr>le_address = 1, le_topics = [2, 3], le_data = []\<rparr>] None 0"

section \<open>Execution\<close>

text \<open>C2: Executing a block with the quota on returns for every list of transactions with non zero senders
  whose gas fits: each transaction leaves one receipt, in their order, the gas used stays within the
  gas limit of the header, and what the block has used and what the accounts may still use add up to
  the same as before. Only the commit of the state that follows may still fail; where it does not, the
  header carries the gas used.\<close>

theorem block_execution_accounted:
  assumes "1025 \<le> n" "block_env_ok E b" "state_good (env_libs E) (ob_state b)" "list_all tx_fit (blk_body (ob_block b))"
    "block_used b + demand (blk_body (ob_block b)) < 2 ^ 256" "peak (ob_state b) + demand (blk_body (ob_block b)) < 2 ^ 128"
    "\<forall>i. \<not> interrupted i" "block_used b \<le> block_limit b" "finite A" "tx_sender ` set (blk_body (ob_block b)) \<subseteq> A"
  shows "(\<exists>ts b1. apply_loop n E interrupted permission True 0 (blk_body (ob_block b)) b = (Ok (Some ts), b1) \<and>
      state_good (env_libs E) (ob_state b1)) \<and>
    (case apply_transactions n E interrupted permission True b of (r, b') \<Rightarrow>
      (\<exists>rs. ob_receipts b' = ob_receipts b @ rs \<and> length rs = length (blk_body (ob_block b))) \<and>
      block_used b' \<le> block_limit b \<and>
      block_used b' + sum (account_room b') A = block_used b + sum (account_room b) A \<and>
      (case r of Ok done \<Rightarrow> done \<and> hdr_gas_used (blk_header (ob_block b')) = ob_current_gas_used b' | _ \<Rightarrow> True))"
proof -
  obtain ts b1 where l: "apply_loop n E interrupted permission True 0 (blk_body (ob_block b)) b = (Ok (Some ts), b1)"
    and p: "block_post (env_libs E) True (blk_body (ob_block b)) b b1"
    and len: "length (ob_receipts b1) = length (ob_receipts b) + length (blk_body (ob_block b))"
    using apply_loop_ok [OF assms(1-6), of interrupted permission True 0] assms(7) by blast
  have st: "state_good (env_libs E) (ob_state b1)" and lim: "block_used b1 \<le> block_limit b"
    and sum: "block_used b1 + sum (account_room b1) A = block_used b + sum (account_room b) A"
    using p assms(8-10) unfolding block_post_def by blast+
  obtain rs where rs: "ob_receipts b1 = ob_receipts b @ rs" "length rs = length (blk_body (ob_block b))"
    using p len unfolding block_post_def by fastforce
  obtain r s where c: "State_commit (env_libs E) (ob_state b1) = (r, s)" by fastforce
  have room: "account_room (b1\<lparr>ob_block := x, ob_state := s\<rparr>) = account_room b1" "account_room (b1\<lparr>ob_state := s, ob_block := x\<rparr>) = account_room b1" for x
    by (simp_all add: fun_eq_iff account_room_def cong: option.case_cong)
  show ?thesis
    using l st lim sum rs c by (cases r) (auto simp: apply_transactions_def Let_def room set_gas_used_def note_dirty_def)
qed

theorem block_execution_accounted_witness:
  "case apply_transactions 1025 sample_env (\<lambda>_. False) False True sample_open of (r, b') \<Rightarrow>
    length (ob_receipts b') = 2 \<and> block_used b' + account_room b' 7 = 150000"
proof -
  have t: "list_all tx_fit (blk_body (ob_block sample_open))" "demand (blk_body (ob_block sample_open)) = 200002"
    by (simp_all add: sample_open_def tx_fit_def sample_tx_def)
  have e: "block_env_ok sample_env sample_open" "env_libs sample_env = sample_libs" "ob_state sample_open = sample_state"
    "block_used sample_open = 0" "account_room sample_open 7 = 150000" "tx_sender ` set (blk_body (ob_block sample_open)) \<subseteq> {7}"
    "length (blk_body (ob_block sample_open)) = 2" "ob_receipts sample_open = []"
    by (simp_all add: block_env_ok_def env_ok_def sample_env_def OpenBlock_env_info_def sample_open_def sample_header_def
        Header_default_def Header_hash_def Let_def account_room_def sample_tx_def)
  show ?thesis
    using block_execution_accounted [of 1025 sample_env sample_open "\<lambda>_. False" "{7}" False] t e by (auto split: prod.splits)
qed

section \<open>Encoding\<close>

text \<open>C20: A block whose header has its hash and whose transactions have the senders of their public keys is
  read back from its encoding as it was, and two such blocks with the same encoding are the same.\<close>

theorem block_encoding_roundtrip:
  assumes "header_libs_ok H" "hdr_hash (blk_header b) = Some (rlp_hash H (blk_header b))" "list_all (tx_regular C) (blk_body b)"
    "hdr_hash (blk_header b') = Some (rlp_hash H (blk_header b'))" "list_all (tx_regular C) (blk_body b')"
  shows "Block_decode C H (Block_append H b) = Ok b \<and> (Block_append H b = Block_append H b' \<longleftrightarrow> b = b')"
  using block.decode_append [of H b C] block.append_inject [of H b C b'] assms by blast

theorem block_encoding_roundtrip_witness:
  "let b = \<lparr>blk_header = sample_header, blk_body = [sample_tx\<lparr>tx_public := 7\<rparr>]\<rparr> in
    Block_decode sample_crypto sample_header_libs (Block_append sample_header_libs b) = Ok b"
proof -
  let ?b = "\<lparr>blk_header = sample_header, blk_body = [sample_tx\<lparr>tx_public := 7\<rparr>]\<rparr>"
  have n: "hdr_hash (Header_default sample_header_libs) = None" by (simp add: Header_default_def)
  have h: "hdr_hash (blk_header ?b) = Some (rlp_hash sample_header_libs (blk_header ?b))"
    by (simp add: sample_header_def Header_hash_def Let_def n)
  have t: "list_all (tx_regular sample_crypto) (blk_body ?b)"
    by (simp add: tx_regular_def sample_tx_def plain_action_def sample_crypto_def)
  show ?thesis unfolding Let_def using block_encoding_roundtrip [OF sample_header_libs_ok h t h t] by blast
qed

section \<open>The bloom filter of a block\<close>

text \<open>C17: Searching by blooms loses no log: where a filter matches a log of a receipt of a block, the bloom
  filter in the header of the closed block contains one of the bloom possibilities of the filter,
  unless the filter has a topic with no alternatives. Such a topic matches every log and leaves no
  possibility at all.\<close>

theorem log_filter_complete:
  assumes "bloom_ok L" "Filter_matches f log" "log \<in> set logs" "Some (Receipt_new L root gas logs err nonce) \<in> set (ob_receipts b)"
  shows "if Some [] \<in> set (fl_topics f) then Filter_bloom_possibilities L f = []
    else \<exists>p\<in>set (Filter_bloom_possibilities L f).
      contains_bloom (hdr_log_bloom (blk_header (ob_block (into_closed_block merkle_root R raw b)))) p"
proof -
  let ?r = "Receipt_new L root gas logs err nonce"
  have "?r \<in> set (List.map_filter id (ob_receipts b))" using assms(4) by (force simp: map_filter_def)
  then have "contains_bloom (hdr_log_bloom (blk_header (ob_block (into_closed_block merkle_root R raw b)))) (rc_log_bloom ?r)"
    using contains_fold_or [of ?r _ rc_log_bloom 0]
    by (simp add: into_closed_block_def Let_def header_setters note_dirty_def)
  from contains_bloom_trans [OF this Receipt_bloom_contains [OF assms(3)]]
  show ?thesis using Filter_bloom_sound [OF assms(1,2)]
    by (simp add: Filter_bloom_possibilities_def possibilities_empty)
qed

theorem log_filter_complete_witness:
  "\<exists>p\<in>set (Filter_bloom_possibilities sample_libs
      \<lparr>fl_from_block = BlockId_Number 0, fl_to_block = BlockId_Number 9, fl_address = Some [1], fl_topics = [None, Some [4, 3]], fl_limit = None\<rparr>).
    contains_bloom (hdr_log_bloom (blk_header (ob_block (into_closed_block (\<lambda>_. 0) sample_items (\<lambda>_. [])
      (sample_open\<lparr>ob_receipts := [None, Some sample_receipt]\<rparr>))))) p"
proof -
  let ?f = "\<lparr>fl_from_block = BlockId_Number 0, fl_to_block = BlockId_Number 9, fl_address = Some [1],
    fl_topics = [None, Some [4, 3]], fl_limit = None\<rparr>" and ?log = "\<lparr>le_address = 1, le_topics = [2, 3], le_data = []\<rparr>"
  have m: "Filter_matches ?f ?log" by (simp add: Filter_matches_def)
  have r: "Some (Receipt_new sample_libs None 21000 [?log] None 0) \<in> set (ob_receipts (sample_open\<lparr>ob_receipts := [None, Some sample_receipt]\<rparr>))"
    by (simp add: sample_receipt_def)
  show ?thesis using log_filter_complete [OF sample_bloom_ok m _ r] by simp
qed

end
