(* ===== verification/Rust_Collections.thy ===== *)
theory Rust_Collections
  imports Cita_Prelude "HOL-Library.AList"
begin

text \<open>
  The operations of the standard library on ranges, slices, vectors and ordered maps that the services use. A
  \<open>BTreeMap\<close> is the list of its entries in the order of the keys.
\<close>

section \<open>Ranges and vectors\<close>

text \<open>The range \<open>low..high\<close>.\<close>

definition heights :: "u64 \<Rightarrow> u64 \<Rightarrow> u64 list" where
  "heights low high = map of_nat [unat low..<unat high]"

text \<open>\<open>slice::chunks\<close>, which panics for the size 0.\<close>

function chunks :: "nat \<Rightarrow> 'a list \<Rightarrow> 'a list list" where
  "chunks n xs = (if xs = [] \<or> n = 0 then [] else take n xs # chunks n (drop n xs))"
  by pat_completeness auto
termination
  by (relation "measure (\<lambda>(n, xs). length xs)") auto

declare chunks.simps [simp del]

text \<open>\<open>Iterator::position\<close> and \<open>Vec::remove\<close>.\<close>

fun position :: "('a \<Rightarrow> bool) \<Rightarrow> 'a list \<Rightarrow> nat option" where
  "position P [] = None"
| "position P (x # xs) = (if P x then Some 0 else map_option Suc (position P xs))"

definition remove_at :: "nat \<Rightarrow> 'a list \<Rightarrow> ('e, 'a list) res" where
  "remove_at i xs = (if i < length xs then Ok (take i xs @ drop (Suc i) xs) else Panic)"

lemma position_less: "position P xs = Some i \<Longrightarrow> i < length xs"
  by (induction xs arbitrary: i) (auto split: if_splits)

lemma fold_delete: "fold AList.delete ks xs = filter (\<lambda>(k, _). k \<notin> set ks) xs"
  by (induction ks arbitrary: xs) (auto simp: AList.delete_eq intro!: filter_cong)

lemma set_heights: "set (heights a b) = {a..<b}"
proof -
  have small: "unat (of_nat k :: u64) = k" if "k < unat b" for k
    using that unsigned_less [of b, where ?'a = nat] by (intro unat_of_nat_small) simp
  have "x \<in> {a..<b}" if "x \<in> set (heights a b)" for x
    using that small by (auto simp: heights_def word_le_nat_alt word_less_nat_alt)
  moreover have "x \<in> set (heights a b)" if "x \<in> {a..<b}" for x
  proof -
    have "unat x \<in> set [unat a..<unat b]" using that by (simp add: word_le_nat_alt word_less_nat_alt)
    then have "of_nat (unat x) \<in> set (heights a b)" unfolding heights_def set_map by (rule imageI)
    then show ?thesis by simp
  qed
  ultimately show ?thesis by blast
qed

lemma chunks_Nil [simp]: "chunks n [] = []"
  by (subst chunks.simps) simp

lemma concat_chunks: "0 < n \<Longrightarrow> concat (chunks n xs) = xs"
  by (induction n xs rule: chunks.induct) (subst chunks.simps, simp)

lemma position_Some: "position P xs = Some i \<Longrightarrow> P (xs ! i)"
  by (induction xs arbitrary: i) (auto split: if_splits)

lemma position_None: "position P xs = None \<longleftrightarrow> (\<forall>x\<in>set xs. \<not> P x)"
  by (induction xs) auto

section \<open>Ordered maps\<close>

fun bt_insert :: "'k::linorder \<Rightarrow> 'v \<Rightarrow> ('k \<times> 'v) list \<Rightarrow> ('k \<times> 'v) list" where
  "bt_insert k v [] = [(k, v)]"
| "bt_insert k v ((k', v') # m) = (if k < k' then (k, v) # (k', v') # m else if k = k' then (k, v) # m else (k', v') # bt_insert k v m)"

definition bt_remove :: "'k \<Rightarrow> ('k \<times> 'v) list \<Rightarrow> ('k \<times> 'v) list" where
  "bt_remove k m = filter (\<lambda>(k', _). k' \<noteq> k) m"

text \<open>\<open>split_off(&k)\<close> returns the entries from \<open>k\<close> on.\<close>

definition bt_split_off :: "'k::linorder \<Rightarrow> ('k \<times> 'v) list \<Rightarrow> ('k \<times> 'v) list" where
  "bt_split_off k m = filter (\<lambda>(k', _). k \<le> k') m"

definition bt_ok :: "('k::linorder \<times> 'v) list \<Rightarrow> bool" where
  "bt_ok m \<longleftrightarrow> sorted_wrt (<) (map fst m)"

lemma set_bt_insert: "set (bt_insert k v m) \<subseteq> insert (k, v) (set m)" "fst ` set (bt_insert k v m) = insert k (fst ` set m)"
  by (induction k v m rule: bt_insert.induct) auto

lemma bt_ok_insert: "bt_ok m \<Longrightarrow> bt_ok (bt_insert k v m)"
  by (induction k v m rule: bt_insert.induct) (auto simp: bt_ok_def set_bt_insert(2) simp flip: image_set)

lemma bt_ok_filter: "bt_ok m \<Longrightarrow> bt_ok (bt_remove k m)" "bt_ok m \<Longrightarrow> bt_ok (bt_split_off k m)"
  by (induction m) (auto simp: bt_ok_def bt_remove_def bt_split_off_def)

lemma set_bt_filter: "set (bt_remove k m) = {p \<in> set m. fst p \<noteq> k}" "set (bt_split_off k m) = {p \<in> set m. k \<le> fst p}"
  by (auto simp: bt_remove_def bt_split_off_def)

end
