(* ===== verification/Auth_Verifier.thy ===== *)
theory Auth_Verifier
  imports Rust_Collections
begin

text \<open>
  The verifier of the authentication service (\<^verbatim>\<open>cita-auth/src/verifier.rs\<close>): it keeps the hashes of the
  transactions of the last \<open>BLOCKLIMIT\<close> blocks and checks transactions against them. A set of block
  heights is a list of words; the messages asking for missing blocks are the heights they ask for.
\<close>

section \<open>Requests and responses\<close>

text \<open>What the service needs of other crates: the constants, the conversions of bytes to hashes and the
  recovery of the public key from a signature.\<close>

record auth_libs =
  al_blocklimit :: u64
  al_signature_bytes_len :: nat
  al_h256_from_slice :: "bytes \<Rightarrow> h256"
  al_h256_from :: "bytes \<Rightarrow> h256"
  al_recover :: "bytes \<Rightarrow> h256 \<Rightarrow> bytes option"

datatype Ret = Ret_OK | Ret_BadSig | Ret_InvalidNonce | Ret_Dup | Ret_NotReady | Ret_InvalidUntilBlock | Ret_Busy

datatype Crypto = Crypto_SECP | Crypto_other

record VerifyTxReq =
  vr_valid_until_block :: u64
  vr_hash :: bytes
  vr_crypto :: Crypto
  vr_signature :: bytes
  vr_nonce :: bytes
  vr_tx_hash :: bytes
  vr_signer :: bytes

record VerifyTxResp =
  vp_ret :: Ret
  vp_signer :: bytes
  vp_tx_hash :: bytes

definition refused :: "VerifyTxReq \<Rightarrow> Ret \<Rightarrow> VerifyTxResp" where
  "refused req ret = \<lparr>vp_ret = ret, vp_signer = [], vp_tx_hash = vr_tx_hash req\<rparr>"

section \<open>The verifier\<close>

record Verifier =
  vf_inited :: bool
  vf_height_latest :: "u64 option"
  vf_height_low :: "u64 option"
  vf_hashes :: "(u64 \<times> h256 set) list"

definition Verifier_default :: Verifier where
  "Verifier_default = \<lparr>vf_inited = False, vf_height_latest = None, vf_height_low = None, vf_hashes = []\<rparr>"

definition send_txhashs_req :: "u64 \<Rightarrow> u64 \<Rightarrow> u64 list" where
  "send_txhashs_req low high = heights low high"

definition window_low :: "u64 \<Rightarrow> u64 \<Rightarrow> (string, u64) res" where
  "window_low B h = (if h < B then Ok 0 else res_bind (minus_chk h B) (\<lambda>d. plus_chk d 1))"

text \<open>The end of \<open>update_hashes\<close>.\<close>

definition insert_hashes :: "u64 \<Rightarrow> h256 set \<Rightarrow> Verifier \<Rightarrow> (string, Verifier) res" where
  "insert_hashes h hashes v =
     (let v1 = v\<lparr>vf_hashes := AList.update h hashes (vf_hashes v)\<rparr> in
      res_bind (expect (vf_height_latest v1)) (\<lambda>latest.
      res_bind (expect (vf_height_low v1)) (\<lambda>low.
      res_bind (minus_chk latest low) (\<lambda>d. res_bind (plus_chk d 1) (\<lambda>n.
      Ok (if of_nat (length (vf_hashes v1)) = n then v1\<lparr>vf_inited := True\<rparr> else v1))))))"

definition update_hashes :: "u64 \<Rightarrow> u64 \<Rightarrow> h256 set \<Rightarrow> Verifier \<Rightarrow> (string, Verifier \<times> u64 list) res" where
  "update_hashes B h hashes v =
     (if vf_height_latest v = None \<and> vf_height_low v = None
      then res_bind (window_low B h) (\<lambda>low.
           res_map (\<lambda>v'. (v', send_txhashs_req low h))
             (insert_hashes h hashes (v\<lparr>vf_height_latest := Some h, vf_height_low := Some low\<rparr>)))
      else res_bind (expect (vf_height_latest v)) (\<lambda>current_height.
           res_bind (expect (vf_height_low v)) (\<lambda>current_height_low.
           res_bind (plus_chk current_height 1) (\<lambda>next.
           if h = next
           then res_bind (window_low B h) (\<lambda>low.
                let v1 = v\<lparr>vf_height_latest := Some h, vf_height_low := Some low,
                           vf_hashes := fold AList.delete (heights current_height_low low) (vf_hashes v)\<rparr> in
                if h < low then Ok (v1, []) else res_map (\<lambda>v'. (v', [])) (insert_hashes h hashes v1))
           else if h > next
           then res_bind (plus_chk h 1) (\<lambda>h1. Ok (v, send_txhashs_req next h1))
           else if h < current_height_low then Ok (v, [])
           else res_map (\<lambda>v'. (v', [])) (insert_hashes h hashes v)))))"

definition check_hash_exist :: "h256 \<Rightarrow> Verifier \<Rightarrow> bool" where
  "check_hash_exist hash v = (if \<not> vf_inited v then True else list_ex (\<lambda>(height, hashes). hash \<in> hashes) (vf_hashes v))"

definition verify_sig :: "auth_libs \<Rightarrow> VerifyTxReq \<Rightarrow> bytes option" where
  "verify_sig L req =
     (let hash = al_h256_from L (vr_hash req); sig_bytes = vr_signature req in
      if length sig_bytes \<noteq> al_signature_bytes_len L then None
      else (case vr_crypto req of Crypto_SECP \<Rightarrow> al_recover L sig_bytes hash | _ \<Rightarrow> None))"

definition verfiy_tx :: "auth_libs \<Rightarrow> VerifyTxReq \<Rightarrow> Verifier \<Rightarrow> VerifyTxResp" where
  "verfiy_tx L req v =
     (if length (vr_nonce req) > 128 then refused req Ret_InvalidNonce
      else if check_hash_exist (al_h256_from_slice L (vr_tx_hash req)) v
      then refused req (if vf_inited v then Ret_Dup else Ret_NotReady)
      else (case verify_sig L req of
          None \<Rightarrow> refused req Ret_BadSig
        | Some pubkey \<Rightarrow>
            if vr_signer req \<noteq> [] \<and> vr_signer req \<noteq> pubkey then refused req Ret_BadSig
            else \<lparr>vp_ret = Ret_OK, vp_signer = pubkey, vp_tx_hash = vr_tx_hash req\<rparr>))"

definition verify_valid_until_block :: "u64 \<Rightarrow> u64 \<Rightarrow> Verifier \<Rightarrow> (string, bool) res" where
  "verify_valid_until_block B valid_until_block v =
     (case vf_height_latest v of
        Some height \<Rightarrow>
          if valid_until_block > height then res_map (\<lambda>top. valid_until_block \<le> top) (plus_chk height B) else Ok False
      | None \<Rightarrow> Ok False)"

section \<open>The window of blocks\<close>

text \<open>The heights of the window of \<open>B\<close> blocks that ends at \<open>l\<close>, as numbers.\<close>

definition window :: "u64 \<Rightarrow> u64 \<Rightarrow> nat set" where
  "window B l = {unat l + 1 - unat B .. unat l}"

text \<open>The verifier holds hashes of the blocks of the chain only, within the window, and once it is
  initialised it holds those of every block of the window.\<close>

definition verifier_ok :: "u64 \<Rightarrow> (u64 \<Rightarrow> h256 set) \<Rightarrow> Verifier \<Rightarrow> bool" where
  "verifier_ok B chain v \<longleftrightarrow>
     (case (vf_height_latest v, vf_height_low v) of
        (None, None) \<Rightarrow> vf_hashes v = [] \<and> \<not> vf_inited v
      | (Some l, Some w) \<Rightarrow> unat w = unat l + 1 - unat B \<and> distinct (map fst (vf_hashes v)) \<and>
          (\<forall>(k, s) \<in> set (vf_hashes v). s = chain k) \<and> (unat \<circ> fst) ` set (vf_hashes v) \<subseteq> window B l \<and>
          (vf_inited v \<longrightarrow> (unat \<circ> fst) ` set (vf_hashes v) = window B l)
      | _ \<Rightarrow> False)"

lemma window_low_unat:
  assumes "0 < B" "window_low B h = Ok w"
  shows "unat w = unat h + 1 - unat B"
proof (cases "h < B")
  case True
  then show ?thesis using assms by (auto simp: window_low_def word_less_nat_alt)
next
  case False
  then obtain d where d: "minus_chk h B = (Ok d :: (string, u64) res)" "plus_chk d 1 = (Ok w :: (string, u64) res)"
    using assms(2) by (auto simp: window_low_def)
  show ?thesis using minus_chk_unat [OF d(1)] plus_chk_unat [OF d(2)] False by (simp add: not_less word_le_nat_alt)
qed

lemma window_low_ok: "0 < B \<Longrightarrow> \<exists>w. window_low B h = Ok w"
proof (cases "h < B")
  case False
  assume B: "0 < B"
  have "B \<le> h" using False by simp
  moreover have "unat (h - B) + 1 < 2 ^ 64"
    using B unsigned_less [of h, where ?'a = nat] \<open>B \<le> h\<close> by (simp add: unat_sub word_less_nat_alt)
  ultimately show ?thesis by (simp add: window_low_def minus_chk_def plus_chk_def)
qed (simp add: window_low_def)

abbreviation kept_heights :: "Verifier \<Rightarrow> nat set" where
  "kept_heights v \<equiv> (unat \<circ> fst) ` set (vf_hashes v)"

lemma card_kept: "distinct (map fst (vf_hashes v)) \<Longrightarrow> card (kept_heights v) = length (vf_hashes v)"
proof -
  assume d: "distinct (map fst (vf_hashes v))"
  have "kept_heights v = unat ` set (map fst (vf_hashes v))" by (simp add: image_comp)
  moreover have "card (unat ` set (map fst (vf_hashes v))) = card (set (map fst (vf_hashes v)))"
    by (rule card_image) (simp add: inj_on_def word_unat_eq_iff)
  ultimately show ?thesis using distinct_card [OF d] by simp
qed

lemma set_update: "distinct (map fst al) \<Longrightarrow> set (AList.update k v al) = insert (k, v) {p \<in> set al. fst p \<noteq> k}"
  by (induction al) (auto simp: image_iff)

lemma insert_hashes_ok:
  assumes v: "vf_height_latest v = Some l" "vf_height_low v = Some w" "unat w = unat l + 1 - unat B" and B: "0 < B"
    and d: "distinct (map fst (vf_hashes v))" "\<forall>(k, s) \<in> set (vf_hashes v). s = chain k"
    and k: "kept_heights v \<subseteq> window B l" "unat h \<in> window B l"
      "vf_inited v \<Longrightarrow> window B l \<subseteq> insert (unat h) (kept_heights v)"
  shows "\<exists>v'. insert_hashes h (chain h) v = Ok v' \<and> verifier_ok B chain v' \<and> vf_height_latest v' = Some l"
proof -
  let ?v = "v\<lparr>vf_hashes := AList.update h (chain h) (vf_hashes v)\<rparr>"
  have B': "0 < unat B" using B by (simp add: word_less_nat_alt)
  have set: "set (vf_hashes ?v) = insert (h, chain h) {p \<in> set (vf_hashes v). fst p \<noteq> h}" using set_update [OF d(1)] by simp
  have kept: "kept_heights ?v = insert (unat h) (kept_heights v)" unfolding set by auto
  have dist: "distinct (map fst (vf_hashes ?v))" using d(1) by (simp add: distinct_update)
  have wl: "w \<le> l" using v(3) B' by (simp add: word_le_nat_alt)
  have n: "unat (l - w) = unat l - unat w" by (rule unat_minus_le [OF wl])
  have lt: "unat l - unat w + 1 < 2 ^ 64"
    using v(3) B' unsigned_less [of B, where ?'a = nat] unsigned_less [of l, where ?'a = nat] by simp
  have card: "card (window B l) = unat l - unat w + 1" using v(3) B' by (simp add: window_def)
  have le: "length (vf_hashes ?v) \<le> unat l - unat w + 1"
    using card_mono [of "window B l" "kept_heights ?v"] card_kept [OF dist] kept k(1,2) card by (simp add: window_def)
  have full: "kept_heights ?v = window B l" if "of_nat (length (vf_hashes ?v)) = l - w + 1"
  proof -
    have "unat (of_nat (length (vf_hashes ?v)) :: u64) = length (vf_hashes ?v)" using le lt by (intro unat_of_nat_small) simp
    moreover have "unat (l - w + 1) = unat l - unat w + 1" using unat_add_small [of "l - w" 1] lt n by simp
    ultimately have "card (kept_heights ?v) = card (window B l)" using that card card_kept [OF dist] by metis
    then show ?thesis using kept k(1,2) by (intro card_subset_eq) (auto simp: window_def)
  qed
  have run: "insert_hashes h (chain h) v = Ok (if of_nat (length (vf_hashes ?v)) = l - w + 1 then ?v\<lparr>vf_inited := True\<rparr> else ?v)"
    using v wl lt n by (simp add: insert_hashes_def Let_def minus_chk_def plus_chk_def)
  have chain: "\<forall>(k, s) \<in> set (vf_hashes ?v). s = chain k" unfolding set using d(2) by auto
  have "verifier_ok B chain (?v\<lparr>vf_inited := b\<rparr>)" if "b \<Longrightarrow> kept_heights ?v = window B l" for b
    using v dist chain kept k(1,2) that by (auto simp: verifier_ok_def)
  then have "verifier_ok B chain (?v\<lparr>vf_inited := True\<rparr>)" if "of_nat (length (vf_hashes ?v)) = l - w + 1"
    using full [OF that] by blast
  moreover have "verifier_ok B chain ?v"
  proof -
    have "kept_heights ?v = window B l" if "vf_inited v" using k(3) [OF that] kept k(1,2) by auto
    then show ?thesis using v dist chain kept k(1,2) by (auto simp: verifier_ok_def)
  qed
  ultimately show ?thesis unfolding run using v(1) by auto
qed

lemma update_hashes_ok:
  assumes B: "0 < B" and v: "verifier_ok B chain v" and run: "update_hashes B h (chain h) v = Ok (v', reqs)"
  shows "verifier_ok B chain v'"
proof -
  have B': "0 < unat B" using B by (simp add: word_less_nat_alt)
  consider "vf_height_latest v = None" "vf_height_low v = None"
    | l w where "vf_height_latest v = Some l" "vf_height_low v = Some w"
    using v by (auto simp: verifier_ok_def split: option.splits)
  then show ?thesis
  proof cases
    case 1
    then have e: "vf_hashes v = []" "\<not> vf_inited v" using v by (simp_all add: verifier_ok_def)
    obtain low where low: "window_low B h = Ok low"
      and r: "insert_hashes h (chain h) (v\<lparr>vf_height_latest := Some h, vf_height_low := Some low\<rparr>) = Ok v'"
      using run 1 by (auto simp: update_hashes_def)
    show ?thesis
      using insert_hashes_ok [of "v\<lparr>vf_height_latest := Some h, vf_height_low := Some low\<rparr>" h low B chain h]
        window_low_unat [OF B low] B B' e r by (auto simp: window_def)
  next
    case (2 l w)
    note lw = 2
    have ok: "unat w = unat l + 1 - unat B" "distinct (map fst (vf_hashes v))" "\<forall>(k, s) \<in> set (vf_hashes v). s = chain k"
      "kept_heights v \<subseteq> window B l" "vf_inited v \<Longrightarrow> kept_heights v = window B l"
      using v lw by (simp_all add: verifier_ok_def)
    obtain next' where nx: "plus_chk l 1 = (Ok next' :: (string, u64) res)" using run lw by (auto simp: update_hashes_def)
    have nxu: "unat next' = unat l + 1" using plus_chk_unat [OF nx] by simp
    consider "h = next'" | "h > next'" | "h < w" "h \<noteq> next'" "\<not> h > next'" | "h \<le> l" "w \<le> h"
      using nxu by (cases "h = next'"; cases "h > next'"; cases "h < w") (auto simp: word_le_nat_alt word_less_nat_alt word_unat_eq_iff)
    then show ?thesis
    proof cases
      case 1
      obtain low where low: "window_low B h = Ok low" using run lw nx 1 by (auto simp: update_hashes_def)
      have lu: "unat low = unat h + 1 - unat B" by (rule window_low_unat [OF B low])
      let ?v = "v\<lparr>vf_height_latest := Some h, vf_height_low := Some low,
                 vf_hashes := fold AList.delete (heights w low) (vf_hashes v)\<rparr>"
      have f: "vf_hashes ?v = filter (\<lambda>(k, _). k \<notin> {w..<low}) (vf_hashes v)" by (simp add: fold_delete set_heights)
      have d: "distinct (map fst (vf_hashes ?v))" unfolding f using ok(2) by (simp add: distinct_map_filter)
      have le: "\<not> h < low" using lu B' by (simp add: word_less_nat_alt)
      have kept: "kept_heights ?v = {n \<in> kept_heights v. \<not> (unat w \<le> n \<and> n < unat low)}"
        unfolding f by (auto simp: word_le_nat_alt word_less_nat_alt)
      have sub: "kept_heights ?v \<subseteq> window B h" "unat h \<in> window B h"
        using kept ok(1,4) lu 1 nxu B' by (auto simp: window_def)
      have full: "window B h \<subseteq> insert (unat h) (kept_heights ?v)" if "vf_inited v"
        using kept ok(1) ok(5) [OF that] lu 1 nxu by (auto simp: window_def)
      have r: "insert_hashes h (chain h) ?v = Ok v'" using run lw nx 1 low le by (auto simp: update_hashes_def Let_def)
      have "\<forall>(k, s) \<in> set (vf_hashes ?v). s = chain k" unfolding f using ok(3) by auto
      then show ?thesis using insert_hashes_ok [of ?v h low B chain h] lu B d sub full r by auto
    next
      case 2
      then have "h \<noteq> next'" by simp
      then show ?thesis using run lw nx v 2 by (auto simp: update_hashes_def)
    next
      case 3
      then show ?thesis using run lw nx v by (auto simp: update_hashes_def)
    next
      case 4
      then have "insert_hashes h (chain h) v = Ok v'"
        using run lw nx nxu by (auto simp: update_hashes_def word_less_nat_alt word_le_nat_alt split: if_splits)
      moreover have "unat h \<in> window B l" using 4 ok(1) by (auto simp: window_def word_le_nat_alt)
      moreover have "window B l \<subseteq> insert (unat h) (kept_heights v)" if "vf_inited v" using ok(5) [OF that] by blast
      ultimately show ?thesis using insert_hashes_ok [OF lw ok(1) B ok(2-4), of h] by fastforce
    qed
  qed
qed

text \<open>The states of the verifier of a node that is told the hashes of the blocks of a chain, in any order
  and any number of times.\<close>

inductive verifier_run :: "u64 \<Rightarrow> (u64 \<Rightarrow> h256 set) \<Rightarrow> Verifier \<Rightarrow> bool" for B chain where
  run_new: "verifier_run B chain Verifier_default"
| run_update: "verifier_run B chain v \<Longrightarrow> update_hashes B h (chain h) v = Ok (v', reqs) \<Longrightarrow> verifier_run B chain v'"

lemma verifier_run_ok: "verifier_run B chain v \<Longrightarrow> 0 < B \<Longrightarrow> verifier_ok B chain v"
proof (induction rule: verifier_run.induct)
  case run_new
  then show ?case by (simp add: verifier_ok_def Verifier_default_def)
next
  case (run_update v h v' reqs)
  then show ?case using update_hashes_ok by blast
qed

text \<open>A hash of the window is found.\<close>

lemma check_hash_window:
  assumes "verifier_ok B chain v" "vf_height_latest v = Some l" "unat b \<in> window B l" "t \<in> chain b"
  shows "check_hash_exist t v"
proof (cases "vf_inited v")
  case True
  then have "unat b \<in> kept_heights v" using assms(1-3) by (auto simp: verifier_ok_def split: option.splits)
  then obtain p where p: "p \<in> set (vf_hashes v)" "unat (fst p) = unat b" by auto
  then have s: "(b, snd p) \<in> set (vf_hashes v)" by (metis prod.collapse word_unat_eq_iff)
  moreover have "snd p = chain b" using s assms(1,2) by (auto simp: verifier_ok_def split: option.splits)
  ultimately show ?thesis using True assms(4) by (auto simp: check_hash_exist_def list_ex_iff)
qed (simp add: check_hash_exist_def)

lemma verfiy_tx_OK:
  "vp_ret (verfiy_tx L req v) = Ret_OK \<longleftrightarrow> length (vr_nonce req) \<le> 128 \<and>
     \<not> check_hash_exist (al_h256_from_slice L (vr_tx_hash req)) v \<and>
     (\<exists>pubkey. verify_sig L req = Some pubkey \<and> (vr_signer req = [] \<or> vr_signer req = pubkey))"
  by (auto simp: verfiy_tx_def refused_def split: option.splits)

lemma valid_until_height:
  assumes "verify_valid_until_block B vu v = Ok True"
  obtains l where "vf_height_latest v = Some l" "unat l < unat vu" "unat vu \<le> unat l + unat B"
proof -
  obtain l top where "vf_height_latest v = Some l" "l < vu" "plus_chk l B = (Ok top :: (string, u64) res)" "vu \<le> top"
    using assms by (auto simp: verify_valid_until_block_def split: option.splits if_splits)
  then show thesis using that plus_chk_unat [of l B top] by (metis word_le_nat_alt word_less_nat_alt)
qed

lemma not_both:
  assumes v: "verifier_ok B chain v" and vu: "unat vu < unat b + unat B" and t: "t \<in> chain b" and l: "vf_height_latest v = Some l" "b \<le> l"
    and val: "verify_valid_until_block B vu v = Ok True"
  shows "check_hash_exist t v"
proof -
  obtain l' where "vf_height_latest v = Some l'" "unat l' < unat vu" by (rule valid_until_height [OF val])
  then have "unat l < unat vu" using l(1) by simp
  then have "unat b \<in> window B l" using l(2) vu by (simp add: window_def word_le_nat_alt)
  then show ?thesis by (rule check_hash_window [OF v l(1) _ t])
qed

end
