(* ===== verification/Auth_Handler.thy ===== *)
theory Auth_Handler
  imports Auth_Verifier
begin

text \<open>
  The handlers of the authentication service (\<^verbatim>\<open>cita-auth/src/handler.rs\<close>). A channel is the list of what was
  sent on it, so each handler returns what it sends. The cache of responses is shared with the threads
  of the pool: a handler that reads it several times takes the contents at each of its reads.
\<close>

section \<open>Data\<close>

datatype SubModules = SM_Jsonrpc | SM_Net | SM_Consensus | SM_Chain

datatype VerifyRequestID = SingleVerifyRequestID bytes | BlockVerifyRequestID u64

datatype VerifyRequestResponse = AuthRequest VerifyTxReq | AuthResponse VerifyTxResp

datatype VerifyResult = VerifyNotBegin | VerifyOngoing | VerifyFailed | VerifySucceeded

datatype VerifyType = SingleVerify | BlockVerify

record 'u VerifyRequestResponseInfo =
  vi_sub_module :: SubModules
  vi_verify_type :: VerifyType
  vi_request_id :: VerifyRequestID
  vi_req_resp :: VerifyRequestResponse
  vi_un_tx :: "'u option"

record BlockVerifyStatus =
  bs_request_id :: u64
  bs_result :: VerifyResult
  bs_required :: nat
  bs_capture :: nat
  bs_cache_hit :: nat

type_synonym verify_cache = "h256 \<rightharpoonup> VerifyTxResp"

text \<open>What goes to the message queue: the answer to a block verification, the answer to a client whose
  transaction is refused, and the request for the hashes of a block.\<close>

datatype auth_message = Verify_blk_res u64 Ret | Rpc_error bytes Ret | Blk_tx_hashs_req u64

text \<open>A verified transaction on its way to the pool of transactions.\<close>

record 'u PoolTx =
  pt_sub_module :: SubModules
  pt_request_id :: bytes
  pt_tx_hash :: h256
  pt_signer :: bytes
  pt_un_tx :: 'u

section \<open>Single steps\<close>

definition process_flow_control_failed :: "'u VerifyRequestResponseInfo \<Rightarrow> 'u VerifyRequestResponseInfo list" where
  "process_flow_control_failed verify_info =
     (case vi_req_resp verify_info of
        AuthRequest req \<Rightarrow> [verify_info\<lparr>vi_req_resp := AuthResponse (refused req Ret_Busy)\<rparr>]
      | AuthResponse _ \<Rightarrow> [])"

text \<open>One round of the loop of \<open>verify_tx_group_service\<close>: it verifies, enters the response into the cache and
  sends it. The loop takes the requests from the end of the group.\<close>

definition verify_one ::
  "auth_libs \<Rightarrow> Verifier \<Rightarrow> 'u VerifyRequestResponseInfo \<Rightarrow> verify_cache \<Rightarrow> verify_cache \<times> 'u VerifyRequestResponseInfo list" where
  "verify_one L v req_info cache =
     (case vi_req_resp req_info of
        AuthRequest req \<Rightarrow>
          let tx_hash = al_h256_from_slice L (vr_tx_hash req); response = verfiy_tx L req v in
          (cache(tx_hash \<mapsto> response), [req_info\<lparr>vi_req_resp := AuthResponse response\<rparr>])
      | AuthResponse _ \<Rightarrow> (cache, []))"

fun verify_all ::
  "auth_libs \<Rightarrow> Verifier \<Rightarrow> 'u VerifyRequestResponseInfo list \<Rightarrow> verify_cache \<Rightarrow> verify_cache \<times> 'u VerifyRequestResponseInfo list" where
  "verify_all L v [] cache = (cache, [])"
| "verify_all L v (r # rs) cache =
     (case verify_one L v r cache of (cache1, out) \<Rightarrow> case verify_all L v rs cache1 of (cache2, outs) \<Rightarrow> (cache2, out @ outs))"

definition verify_tx_group_service ::
  "auth_libs \<Rightarrow> Verifier \<Rightarrow> 'u VerifyRequestResponseInfo list \<Rightarrow> verify_cache \<Rightarrow> verify_cache \<times> 'u VerifyRequestResponseInfo list" where
  "verify_tx_group_service L v req_grp cache = verify_all L v (rev req_grp) cache"

definition get_resp_from_cache :: "h256 \<Rightarrow> verify_cache \<Rightarrow> VerifyTxResp option" where
  "get_resp_from_cache tx_hash cache = cache tx_hash"

definition check_verify_request_preprocess ::
  "auth_libs \<Rightarrow> Verifier \<Rightarrow> verify_cache \<Rightarrow> 'u VerifyRequestResponseInfo \<Rightarrow>
   (string, VerifyResult \<times> 'u VerifyRequestResponseInfo list) res" where
  "check_verify_request_preprocess L v cache req_info =
     (case vi_req_resp req_info of
        AuthResponse _ \<Rightarrow> Ok (VerifyNotBegin, [])
      | AuthRequest req \<Rightarrow>
          let tx_hash = al_h256_from_slice L (vr_tx_hash req); is_single_verify = (vi_verify_type req_info = SingleVerify) in
          res_bind (if is_single_verify then verify_valid_until_block (al_blocklimit L) (vr_valid_until_block req) v else Ok True) (\<lambda>valid.
          case (if \<not> valid then Some (refused req Ret_InvalidUntilBlock) else get_resp_from_cache tx_hash cache) of
            None \<Rightarrow> Ok (VerifyNotBegin, [])
          | Some final_response \<Rightarrow>
              Ok (if vp_ret final_response = Ret_OK then VerifySucceeded else VerifyFailed,
                  if is_single_verify then [req_info\<lparr>vi_req_resp := AuthResponse final_response\<rparr>] else [])))"

definition publish_block_verification_result :: "u64 \<Rightarrow> Ret \<Rightarrow> auth_message list" where
  "publish_block_verification_result request_id ret = [Verify_blk_res request_id ret]"

definition publish_block_verification_fail_result :: "u64 \<Rightarrow> h256 \<Rightarrow> verify_cache \<Rightarrow> auth_message list" where
  "publish_block_verification_fail_result request_id hash cache =
     publish_block_verification_result request_id
       (case get_resp_from_cache hash cache of Some resp \<Rightarrow> vp_ret resp | None \<Rightarrow> Ret_BadSig)"

section \<open>A block verification request\<close>

definition block_info :: "SubModules \<Rightarrow> u64 \<Rightarrow> VerifyTxReq \<Rightarrow> 'u VerifyRequestResponseInfo" where
  "block_info submodule request_id req = \<lparr>
     vi_sub_module = submodule, vi_verify_type = BlockVerify, vi_request_id = BlockVerifyRequestID request_id,
     vi_req_resp = AuthRequest req, vi_un_tx = None\<rparr>"

text \<open>The loop over the transactions of the block. The request at position \<open>i\<close> reads the cache as \<open>view (2 * i)\<close>,
  and the branch of a failure reads it again as \<open>view (2 * i + 1)\<close>. The comparison in that branch that has
  no effect is left out.\<close>

fun block_loop ::
  "auth_libs \<Rightarrow> Verifier \<Rightarrow> (nat \<Rightarrow> verify_cache) \<Rightarrow> SubModules \<Rightarrow> u64 \<Rightarrow> nat \<Rightarrow> VerifyTxReq list \<Rightarrow>
   BlockVerifyStatus \<Rightarrow> 'u VerifyRequestResponseInfo list \<Rightarrow>
   (string, BlockVerifyStatus \<times> 'u VerifyRequestResponseInfo list \<times> auth_message list) res" where
  "block_loop L v view submodule request_id i [] status need = Ok (status, need, [])"
| "block_loop L v view submodule request_id i (req # reqs) status need =
     res_bind (check_verify_request_preprocess L v (view (2 * i)) (block_info submodule request_id req :: 'u VerifyRequestResponseInfo)) (\<lambda>(result, _).
     case result of
       VerifySucceeded \<Rightarrow>
         block_loop L v view submodule request_id (Suc i) reqs
           (status\<lparr>bs_capture := bs_capture status + 1, bs_cache_hit := bs_cache_hit status + 1\<rparr>) need
     | VerifyFailed \<Rightarrow>
         (let tx_hash = al_h256_from_slice L (vr_tx_hash req);
              resp_ret = (case get_resp_from_cache tx_hash (view (2 * i + 1)) of Some resp \<Rightarrow> vp_ret resp | None \<Rightarrow> Ret_BadSig) in
          Ok (status, need, publish_block_verification_result request_id resp_ret))
     | _ \<Rightarrow> block_loop L v view submodule request_id (Suc i) reqs status (need @ [block_info submodule request_id req]))"

record 'u block_request_effect =
  be_status :: BlockVerifyStatus
  be_groups :: "'u VerifyRequestResponseInfo list list"
  be_out :: "auth_message list"

definition verify_block_req ::
  "auth_libs \<Rightarrow> Verifier \<Rightarrow> (nat \<Rightarrow> verify_cache) \<Rightarrow> nat \<Rightarrow> SubModules \<Rightarrow> u64 \<Rightarrow> VerifyTxReq list \<Rightarrow> BlockVerifyStatus \<Rightarrow>
   (string, 'u block_request_effect) res" where
  "verify_block_req L v view num_per_thread submodule request_id reqs old =
     (if length reqs > 0
      then res_bind (block_loop L v view submodule request_id 0 reqs
             \<lparr>bs_request_id = request_id, bs_result = VerifyOngoing, bs_required = length reqs, bs_capture = 0, bs_cache_hit = 0\<rparr> [])
           (\<lambda>(status, tx_need_verify, out).
             if length tx_need_verify > 0
             then (if num_per_thread = 0 then Panic
                   else Ok \<lparr>be_status = status, be_groups = chunks num_per_thread tx_need_verify, be_out = out\<rparr>)
             else if bs_capture status = bs_required status
             then Ok \<lparr>be_status = status\<lparr>bs_result := VerifySucceeded\<rparr>, be_groups = [],
                      be_out = out @ publish_block_verification_result request_id Ret_OK\<rparr>
             else Ok \<lparr>be_status = status, be_groups = [], be_out = out\<rparr>)
      else Ok \<lparr>be_status = old, be_groups = [], be_out = []\<rparr>)"

section \<open>Hashes of a block, new transactions\<close>

text \<open>The hashes of a block: they leave the cache, then they enter the verifier. The block goes on to the pool of
  transactions where it is the latest one.\<close>

definition forget_hashes :: "auth_libs \<Rightarrow> bytes list \<Rightarrow> verify_cache \<Rightarrow> verify_cache" where
  "forget_hashes L tx_hashes cache = fold (\<lambda>data c. c(al_h256_from_slice L data := None)) tx_hashes cache"

definition enter_hashes ::
  "auth_libs \<Rightarrow> u64 \<Rightarrow> bytes list \<Rightarrow> Verifier \<Rightarrow> (string, Verifier \<times> auth_message list \<times> (u64 \<times> h256 set) option) res" where
  "enter_hashes L height tx_hashes v =
     (let tx_hashes_in_h256 = al_h256_from_slice L ` set tx_hashes in
      res_bind (update_hashes (al_blocklimit L) height tx_hashes_in_h256 v) (\<lambda>(v', reqs).
      let flag = (case vf_height_latest v' of Some h \<Rightarrow> height = h | None \<Rightarrow> True) in
      Ok (v', map Blk_tx_hashs_req reqs, if flag then Some (height, tx_hashes_in_h256) else None)))"

text \<open>New transactions from clients and from other nodes, one or a batch.\<close>

definition single_info :: "('u \<Rightarrow> VerifyTxReq) \<Rightarrow> SubModules \<Rightarrow> 'u \<times> bytes \<Rightarrow> 'u VerifyRequestResponseInfo" where
  "single_info tx_verify_req_msg submodule = (\<lambda>(un_tx, request_id). \<lparr>
     vi_sub_module = submodule, vi_verify_type = SingleVerify, vi_request_id = SingleVerifyRequestID request_id,
     vi_req_resp = AuthRequest (tx_verify_req_msg un_tx), vi_un_tx = Some un_tx\<rparr>)"

definition new_tx_requests ::
  "('u \<Rightarrow> VerifyTxReq) \<Rightarrow> SubModules \<Rightarrow> ('u \<times> bytes) list option \<Rightarrow> ('u \<times> bytes) option \<Rightarrow> 'u VerifyRequestResponseInfo list" where
  "new_tx_requests tx_verify_req_msg submodule batch_req un_tx =
     (case batch_req of
        Some batch_new_tx \<Rightarrow> map (single_info tx_verify_req_msg submodule) batch_new_tx
      | None \<Rightarrow> (case un_tx of Some t \<Rightarrow> [single_info tx_verify_req_msg submodule t] | None \<Rightarrow> []))"

section \<open>Results\<close>

text \<open>A response on the channel of results: what goes to the pool of transactions, what goes to the message
  queue, and the status of the block verification.\<close>

definition handle_verificaton_result ::
  "auth_libs \<Rightarrow> 'u VerifyRequestResponseInfo \<Rightarrow> BlockVerifyStatus \<Rightarrow>
   (string, 'u PoolTx list \<times> auth_message list \<times> BlockVerifyStatus) res" where
  "handle_verificaton_result L info status =
     (case vi_req_resp info of
        AuthRequest _ \<Rightarrow> Ok ([], [], status)
      | AuthResponse resp \<Rightarrow>
          (case (vi_verify_type info, vi_request_id info) of
             (SingleVerify, SingleVerifyRequestID request_id) \<Rightarrow>
               (if vp_ret resp = Ret_OK
                then res_bind (expect (vi_un_tx info)) (\<lambda>un_tx.
                  Ok ([\<lparr>pt_sub_module = vi_sub_module info, pt_request_id = request_id,
                        pt_tx_hash = al_h256_from L (vp_tx_hash resp), pt_signer = vp_signer resp, pt_un_tx = un_tx\<rparr>], [], status))
                else Ok ([], if vi_sub_module info = SM_Jsonrpc then [Rpc_error request_id (vp_ret resp)] else [], status))
           | (BlockVerify, BlockVerifyRequestID request_id) \<Rightarrow>
               (let result = vp_ret resp in
                if result \<noteq> Ret_OK
                then (if request_id = bs_request_id status \<and> bs_result status \<noteq> VerifyFailed
                      then Ok ([], publish_block_verification_result request_id result, status\<lparr>bs_result := VerifyFailed\<rparr>)
                      else Ok ([], [], status))
                else if request_id = bs_request_id status
                then let status1 = status\<lparr>bs_capture := bs_capture status + 1\<rparr> in
                     (if bs_capture status1 = bs_required status1
                      then Ok ([], publish_block_verification_result request_id Ret_OK, status1\<lparr>bs_result := VerifySucceeded\<rparr>)
                      else Ok ([], [], status1))
                else Ok ([], [], status))
           | _ \<Rightarrow> Ok ([], [], status)))"

end
