(* ===== verification/Auth_Service.thy ===== *)
theory Auth_Service
  imports Auth_Handler
begin

text \<open>
  The handlers of the authentication service at work together (\<^verbatim>\<open>cita-auth/src/main.rs\<close>): a block verification
  from its request to its answer, the cache and the verifier over any sequence of messages and groups
  of verifications, and the same in the smaller steps that the locks of the code allow.
\<close>

section \<open>The threads\<close>

text \<open>One request of the thread that collects single verifications: what it answers at once, and what it adds
  to the group for the pool of threads.\<close>

definition receive_single ::
  "auth_libs \<Rightarrow> nat \<Rightarrow> nat \<Rightarrow> Verifier \<Rightarrow> verify_cache \<Rightarrow> 'u VerifyRequestResponseInfo \<Rightarrow>
   (string, 'u VerifyRequestResponseInfo list \<times> 'u VerifyRequestResponseInfo list) res" where
  "receive_single L tx_pool_limit capacity v cache info =
     (if tx_pool_limit \<noteq> 0 \<and> capacity = 0 then Ok (process_flow_control_failed info, [])
      else res_bind (check_verify_request_preprocess L v cache info) (\<lambda>(result, out).
        Ok (out, if result \<noteq> VerifyNotBegin then [] else [info])))"

text \<open>The main loop: it handles the results as they come.\<close>

fun handle_results ::
  "auth_libs \<Rightarrow> 'u VerifyRequestResponseInfo list \<Rightarrow> BlockVerifyStatus \<Rightarrow>
   (string, 'u PoolTx list \<times> auth_message list \<times> BlockVerifyStatus) res" where
  "handle_results L [] status = Ok ([], [], status)"
| "handle_results L (info # infos) status =
     res_bind (handle_verificaton_result L info status) (\<lambda>(txs, out, status1).
     res_bind (handle_results L infos status1) (\<lambda>(txs', out', status2). Ok (txs @ txs', out @ out', status2)))"

section \<open>A block verification\<close>

text \<open>The result of a transaction of the block with the given response.\<close>

definition block_result :: "SubModules \<Rightarrow> u64 \<Rightarrow> VerifyTxResp \<Rightarrow> 'u VerifyRequestResponseInfo" where
  "block_result submodule request_id resp = \<lparr>
     vi_sub_module = submodule, vi_verify_type = BlockVerify, vi_request_id = BlockVerifyRequestID request_id,
     vi_req_resp = AuthResponse resp, vi_un_tx = None\<rparr>"

definition verdict :: "VerifyTxResp list \<Rightarrow> Ret" where
  "verdict rs = (case List.find (\<lambda>r. vp_ret r \<noteq> Ret_OK) rs of None \<Rightarrow> Ret_OK | Some r \<Rightarrow> vp_ret r)"

lemma verdict_simps [simp]: "verdict [] = Ret_OK" "verdict (r # rs) = (if vp_ret r = Ret_OK then verdict rs else vp_ret r)"
  by (simp_all add: verdict_def)

lemma preprocess_block:
  "check_verify_request_preprocess L v cache (block_info submodule request_id req) =
     Ok (case cache (al_h256_from_slice L (vr_tx_hash req)) of None \<Rightarrow> VerifyNotBegin
         | Some r \<Rightarrow> if vp_ret r = Ret_OK then VerifySucceeded else VerifyFailed, [])"
  by (simp add: check_verify_request_preprocess_def block_info_def get_resp_from_cache_def split: option.splits)

text \<open>Where no transaction of the block is cached as refused.\<close>

fun none_refused :: "auth_libs \<Rightarrow> (nat \<Rightarrow> verify_cache) \<Rightarrow> nat \<Rightarrow> VerifyTxReq list \<Rightarrow> bool" where
  "none_refused L view i [] \<longleftrightarrow> True"
| "none_refused L view i (req # reqs) \<longleftrightarrow>
     pred_option (\<lambda>r. vp_ret r = Ret_OK) (view (2 * i) (al_h256_from_slice L (vr_tx_hash req))) \<and> none_refused L view (Suc i) reqs"

lemma block_loop_none_refused:
  "none_refused L view i reqs \<Longrightarrow>
   \<exists>hits misses. block_loop L v view submodule request_id i reqs status need =
       Ok (status\<lparr>bs_capture := bs_capture status + hits, bs_cache_hit := bs_cache_hit status + hits\<rparr>, need @ misses, []) \<and>
     hits + length misses = length reqs"
proof (induction reqs arbitrary: i status need)
  case Nil
  show ?case by (rule exI [of _ 0], rule exI [of _ "[]"]) simp
next
  case (Cons req reqs)
  have rest: "none_refused L view (Suc i) reqs" using Cons.prems by simp
  show ?case
  proof (cases "view (2 * i) (al_h256_from_slice L (vr_tx_hash req))")
    case None
    from Cons.IH [OF rest, of status "need @ [block_info submodule request_id req]"] obtain hits misses where
      ih: "block_loop L v view submodule request_id (Suc i) reqs status (need @ [block_info submodule request_id req]) =
        Ok (status\<lparr>bs_capture := bs_capture status + hits, bs_cache_hit := bs_cache_hit status + hits\<rparr>,
          (need @ [block_info submodule request_id req]) @ misses, [])" "hits + length misses = length reqs" by blast
    show ?thesis
      by (rule exI [of _ hits], rule exI [of _ "block_info submodule request_id req # misses"])
        (use None ih in \<open>simp add: preprocess_block del: res_bind_eq_Ok\<close>)
  next
    case (Some r)
    let ?status = "status\<lparr>bs_capture := bs_capture status + 1, bs_cache_hit := bs_cache_hit status + 1\<rparr>"
    from Cons.IH [OF rest, of ?status need] obtain hits misses where
      ih: "block_loop L v view submodule request_id (Suc i) reqs ?status need =
        Ok (?status\<lparr>bs_capture := bs_capture ?status + hits, bs_cache_hit := bs_cache_hit ?status + hits\<rparr>, need @ misses, [])"
        "hits + length misses = length reqs" by blast
    show ?thesis
      by (rule exI [of _ "Suc hits"], rule exI [of _ misses])
        (use Some Cons.prems ih in \<open>simp add: preprocess_block del: res_bind_eq_Ok\<close>)
  qed
qed

text \<open>Where one transaction of the block is cached as refused, the loop ends there.\<close>

lemma block_loop_refused:
  fixes need :: "'u VerifyRequestResponseInfo list"
  assumes "view (2 * (i + length pre)) (al_h256_from_slice L (vr_tx_hash req)) = Some r" "vp_ret r \<noteq> Ret_OK"
  shows "none_refused L view i pre \<Longrightarrow>
    \<exists>hits misses. block_loop L v view submodule request_id i (pre @ req # post) status need =
       Ok (status\<lparr>bs_capture := bs_capture status + hits, bs_cache_hit := bs_cache_hit status + hits\<rparr>, need @ misses,
           publish_block_verification_fail_result request_id (al_h256_from_slice L (vr_tx_hash req)) (view (2 * (i + length pre) + 1))) \<and>
     hits + length misses = length pre"
  using assms(1)
proof (induction pre arbitrary: i status need)
  case Nil
  then show ?case using assms(2)
    by (intro exI [of _ 0] exI [of _ "[]"])
      (simp add: preprocess_block publish_block_verification_fail_result_def Let_def del: res_bind_eq_Ok)
next
  case (Cons p pre)
  have rest: "none_refused L view (Suc i) pre" "view (2 * (Suc i + length pre)) (al_h256_from_slice L (vr_tx_hash req)) = Some r"
    using Cons.prems by simp_all
  have i: "Suc i + length pre = i + length (p # pre)" by simp
  show ?case
  proof (cases "view (2 * i) (al_h256_from_slice L (vr_tx_hash p))")
    case None
    from Cons.IH [OF rest, of status "need @ [block_info submodule request_id p]", unfolded i] obtain hits misses where
      ih: "block_loop L v view submodule request_id (Suc i) (pre @ req # post) status (need @ [block_info submodule request_id p]) =
        Ok (status\<lparr>bs_capture := bs_capture status + hits, bs_cache_hit := bs_cache_hit status + hits\<rparr>,
          (need @ [block_info submodule request_id p]) @ misses,
          publish_block_verification_fail_result request_id (al_h256_from_slice L (vr_tx_hash req)) (view (2 * (i + length (p # pre)) + 1)))"
        "hits + length misses = length pre" by blast
    show ?thesis
      by (rule exI [of _ hits], rule exI [of _ "block_info submodule request_id p # misses"])
        (use None ih in \<open>simp add: preprocess_block del: res_bind_eq_Ok\<close>)
  next
    case (Some q)
    let ?status = "status\<lparr>bs_capture := bs_capture status + 1, bs_cache_hit := bs_cache_hit status + 1\<rparr>"
    from Cons.IH [OF rest, of ?status need, unfolded i] obtain hits misses where
      ih: "block_loop L v view submodule request_id (Suc i) (pre @ req # post) ?status need =
        Ok (?status\<lparr>bs_capture := bs_capture ?status + hits, bs_cache_hit := bs_cache_hit ?status + hits\<rparr>, need @ misses,
          publish_block_verification_fail_result request_id (al_h256_from_slice L (vr_tx_hash req)) (view (2 * (i + length (p # pre)) + 1)))"
        "hits + length misses = length pre" by blast
    show ?thesis
      by (rule exI [of _ "Suc hits"], rule exI [of _ misses])
        (use Some Cons.prems ih in \<open>simp add: preprocess_block del: res_bind_eq_Ok\<close>)
  qed
qed

lemma handle_block_result:
  "handle_verificaton_result L (block_result submodule (bs_request_id status) r) status =
     (if vp_ret r \<noteq> Ret_OK
      then if bs_result status \<noteq> VerifyFailed
           then Ok ([], [Verify_blk_res (bs_request_id status) (vp_ret r)], status\<lparr>bs_result := VerifyFailed\<rparr>)
           else Ok ([], [], status)
      else if bs_capture status + 1 = bs_required status
      then Ok ([], [Verify_blk_res (bs_request_id status) Ret_OK],
               status\<lparr>bs_capture := bs_capture status + 1, bs_result := VerifySucceeded\<rparr>)
      else Ok ([], [], status\<lparr>bs_capture := bs_capture status + 1\<rparr>))"
  by (simp add: handle_verificaton_result_def block_result_def Let_def publish_block_verification_result_def)

text \<open>The answers while a block verification goes on, and after it has failed.\<close>

lemma handle_results_failed:
  fixes L and submodule
  defines "b \<equiv> block_result submodule :: u64 \<Rightarrow> VerifyTxResp \<Rightarrow> 'u VerifyRequestResponseInfo"
  shows "bs_result status = VerifyFailed \<Longrightarrow> bs_capture status + length rs < bs_required status \<Longrightarrow>
    \<exists>status'. handle_results L (map (b (bs_request_id status)) rs) status = Ok ([], [], status')"
proof (induction rs arbitrary: status)
  case (Cons r rs)
  let ?status = "if vp_ret r = Ret_OK then status\<lparr>bs_capture := bs_capture status + 1\<rparr> else status"
  have p: "bs_result ?status = VerifyFailed" "bs_capture ?status + length rs < bs_required ?status"
    "bs_request_id ?status = bs_request_id status" using Cons.prems by simp_all
  from Cons.IH [OF p(1,2)] obtain status' where
    "handle_results L (map (b (bs_request_id status)) rs) ?status = Ok ([], [], status')" unfolding p(3) by blast
  then show ?case using Cons.prems
    by (cases "vp_ret r = Ret_OK") (simp_all add: b_def handle_block_result del: res_bind_eq_Ok)
qed simp

lemma handle_results_ongoing:
  fixes L and submodule
  defines "b \<equiv> block_result submodule :: u64 \<Rightarrow> VerifyTxResp \<Rightarrow> 'u VerifyRequestResponseInfo"
  shows "bs_result status = VerifyOngoing \<Longrightarrow> bs_capture status + length rs = bs_required status \<Longrightarrow> rs \<noteq> [] \<Longrightarrow>
    \<exists>status'. handle_results L (map (b (bs_request_id status)) rs) status =
      Ok ([], [Verify_blk_res (bs_request_id status) (verdict rs)], status')"
proof (induction rs arbitrary: status)
  case (Cons r rs)
  let ?id = "bs_request_id status"
  consider "vp_ret r \<noteq> Ret_OK" | "vp_ret r = Ret_OK" "rs = []" | "vp_ret r = Ret_OK" "rs \<noteq> []" by blast
  then show ?case
  proof cases
    case 1
    obtain status' where "handle_results L (map (b ?id) rs) (status\<lparr>bs_result := VerifyFailed\<rparr>) = Ok ([], [], status')"
      using handle_results_failed [of "status\<lparr>bs_result := VerifyFailed\<rparr>" rs L submodule] Cons.prems by (auto simp: b_def)
    then show ?thesis using 1 Cons.prems by (simp add: b_def handle_block_result del: res_bind_eq_Ok)
  next
    case 2
    then show ?thesis using Cons.prems by (simp add: b_def handle_block_result del: res_bind_eq_Ok)
  next
    case 3
    let ?status = "status\<lparr>bs_capture := bs_capture status + 1\<rparr>"
    obtain status' where "handle_results L (map (b ?id) rs) ?status = Ok ([], [Verify_blk_res ?id (verdict rs)], status')"
      using Cons.IH [of ?status] Cons.prems 3 by auto
    moreover have "Suc (bs_capture status) \<noteq> bs_required status" using Cons.prems(2) 3(2) by (cases rs) auto
    ultimately show ?thesis using 3 Cons.prems(1) by (simp add: b_def handle_block_result del: res_bind_eq_Ok)
  qed
qed simp

text \<open>With fewer results to come than are required, a success is never announced, a failure still is.\<close>

lemma handle_results_short:
  fixes L and submodule
  defines "b \<equiv> block_result submodule :: u64 \<Rightarrow> VerifyTxResp \<Rightarrow> 'u VerifyRequestResponseInfo"
  shows "bs_result status = VerifyOngoing \<Longrightarrow> bs_capture status + length rs < bs_required status \<Longrightarrow>
    \<exists>status'. handle_results L (map (b (bs_request_id status)) rs) status =
      Ok ([], if verdict rs = Ret_OK then [] else [Verify_blk_res (bs_request_id status) (verdict rs)], status')"
proof (induction rs arbitrary: status)
  case (Cons r rs)
  let ?id = "bs_request_id status"
  show ?case
  proof (cases "vp_ret r = Ret_OK")
    case False
    obtain status' where "handle_results L (map (b ?id) rs) (status\<lparr>bs_result := VerifyFailed\<rparr>) = Ok ([], [], status')"
      using handle_results_failed [of "status\<lparr>bs_result := VerifyFailed\<rparr>" rs L submodule] Cons.prems by (auto simp: b_def)
    then show ?thesis using False Cons.prems by (simp add: b_def handle_block_result del: res_bind_eq_Ok)
  next
    case True
    let ?status = "status\<lparr>bs_capture := bs_capture status + 1\<rparr>"
    obtain status' where "handle_results L (map (b ?id) rs) ?status =
        Ok ([], if verdict rs = Ret_OK then [] else [Verify_blk_res ?id (verdict rs)], status')"
      using Cons.IH [of ?status] Cons.prems by auto
    then show ?thesis using True Cons.prems by (simp add: b_def handle_block_result del: res_bind_eq_Ok)
  qed
qed simp

lemma block_verification:
  fixes L and submodule
  defines "b \<equiv> block_result submodule :: u64 \<Rightarrow> VerifyTxResp \<Rightarrow> 'u VerifyRequestResponseInfo"
  assumes "reqs \<noteq> []" "0 < num" "none_refused L view 0 reqs"
  shows "\<exists>e :: 'u block_request_effect. verify_block_req L v view num submodule request_id reqs old = Ok e \<and>
    (\<forall>rs. length rs = length (concat (be_groups e)) \<longrightarrow>
      (\<exists>out status'. handle_results L (map (b request_id) rs) (be_status e) = Ok ([], out, status') \<and>
         be_out e @ out = [Verify_blk_res request_id (verdict rs)]))"
proof -
  let ?new = "\<lparr>bs_request_id = request_id, bs_result = VerifyOngoing, bs_required = length reqs, bs_capture = 0, bs_cache_hit = 0\<rparr>"
  obtain hits and misses :: "'u VerifyRequestResponseInfo list" where
    loop: "block_loop L v view submodule request_id 0 reqs ?new [] = Ok (?new\<lparr>bs_capture := hits, bs_cache_hit := hits\<rparr>, misses, [])"
    and sum: "hits + length misses = length reqs"
    using block_loop_none_refused [OF assms(4), of v submodule request_id ?new "[] :: 'u VerifyRequestResponseInfo list"] by auto
  let ?status = "?new\<lparr>bs_capture := hits, bs_cache_hit := hits\<rparr>"
  show ?thesis
  proof (cases "misses = []")
    case True
    let ?e = "\<lparr>be_status = ?status\<lparr>bs_result := VerifySucceeded\<rparr>, be_groups = [], be_out = [Verify_blk_res request_id Ret_OK]\<rparr>
      :: 'u block_request_effect"
    have "verify_block_req L v view num submodule request_id reqs old = Ok ?e"
      using loop True sum assms(2) by (simp add: verify_block_req_def publish_block_verification_result_def del: res_bind_eq_Ok)
    then show ?thesis by (intro exI [of _ ?e]) simp
  next
    case False
    let ?e = "\<lparr>be_status = ?status, be_groups = chunks num misses, be_out = []\<rparr> :: 'u block_request_effect"
    have "verify_block_req L v view num submodule request_id reqs old = Ok ?e"
      using loop False assms(2,3) by (simp add: verify_block_req_def del: res_bind_eq_Ok)
    moreover have "\<exists>status'. handle_results L (map (b request_id) rs) ?status = Ok ([], [Verify_blk_res request_id (verdict rs)], status')"
      if "length rs = length misses" for rs
    proof -
      have "rs \<noteq> []" using that False by auto
      then show ?thesis using handle_results_ongoing [of ?status rs L submodule] that sum by (auto simp: b_def)
    qed
    ultimately show ?thesis by (intro exI [of _ ?e]) (auto simp: concat_chunks [OF assms(3)])
  qed
qed

lemma block_verification_refused:
  fixes L and submodule
  defines "b \<equiv> block_result submodule :: u64 \<Rightarrow> VerifyTxResp \<Rightarrow> 'u VerifyRequestResponseInfo"
  assumes "0 < num" "none_refused L view 0 pre" "view (2 * length pre) (al_h256_from_slice L (vr_tx_hash req)) = Some r" "vp_ret r \<noteq> Ret_OK"
  shows "\<exists>e :: 'u block_request_effect. verify_block_req L v view num submodule request_id (pre @ req # post) old = Ok e \<and>
    be_out e = publish_block_verification_fail_result request_id (al_h256_from_slice L (vr_tx_hash req)) (view (2 * length pre + 1)) \<and>
    (\<forall>rs. length rs = length (concat (be_groups e)) \<longrightarrow>
      (\<exists>status'. handle_results L (map (b request_id) rs) (be_status e) =
         Ok ([], if verdict rs = Ret_OK then [] else [Verify_blk_res request_id (verdict rs)], status')))"
proof -
  let ?reqs = "pre @ req # post"
  let ?new = "\<lparr>bs_request_id = request_id, bs_result = VerifyOngoing, bs_required = length ?reqs, bs_capture = 0, bs_cache_hit = 0\<rparr>"
  let ?out = "publish_block_verification_fail_result request_id (al_h256_from_slice L (vr_tx_hash req)) (view (2 * length pre + 1))"
  obtain hits and misses :: "'u VerifyRequestResponseInfo list" where
    loop: "block_loop L v view submodule request_id 0 ?reqs ?new [] = Ok (?new\<lparr>bs_capture := hits, bs_cache_hit := hits\<rparr>, misses, ?out)"
    and sum: "hits + length misses = length pre"
    using block_loop_refused [where i = 0 and pre = pre and view = view and status = ?new and v = v and submodule = submodule
        and request_id = request_id and post = post and req = req and need = "[] :: 'u VerifyRequestResponseInfo list", OF _ assms(5,3)]
      assms(4) by auto
  let ?status = "?new\<lparr>bs_capture := hits, bs_cache_hit := hits\<rparr>"
  let ?e = "\<lparr>be_status = ?status, be_groups = chunks num misses, be_out = ?out\<rparr> :: 'u block_request_effect"
  have "verify_block_req L v view num submodule request_id ?reqs old = Ok ?e"
    using loop sum assms(2) by (cases "misses = []") (simp_all add: verify_block_req_def del: res_bind_eq_Ok)
  moreover have "\<exists>status'. handle_results L (map (b request_id) rs) ?status =
      Ok ([], if verdict rs = Ret_OK then [] else [Verify_blk_res request_id (verdict rs)], status')"
    if "length rs = length misses" for rs
    using handle_results_short [of ?status rs L submodule] that sum by (auto simp: b_def)
  ultimately show ?thesis by (intro exI [of _ ?e]) (auto simp: concat_chunks [OF assms(2)])
qed

section \<open>The cache and the verifier\<close>

text \<open>A node that is told the hashes of the blocks of a chain and verifies groups of requests, each of these at
  once; the responses are what it has sent.\<close>

inductive auth_run ::
  "auth_libs \<Rightarrow> (u64 \<Rightarrow> h256 set) \<Rightarrow> Verifier \<Rightarrow> verify_cache \<Rightarrow> 'u VerifyRequestResponseInfo list \<Rightarrow> bool" for L chain where
  auth_new: "auth_run L chain Verifier_default Map.empty []"
| auth_hashes: "auth_run L chain v c sent \<Longrightarrow> al_h256_from_slice L ` set tx_hashes = chain h \<Longrightarrow>
    enter_hashes L h tx_hashes v = Ok (v', out, fwd) \<Longrightarrow> auth_run L chain v' (forget_hashes L tx_hashes c) sent"
| auth_group: "auth_run L chain v c sent \<Longrightarrow> verify_tx_group_service L v grp c = (c', out) \<Longrightarrow> auth_run L chain v c' (sent @ out)"

text \<open>What the cache holds as verified is in no block that the verifier knows.\<close>

definition cache_ok :: "Verifier \<Rightarrow> verify_cache \<Rightarrow> bool" where
  "cache_ok v c \<longleftrightarrow> (\<forall>x r. c x = Some r \<longrightarrow> vp_ret r = Ret_OK \<longrightarrow> vf_inited v \<and> (\<forall>(k, s) \<in> set (vf_hashes v). x \<notin> s))"

lemma forget_hashes_Some: "forget_hashes L ts c x = Some r \<longleftrightarrow> c x = Some r \<and> x \<notin> al_h256_from_slice L ` set ts"
  unfolding forget_hashes_def by (induction ts arbitrary: c) auto

lemma cache_ok_verify_all: "cache_ok v c \<Longrightarrow> cache_ok v (fst (verify_all L v grp c))"
proof (induction grp arbitrary: c)
  case (Cons g grp)
  have "cache_ok v (fst (verify_one L v g c))"
    using Cons.prems
    by (auto simp: cache_ok_def verify_one_def Let_def verfiy_tx_OK check_hash_exist_def list_ex_iff
        split: VerifyRequestResponse.splits if_splits)
  then show ?case using Cons.IH by (simp split: prod.splits) (metis fst_conv)
qed simp

lemma insert_hashes_keeps:
  assumes "insert_hashes h S v = Ok v'"
  shows "set (vf_hashes v') \<subseteq> insert (h, S) (set (vf_hashes v))" "vf_inited v \<Longrightarrow> vf_inited v'"
proof -
  have "set (AList.update h S al) \<subseteq> insert (h, S) (set al)" for al :: "(u64 \<times> h256 set) list"
    by (induction al) auto
  moreover have "v' = v\<lparr>vf_hashes := AList.update h S (vf_hashes v), vf_inited := True\<rparr> \<or>
      v' = v\<lparr>vf_hashes := AList.update h S (vf_hashes v)\<rparr>"
    using assms by (auto simp: insert_hashes_def Let_def)
  ultimately show "set (vf_hashes v') \<subseteq> insert (h, S) (set (vf_hashes v))" "vf_inited v \<Longrightarrow> vf_inited v'"
    by (elim disjE; simp)+
qed

lemma update_hashes_from:
  assumes run: "update_hashes B h S v = Ok (v', reqs)"
  shows "\<exists>v0. set (vf_hashes v0) \<subseteq> set (vf_hashes v) \<and> vf_inited v0 = vf_inited v \<and> (v' = v0 \<or> insert_hashes h S v0 = Ok v')"
proof (cases "vf_height_latest v = None \<and> vf_height_low v = None")
  case True
  then obtain low where "insert_hashes h S (v\<lparr>vf_height_latest := Some h, vf_height_low := Some low\<rparr>) = Ok v'"
    using run by (auto simp: update_hashes_def)
  then show ?thesis by (intro exI [of _ "v\<lparr>vf_height_latest := Some h, vf_height_low := Some low\<rparr>"]) simp
next
  case False
  obtain l w n where lw: "expect (vf_height_latest v) = (Ok l :: (string, u64) res)" "expect (vf_height_low v) = (Ok w :: (string, u64) res)"
    "plus_chk l 1 = (Ok n :: (string, u64) res)"
    using run False by (auto simp: update_hashes_def)
  consider "h = n" | "h \<noteq> n" "h > n" | "h \<noteq> n" "\<not> h > n" "h < w" | "h \<noteq> n" "\<not> h > n" "\<not> h < w" by blast
  then show ?thesis
  proof cases
    case 1
    obtain low where low: "window_low B h = Ok low" using run False lw 1 by (auto simp: update_hashes_def)
    let ?v = "v\<lparr>vf_height_latest := Some h, vf_height_low := Some low, vf_hashes := fold AList.delete (heights w low) (vf_hashes v)\<rparr>"
    have "v' = ?v \<or> insert_hashes h S ?v = Ok v'"
      using run False lw 1 low by (cases "h < low") (auto simp: update_hashes_def Let_def)
    then show ?thesis by (intro exI [of _ ?v]) (auto simp: fold_delete)
  next
    case 2
    then have "v' = v" using run False lw by (auto simp: update_hashes_def)
    then show ?thesis by blast
  next
    case 3
    then have "v' = v" using run False lw by (auto simp: update_hashes_def)
    then show ?thesis by blast
  next
    case 4
    then have "insert_hashes h S v = Ok v'" using run False lw by (auto simp: update_hashes_def)
    then show ?thesis by blast
  qed
qed

text \<open>The hashes of the next block are found from then on.\<close>

lemma update_hashes_enters:
  assumes B: "0 < B" and v: "vf_height_latest v = Some l" "plus_chk l 1 = (Ok h :: (string, u64) res)"
    and run: "update_hashes B h S v = Ok (v', reqs)" and x: "x \<in> S"
  shows "check_hash_exist x v'"
proof -
  obtain low v1 where low: "window_low B h = Ok low" and r: "h < low \<or> insert_hashes h S v1 = Ok v'"
    using run v by (auto simp: update_hashes_def Let_def split: if_splits)
  have "\<not> h < low" using window_low_unat [OF B low] B by (simp add: word_less_nat_alt)
  then have i: "insert_hashes h S v1 = Ok v'" using r by blast
  have "(h, S) \<in> set (AList.update h S al)" for al by (induction al) auto
  then have "(h, S) \<in> set (vf_hashes v')" using i by (auto simp: insert_hashes_def Let_def split: if_splits)
  then show ?thesis using x by (auto simp: check_hash_exist_def list_ex_iff)
qed

lemma update_hashes_keeps:
  assumes "update_hashes B h S v = Ok (v', reqs)"
  shows "set (vf_hashes v') \<subseteq> insert (h, S) (set (vf_hashes v))" "vf_inited v \<Longrightarrow> vf_inited v'"
  using update_hashes_from [OF assms] insert_hashes_keeps by blast+

lemma auth_run_ok:
  "auth_run L chain v c sent \<Longrightarrow> 0 < al_blocklimit L \<Longrightarrow> verifier_ok (al_blocklimit L) chain v \<and> cache_ok v c"
proof (induction rule: auth_run.induct)
  case auth_new
  then show ?case by (simp add: verifier_ok_def Verifier_default_def cache_ok_def)
next
  case (auth_hashes v c sent tx_hashes h v' out fwd)
  obtain reqs where u: "update_hashes (al_blocklimit L) h (chain h) v = Ok (v', reqs)"
    using auth_hashes.hyps(2,3) by (auto simp: enter_hashes_def Let_def)
  have "cache_ok v' (forget_hashes L tx_hashes c)"
    using auth_hashes update_hashes_keeps [OF u] unfolding cache_ok_def forget_hashes_Some by fastforce
  then show ?case using auth_hashes update_hashes_ok [where chain = chain, OF _ _ u] by blast
next
  case (auth_group v c sent grp c' out)
  then show ?case using cache_ok_verify_all [of v c L "rev grp"] by (simp add: verify_tx_group_service_def)
qed

lemma replayed_not_verified:
  assumes run: "auth_run L chain v c sent" "0 < al_blocklimit L" and l: "vf_height_latest v = Some l" "b \<le> l"
    and t: "al_h256_from_slice L (vr_tx_hash req) \<in> chain b" and vu: "unat (vr_valid_until_block req) < unat b + unat (al_blocklimit L)"
    and info: "vi_req_resp info = AuthRequest req" "vi_verify_type info = SingleVerify"
    and pre: "check_verify_request_preprocess L v c info = Ok (r, out)"
  shows "r = VerifyFailed \<or> r = VerifyNotBegin \<and> vp_ret (verfiy_tx L req v) \<noteq> Ret_OK"
proof -
  let ?x = "al_h256_from_slice L (vr_tx_hash req)"
  note ok = auth_run_ok [OF run]
  obtain valid where v: "verify_valid_until_block (al_blocklimit L) (vr_valid_until_block req) v = Ok valid"
    using pre info by (auto simp: check_verify_request_preprocess_def)
  show ?thesis
  proof (cases valid)
    case True
    then have e: "check_hash_exist ?x v" using not_both [where chain = chain, OF _ vu t l] ok v by simp
    have "vp_ret r' \<noteq> Ret_OK" if "c ?x = Some r'" for r'
      using e ok that unfolding check_hash_exist_def cache_ok_def list_ex_iff by fastforce
    then show ?thesis using pre info v True e
      by (auto simp: check_verify_request_preprocess_def get_resp_from_cache_def verfiy_tx_OK split: option.splits if_splits)
  next
    case False
    then show ?thesis using pre info v by (auto simp: check_verify_request_preprocess_def refused_def)
  qed
qed

section \<open>Smaller steps\<close>

text \<open>The locks of the code are held for less: a thread of the pool reads the verifier, and enters the response
  into the cache later; the handler of block hashes empties the cache, and updates the verifier later.
  What is on its way is part of the state.\<close>

record auth_threads =
  at_verifier :: Verifier
  at_cache :: verify_cache
  at_verified :: "(h256 \<times> VerifyTxResp) list"
  at_hashes :: "(u64 \<times> bytes list) option"

definition auth_threads_new :: auth_threads where
  "auth_threads_new = \<lparr>at_verifier = Verifier_default, at_cache = Map.empty, at_verified = [], at_hashes = None\<rparr>"

inductive thread_step :: "auth_libs \<Rightarrow> auth_threads \<Rightarrow> auth_threads \<Rightarrow> bool" for L where
  step_verify: "thread_step L s
    (s\<lparr>at_verified := (al_h256_from_slice L (vr_tx_hash req), verfiy_tx L req (at_verifier s)) # at_verified s\<rparr>)"
| step_cache: "at_verified s = xs @ (x, resp) # ys \<Longrightarrow> thread_step L s (s\<lparr>at_cache := (at_cache s)(x \<mapsto> resp), at_verified := xs @ ys\<rparr>)"
| step_forget: "at_hashes s = None \<Longrightarrow>
    thread_step L s (s\<lparr>at_cache := forget_hashes L tx_hashes (at_cache s), at_hashes := Some (h, tx_hashes)\<rparr>)"
| step_enter: "at_hashes s = Some (h, tx_hashes) \<Longrightarrow> enter_hashes L h tx_hashes (at_verifier s) = Ok (v', out, fwd) \<Longrightarrow>
    thread_step L s (s\<lparr>at_verifier := v', at_hashes := None\<rparr>)"

text \<open>A thread verifies a transaction of the next block before the hashes of the block come in, and enters its
  response into the cache after the handler of the hashes has looked for it there.\<close>

lemma stale_response:
  assumes h: "at_hashes s = None" and v: "vf_height_latest (at_verifier s) = Some l" "plus_chk l 1 = (Ok h :: (string, u64) res)"
    and B: "0 < al_blocklimit L" and tx: "tx \<in> set tx_hashes" "al_h256_from_slice L tx = al_h256_from_slice L (vr_tx_hash req)"
    and ok: "vp_ret (verfiy_tx L req (at_verifier s)) = Ret_OK"
    and e: "enter_hashes L h tx_hashes (at_verifier s) = Ok (v', out, fwd)"
  shows "\<exists>s'. (thread_step L)\<^sup>*\<^sup>* s s' \<and> at_verifier s' = v' \<and> check_hash_exist (al_h256_from_slice L (vr_tx_hash req)) v' \<and>
    at_cache s' (al_h256_from_slice L (vr_tx_hash req)) = Some (verfiy_tx L req (at_verifier s))"
proof -
  let ?x = "al_h256_from_slice L (vr_tx_hash req)" and ?r = "verfiy_tx L req (at_verifier s)"
  define s1 where "s1 = s\<lparr>at_verified := (?x, ?r) # at_verified s\<rparr>"
  define s2 where "s2 = s1\<lparr>at_cache := forget_hashes L tx_hashes (at_cache s1), at_hashes := Some (h, tx_hashes)\<rparr>"
  define s3 where "s3 = s2\<lparr>at_verifier := v', at_hashes := None\<rparr>"
  define s4 where "s4 = s3\<lparr>at_cache := (at_cache s3)(?x \<mapsto> ?r), at_verified := [] @ at_verified s\<rparr>"
  have t1: "thread_step L s s1" unfolding s1_def by (rule step_verify)
  have t2: "thread_step L s1 s2" unfolding s2_def by (rule step_forget) (simp add: h s1_def)
  have e2: "enter_hashes L h tx_hashes (at_verifier s2) = Ok (v', out, fwd)" using e by (simp add: s2_def s1_def)
  have t3: "thread_step L s2 s3" unfolding s3_def by (rule step_enter [OF _ e2]) (simp add: s2_def)
  have t4: "thread_step L s3 s4" unfolding s4_def by (rule step_cache) (simp add: s3_def s2_def s1_def)
  have run: "(thread_step L)\<^sup>*\<^sup>* s s4" using t1 t2 t3 t4 by (meson r_into_rtranclp rtranclp_trans)
  obtain reqs where u: "update_hashes (al_blocklimit L) h (al_h256_from_slice L ` set tx_hashes) (at_verifier s) = Ok (v', reqs)"
    using e by (auto simp: enter_hashes_def Let_def)
  have "check_hash_exist ?x v'" using update_hashes_enters [OF B v u] tx by force
  then show ?thesis using run by (intro exI [of _ s4]) (simp add: s4_def s3_def)
qed

end
