(* ===== verification/Auth_Dispatcher.thy ===== *)
theory Auth_Dispatcher
  imports Auth_Handler
begin

text \<open>
  The dispatcher of the authentication service (\<^verbatim>\<open>cita-auth/src/dispatcher.rs\<close>) with its log of
  transactions (\<^verbatim>\<open>cita-auth/src/txwal.rs\<close>). The pool of transactions and the key-value database of the log are
  other crates, so their operations are a parameter; so is the clock, whose reading an operation takes as
  an argument. The serialised form of a transaction in the log, the counters that only the log output
  shows and the random identifiers of requests are left out.
\<close>

section \<open>The pool and the log of transactions\<close>

text \<open>The pool: \<open>new\<close>, \<open>enqueue\<close>, \<open>update_with_hash\<close>, \<open>update\<close>, \<open>package\<close> and \<open>len\<close>. The database: \<open>put_vec\<close>, \<open>delete\<close> and the
  values of \<open>iter\<close>.\<close>

record ('p, 'w, 'u, 'g) dispatch_libs =
  tp_new :: "nat \<Rightarrow> 'p"
  tp_enqueue :: "'u PoolTx \<Rightarrow> 'p \<Rightarrow> bool \<times> 'p"
  tp_update_with_hash :: "h256 list \<Rightarrow> 'p \<Rightarrow> 'p"
  tp_update :: "'u PoolTx list \<Rightarrow> 'p \<Rightarrow> 'p"
  tp_package :: "u64 \<Rightarrow> u64 \<Rightarrow> 'g \<Rightarrow> 'p \<Rightarrow> 'u PoolTx list \<times> 'p"
  tp_len :: "'p \<Rightarrow> nat"
  kv_put :: "h256 \<Rightarrow> 'u PoolTx \<Rightarrow> 'w \<Rightarrow> 'w"
  kv_delete :: "h256 \<Rightarrow> 'w \<Rightarrow> 'w"
  kv_iter :: "'w \<Rightarrow> 'u PoolTx list"

definition wal_write :: "('p, 'w, 'u, 'g) dispatch_libs \<Rightarrow> 'u PoolTx \<Rightarrow> 'w \<Rightarrow> 'w" where
  "wal_write P tx w = kv_put P (pt_tx_hash tx) tx w"

definition wal_delete :: "('p, 'w, 'u, 'g) dispatch_libs \<Rightarrow> 'u PoolTx \<Rightarrow> 'w \<Rightarrow> 'w" where
  "wal_delete P tx w = kv_delete P (pt_tx_hash tx) w"

definition wal_delete_with_hash :: "('p, 'w, 'u, 'g) dispatch_libs \<Rightarrow> h256 \<Rightarrow> 'w \<Rightarrow> 'w" where
  "wal_delete_with_hash P txhash w = kv_delete P txhash w"

definition wal_read :: "('p, 'w, 'u, 'g) dispatch_libs \<Rightarrow> 'w \<Rightarrow> 'p \<Rightarrow> nat \<times> 'p" where
  "wal_read P w pool = fold (\<lambda>tx (num, pool). (num + 1, snd (tp_enqueue P tx pool))) (kv_iter P w) (0, pool)"

section \<open>The dispatcher\<close>

record ('p, 'w, 'u) Dispatcher =
  ds_txs_pool :: 'p
  ds_tx_pool_cap :: nat
  ds_wal :: 'w
  ds_filter_wal :: 'w
  ds_wal_enable :: bool
  ds_pool_limit :: nat
  ds_data_from_pool :: bool
  ds_count_per_batch :: nat
  ds_buffer_duration :: u32
  ds_new_tx_request_buffer :: "'u list"
  ds_deletes :: "h256 list"

datatype 'u dispatch_message =
  Auth_rpc_dup bytes | Auth_rpc_state bytes h256 | Auth_tx "'u list" | Auth_block_txs u64 "'u PoolTx list"

definition update_capacity :: "('p, 'w, 'u, 'g) dispatch_libs \<Rightarrow> ('p, 'w, 'u) Dispatcher \<Rightarrow> ('p, 'w, 'u) Dispatcher" where
  "update_capacity P d =
     (let tx_pool_len = tp_len P (ds_txs_pool d) in
      d\<lparr>ds_tx_pool_cap := if ds_pool_limit d \<ge> tx_pool_len then ds_pool_limit d - tx_pool_len else 0\<rparr>)"

definition read_tx_from_wal :: "('p, 'w, 'u, 'g) dispatch_libs \<Rightarrow> ('p, 'w, 'u) Dispatcher \<Rightarrow> nat \<times> ('p, 'w, 'u) Dispatcher" where
  "read_tx_from_wal P d =
     (case wal_read P (ds_wal d) (ds_txs_pool d) of (num, pool) \<Rightarrow> (num, update_capacity P (d\<lparr>ds_txs_pool := pool\<rparr>)))"

definition Dispatcher_new ::
  "('p, 'w, 'u, 'g) dispatch_libs \<Rightarrow> nat \<Rightarrow> nat \<Rightarrow> nat \<Rightarrow> u32 \<Rightarrow> bool \<Rightarrow> 'w \<Rightarrow> 'w \<Rightarrow> ('p, 'w, 'u) Dispatcher" where
  "Dispatcher_new P package_limit limit count_per_batch buffer_duration wal_enable wal filter_wal =
     (let d = \<lparr>ds_txs_pool = tp_new P package_limit, ds_tx_pool_cap = limit, ds_wal = wal, ds_filter_wal = filter_wal,
               ds_wal_enable = wal_enable, ds_pool_limit = limit, ds_data_from_pool = False,
               ds_count_per_batch = count_per_batch, ds_buffer_duration = buffer_duration, ds_new_tx_request_buffer = [],
               ds_deletes = []\<rparr> in
      if wal_enable
      then (case read_tx_from_wal P d of (num, d1) \<Rightarrow> if num > 0 then d1\<lparr>ds_data_from_pool := True\<rparr> else d1)
      else d)"

definition add_tx_to_pool :: "('p, 'w, 'u, 'g) dispatch_libs \<Rightarrow> 'u PoolTx \<Rightarrow> ('p, 'w, 'u) Dispatcher \<Rightarrow> bool \<times> ('p, 'w, 'u) Dispatcher" where
  "add_tx_to_pool P tx d =
     (case tp_enqueue P tx (ds_txs_pool d) of
        (success, pool) \<Rightarrow>
          let d1 = d\<lparr>ds_txs_pool := pool\<rparr> in
          (success,
           if ds_wal_enable d
           then (if success then d1\<lparr>ds_wal := wal_write P tx (ds_wal d1)\<rparr> else d1\<lparr>ds_filter_wal := wal_write P tx (ds_filter_wal d1)\<rparr>)
           else d1))"

definition batch_forward_tx_to_peer :: "('p, 'w, 'u) Dispatcher \<Rightarrow> ('p, 'w, 'u) Dispatcher \<times> 'u dispatch_message list" where
  "batch_forward_tx_to_peer d = (d\<lparr>ds_new_tx_request_buffer := []\<rparr>, [Auth_tx (ds_new_tx_request_buffer d)])"

definition deal_tx ::
  "('p, 'w, 'u, 'g) dispatch_libs \<Rightarrow> u32 \<Rightarrow> 'u PoolTx \<Rightarrow> ('p, 'w, 'u) Dispatcher \<Rightarrow> ('p, 'w, 'u) Dispatcher \<times> 'u dispatch_message list" where
  "deal_tx P time_elapsed tx d =
     (case add_tx_to_pool P tx d of
        (success, d1) \<Rightarrow>
          let d2 = (if success then update_capacity P d1 else d1) in
          if pt_sub_module tx = SM_Jsonrpc
          then (if \<not> success then (d2, [Auth_rpc_dup (pt_request_id tx)])
                else let d3 = d2\<lparr>ds_new_tx_request_buffer := ds_new_tx_request_buffer d2 @ [pt_un_tx tx]\<rparr> in
                  (case (if length (ds_new_tx_request_buffer d3) > ds_count_per_batch d3 \<or> time_elapsed > ds_buffer_duration d3
                         then batch_forward_tx_to_peer d3 else (d3, [])) of
                     (d4, out) \<Rightarrow> (d4, out @ [Auth_rpc_state (pt_request_id tx) (pt_tx_hash tx)])))
          else (d2, []))"

text \<open>The deletions from the log are the work of threads of their own: \<open>ds_deletes\<close> is what they have still to do,
  one deletion at a time and in any order. A set of hashes is the list of its elements.\<close>

definition del_txs_from_pool_with_hash :: "('p, 'w, 'u, 'g) dispatch_libs \<Rightarrow> h256 list \<Rightarrow> ('p, 'w, 'u) Dispatcher \<Rightarrow> ('p, 'w, 'u) Dispatcher" where
  "del_txs_from_pool_with_hash P txs d =
     (let d1 = d\<lparr>ds_txs_pool := tp_update_with_hash P txs (ds_txs_pool d)\<rparr> in
      if ds_wal_enable d then d1\<lparr>ds_deletes := ds_deletes d1 @ txs\<rparr> else d1)"

definition del_txs_from_pool :: "('p, 'w, 'u, 'g) dispatch_libs \<Rightarrow> 'u PoolTx list \<Rightarrow> ('p, 'w, 'u) Dispatcher \<Rightarrow> ('p, 'w, 'u) Dispatcher" where
  "del_txs_from_pool P txs d =
     (let d1 = d\<lparr>ds_txs_pool := tp_update P txs (ds_txs_pool d)\<rparr> in
      if ds_wal_enable d then d1\<lparr>ds_deletes := ds_deletes d1 @ map pt_tx_hash txs\<rparr> else d1)"

definition delete_one :: "('p, 'w, 'u, 'g) dispatch_libs \<Rightarrow> h256 \<Rightarrow> ('p, 'w, 'u) Dispatcher \<Rightarrow> ('p, 'w, 'u) Dispatcher" where
  "delete_one P tx d =
     (if tx \<in> set (ds_deletes d)
      then d\<lparr>ds_wal := wal_delete_with_hash P tx (ds_wal d), ds_deletes := remove1 tx (ds_deletes d)\<rparr> else d)"

definition get_txs_from_pool ::
  "('p, 'w, 'u, 'g) dispatch_libs \<Rightarrow> u64 \<Rightarrow> u64 \<Rightarrow> 'g \<Rightarrow> ('p, 'w, 'u) Dispatcher \<Rightarrow> 'u PoolTx list \<times> ('p, 'w, 'u) Dispatcher" where
  "get_txs_from_pool P height block_gas_limit account_gas_limit d =
     (if ds_data_from_pool d then ([], d\<lparr>ds_data_from_pool := False\<rparr>)
      else (case tp_package P height block_gas_limit account_gas_limit (ds_txs_pool d) of
              (txs, pool) \<Rightarrow> (txs, d\<lparr>ds_txs_pool := pool\<rparr>)))"

definition deal_txs ::
  "('p, 'w, 'u, 'g) dispatch_libs \<Rightarrow> u64 \<Rightarrow> h256 list \<Rightarrow> u64 \<Rightarrow> 'g \<Rightarrow> ('p, 'w, 'u) Dispatcher \<Rightarrow> ('p, 'w, 'u) Dispatcher \<times> 'u dispatch_message list" where
  "deal_txs P height txs block_gas_limit account_gas_limit d =
     (let d1 = (if txs \<noteq> [] then del_txs_from_pool_with_hash P txs d else d) in
      case get_txs_from_pool P height block_gas_limit account_gas_limit d1 of
        (out_txs, d2) \<Rightarrow> (update_capacity P d2, [Auth_block_txs height out_txs]))"

definition wait_timeout_process :: "('p, 'w, 'u) Dispatcher \<Rightarrow> ('p, 'w, 'u) Dispatcher \<times> 'u dispatch_message list" where
  "wait_timeout_process d = (if ds_new_tx_request_buffer d \<noteq> [] then batch_forward_tx_to_peer d else (d, []))"

section \<open>Runs\<close>

datatype ('u, 'g) dispatch_event =
  Ev_tx u32 "'u PoolTx" | Ev_txs u64 "h256 list" u64 'g | Ev_timeout | Ev_delete h256

fun dispatch_step ::
  "('p, 'w, 'u, 'g) dispatch_libs \<Rightarrow> ('u, 'g) dispatch_event \<Rightarrow> ('p, 'w, 'u) Dispatcher \<Rightarrow> ('p, 'w, 'u) Dispatcher \<times> 'u dispatch_message list" where
  "dispatch_step P (Ev_tx time_elapsed tx) d = deal_tx P time_elapsed tx d"
| "dispatch_step P (Ev_txs height txs block_gas_limit account_gas_limit) d = deal_txs P height txs block_gas_limit account_gas_limit d"
| "dispatch_step P Ev_timeout d = wait_timeout_process d"
| "dispatch_step P (Ev_delete tx) d = (delete_one P tx d, [])"

fun dispatch_run ::
  "('p, 'w, 'u, 'g) dispatch_libs \<Rightarrow> ('u, 'g) dispatch_event list \<Rightarrow> ('p, 'w, 'u) Dispatcher \<Rightarrow> ('p, 'w, 'u) Dispatcher \<times> 'u dispatch_message list" where
  "dispatch_run P [] d = (d, [])"
| "dispatch_run P (e # es) d =
     (case dispatch_step P e d of (d1, out) \<Rightarrow> case dispatch_run P es d1 of (d2, outs) \<Rightarrow> (d2, out @ outs))"

text \<open>The transactions of clients that the pool accepts along a run.\<close>

fun accepted :: "('p, 'w, 'u, 'g) dispatch_libs \<Rightarrow> ('u, 'g) dispatch_event list \<Rightarrow> ('p, 'w, 'u) Dispatcher \<Rightarrow> 'u PoolTx list" where
  "accepted P [] d = []"
| "accepted P (e # es) d =
     (case e of
        Ev_tx time_elapsed tx \<Rightarrow> if pt_sub_module tx = SM_Jsonrpc \<and> fst (tp_enqueue P tx (ds_txs_pool d)) then [tx] else []
      | _ \<Rightarrow> []) @ accepted P es (fst (dispatch_step P e d))"

primrec forwarded :: "'u dispatch_message \<Rightarrow> 'u list" where
  "forwarded (Auth_rpc_dup request_id) = []"
| "forwarded (Auth_rpc_state request_id tx_hash) = []"
| "forwarded (Auth_tx txs) = txs"
| "forwarded (Auth_block_txs height txs) = []"

primrec answered :: "'u dispatch_message \<Rightarrow> bytes list" where
  "answered (Auth_rpc_dup request_id) = [request_id]"
| "answered (Auth_rpc_state request_id tx_hash) = [request_id]"
| "answered (Auth_tx txs) = []"
| "answered (Auth_block_txs height txs) = []"

primrec asked :: "('u, 'g) dispatch_event \<Rightarrow> bytes list" where
  "asked (Ev_tx time_elapsed tx) = (if pt_sub_module tx = SM_Jsonrpc then [pt_request_id tx] else [])"
| "asked (Ev_txs height txs block_gas_limit account_gas_limit) = []"
| "asked Ev_timeout = []"
| "asked (Ev_delete tx) = []"

text \<open>What is asked of the pool: a transaction that is refused does not change its length.\<close>

definition pool_ok :: "('p, 'w, 'u, 'g) dispatch_libs \<Rightarrow> bool" where
  "pool_ok P \<longleftrightarrow> (\<forall>tx p p'. tp_enqueue P tx p = (False, p') \<longrightarrow> tp_len P p' = tp_len P p)"

definition capacity_ok :: "('p, 'w, 'u, 'g) dispatch_libs \<Rightarrow> ('p, 'w, 'u) Dispatcher \<Rightarrow> bool" where
  "capacity_ok P d \<longleftrightarrow> ds_tx_pool_cap d = ds_pool_limit d - tp_len P (ds_txs_pool d)"

lemma update_capacity_ok [simp]: "capacity_ok P (update_capacity P d)"
  by (simp add: capacity_ok_def update_capacity_def Let_def)

lemmas dispatcher_defs = deal_tx_def deal_txs_def wait_timeout_process_def batch_forward_tx_to_peer_def add_tx_to_pool_def
  del_txs_from_pool_with_hash_def get_txs_from_pool_def delete_one_def

lemma dispatch_step_capacity:
  assumes "pool_ok P" "capacity_ok P d"
  shows "capacity_ok P (fst (dispatch_step P e d))"
  using assms
  by (cases e) (auto simp: dispatcher_defs pool_ok_def capacity_ok_def update_capacity_def Let_def split: prod.splits)

lemma dispatch_step_forward:
  "concat (map forwarded (snd (dispatch_step P e d))) @ ds_new_tx_request_buffer (fst (dispatch_step P e d)) =
     ds_new_tx_request_buffer d @ map pt_un_tx (accepted P [e] d)"
  by (cases e) (auto simp: dispatcher_defs update_capacity_def Let_def split: prod.splits)

lemma dispatch_step_answers: "concat (map answered (snd (dispatch_step P e d))) = asked e"
  by (cases e) (auto simp: dispatcher_defs update_capacity_def Let_def split: prod.splits)

lemma dispatch_run_accounts:
  assumes "pool_ok P"
  shows "capacity_ok P d \<Longrightarrow> dispatch_run P es d = (d', out) \<Longrightarrow>
    capacity_ok P d' \<and> concat (map forwarded out) @ ds_new_tx_request_buffer d' = ds_new_tx_request_buffer d @ map pt_un_tx (accepted P es d) \<and>
    concat (map answered out) = concat (map asked es)"
proof (induction es arbitrary: d out)
  case (Cons e es)
  obtain d1 o1 where s: "dispatch_step P e d = (d1, o1)" by fastforce
  obtain o2 where r: "dispatch_run P es d1 = (d', o2)" "out = o1 @ o2" using Cons.prems(2) s by (auto split: prod.splits)
  have c: "capacity_ok P d1" using dispatch_step_capacity [OF assms Cons.prems(1), of e] s by simp
  note ih = Cons.IH [OF c r(1)]
  have "concat (map forwarded o1) @ concat (map forwarded o2) @ ds_new_tx_request_buffer d' =
      (concat (map forwarded o1) @ ds_new_tx_request_buffer d1) @ map pt_un_tx (accepted P es d1)" using ih by simp
  then show ?case using ih dispatch_step_forward [of P e d] dispatch_step_answers [of P e d] s r(2) by simp
qed simp

lemma Dispatcher_new_capacity:
  "tp_len P (tp_new P package_limit) = 0 \<Longrightarrow>
   capacity_ok P (Dispatcher_new P package_limit limit count_per_batch buffer_duration wal_enable wal filter_wal)"
  by (auto simp: Dispatcher_new_def read_tx_from_wal_def capacity_ok_def update_capacity_def Let_def split: prod.splits)

lemma dispatch_step_limit: "ds_pool_limit (fst (dispatch_step P e d)) = ds_pool_limit d"
  by (cases e) (auto simp: dispatcher_defs update_capacity_def Let_def split: prod.splits)

lemma dispatch_run_limit: "ds_pool_limit (fst (dispatch_run P es d)) = ds_pool_limit d"
proof (induction es arbitrary: d)
  case (Cons e es)
  then show ?case using dispatch_step_limit [of P e d] by (simp split: prod.splits) (metis fst_conv)
qed simp

lemma Dispatcher_new_fields:
  "ds_pool_limit (Dispatcher_new P package_limit limit count_per_batch buffer_duration wal_enable wal filter_wal) = limit"
  "ds_new_tx_request_buffer (Dispatcher_new P package_limit limit count_per_batch buffer_duration wal_enable wal filter_wal) = []"
  by (auto simp: Dispatcher_new_def read_tx_from_wal_def update_capacity_def Let_def split: prod.splits)

end
