(* ===== verification/Network_Protocol.thy ===== *)
theory Network_Protocol
  imports Cita_Prelude "HOL-Library.Sublist"
begin

text \<open>
  The framing of messages between nodes (\<^verbatim>\<open>cita-network/src/citaprotocol.rs\<close>). A buffer is a list of bytes; a
  \<open>String\<close> is the list of its bytes, which are UTF-8.
\<close>

section \<open>UTF-8\<close>

text \<open>\<open>str::from_utf8\<close> of the standard library: it accepts the well formed sequences of one to four bytes.\<close>

definition continuation :: "u8 \<Rightarrow> bool" where
  "continuation b \<longleftrightarrow> 0x80 \<le> b \<and> b \<le> 0xBF"

fun utf8 :: "bytes \<Rightarrow> bool" where
  "utf8 [] = True"
| "utf8 (a # s) =
     (if a < 0x80 then utf8 s
      else if 0xC2 \<le> a \<and> a \<le> 0xDF then (case s of b # r \<Rightarrow> continuation b \<and> utf8 r | _ \<Rightarrow> False)
      else if 0xE0 \<le> a \<and> a \<le> 0xEF then
        (case s of b # c # r \<Rightarrow>
           (if a = 0xE0 then 0xA0 \<le> b \<and> b \<le> 0xBF else if a = 0xED then 0x80 \<le> b \<and> b \<le> 0x9F else continuation b) \<and>
           continuation c \<and> utf8 r
         | _ \<Rightarrow> False)
      else if 0xF0 \<le> a \<and> a \<le> 0xF4 then
        (case s of b # c # d # r \<Rightarrow>
           (if a = 0xF0 then 0x90 \<le> b \<and> b \<le> 0xBF else if a = 0xF4 then 0x80 \<le> b \<and> b \<le> 0x8F else continuation b) \<and>
           continuation c \<and> continuation d \<and> utf8 r
         | _ \<Rightarrow> False)
      else False)"

section \<open>Frames\<close>

definition NETMSG_START :: u64 where
  "NETMSG_START = 0xDEADBEEF00000000"

text \<open>\<open>NetworkEndian::write_u64\<close> and \<open>read_u64\<close>.\<close>

definition write_u64 :: "u64 \<Rightarrow> bytes" where
  "write_u64 n = nat_be 8 (unat n)"

definition read_u64 :: "bytes \<Rightarrow> u64" where
  "read_u64 buf = of_nat (be_nat (take 8 buf))"

definition opt_bytes_extend :: "bytes \<Rightarrow> bytes \<Rightarrow> bytes" where
  "opt_bytes_extend buf data = buf @ data"

definition pubsub_message_to_network_message :: "bytes \<Rightarrow> (bytes \<times> bytes) option \<Rightarrow> (string, bytes) res" where
  "pubsub_message_to_network_message buf msg =
     (case msg of
        Some (key, body) \<Rightarrow>
          let length_key = length key; length_full = 1 + length_key + length body in
          res_bind (plus_chk NETMSG_START (of_nat length_full)) (\<lambda>request_id.
          let buf1 = opt_bytes_extend buf (write_u64 request_id); buf2 = buf1 @ [of_nat length_key] in
          Ok (opt_bytes_extend (opt_bytes_extend buf2 key) body))
      | None \<Rightarrow> Ok (opt_bytes_extend buf (write_u64 NETMSG_START)))"

definition network_message_to_pubsub_message :: "bytes \<Rightarrow> (string, (bytes \<times> bytes) option \<times> bytes) res" where
  "network_message_to_pubsub_message buf =
     (if length buf < 8 then Ok (None, buf)
      else
        let request_id = read_u64 buf;
            netmsg_start = request_id AND 0xffffffff00000000;
            length_full = unat (request_id AND 0x00000000ffffffff) in
        if netmsg_start \<noteq> NETMSG_START then Ok (None, buf)
        else if length_full + 8 > length buf then Ok (None, buf)
        else let buf1 = drop 8 buf in
          if length_full = 0 then Ok (None, buf1)
          else let payload_buf = take length_full buf1; buf2 = drop length_full buf1 in
            res_bind (expect (if payload_buf = [] then None else Some (unat (hd payload_buf)))) (\<lambda>length_key.
            let payload_buf1 = drop 1 payload_buf in
            if length_key = 0 then Ok (None, buf2)
            else if length_key > length payload_buf1 then Ok (None, buf2)
            else let key_buf = take length_key payload_buf1; payload_buf2 = drop length_key payload_buf1 in
              if \<not> utf8 key_buf then Ok (None, buf2)
              else Ok (Some (key_buf, payload_buf2), buf2)))"

section \<open>Reading a frame\<close>

lemma write_u64_read [simp]: "read_u64 (write_u64 n @ rest) = n" "length (write_u64 n) = 8"
proof -
  have "unat n < 256 ^ 8" using unsigned_less [of n, where ?'a = nat] by simp
  then show "read_u64 (write_u64 n @ rest) = n" by (simp add: read_u64_def write_u64_def be_nat_nat_be)
qed (simp add: write_u64_def)

lemma read_u64_take: "8 \<le> length p \<Longrightarrow> read_u64 (p @ q) = read_u64 p"
  by (simp add: read_u64_def)

lemma high_half: "(x :: u64) AND 0xffffffff00000000 = push_bit 32 (drop_bit 32 x)"
proof -
  have e: "(0xffffffff00000000 :: u64) = push_bit 32 (mask 32)" by (simp add: mask_eq_exp_minus_1)
  show ?thesis unfolding e by (rule bit_eqI) (auto simp: bit_simps)
qed

lemma low_half: "unat ((x :: u64) AND 0x00000000ffffffff) = unat x mod 2 ^ 32"
proof -
  have e: "(0x00000000ffffffff :: u64) = mask 32" by (simp add: mask_eq_exp_minus_1)
  have "unat (x AND mask 32) = take_bit 32 (unat x)" by (simp only: take_bit_eq_mask [symmetric] unsigned_take_bit_eq)
  then show ?thesis unfolding e by (simp only: take_bit_eq_mod)
qed

lemma frame_header:
  assumes "n < 2 ^ 61"
  shows "plus_chk NETMSG_START (of_nat n) = Ok (NETMSG_START + of_nat n)"
    "(NETMSG_START + of_nat n) AND 0xffffffff00000000 = NETMSG_START \<longleftrightarrow> n < 2 ^ 32"
    "unat ((NETMSG_START + of_nat n) AND 0x00000000ffffffff) = n mod 2 ^ 32"
proof -
  have n: "unat (of_nat n :: u64) = n" using assms by (intro unat_of_nat_small) simp
  have s: "unat NETMSG_START = 0xDEADBEEF * 2 ^ 32" by (simp add: NETMSG_START_def)
  then have lt: "unat NETMSG_START + n < 2 ^ 64" using assms by simp
  have u: "unat (NETMSG_START + of_nat n) = 0xDEADBEEF * 2 ^ 32 + n" using unat_add_small [of NETMSG_START "of_nat n"] lt n s by simp
  show "plus_chk NETMSG_START (of_nat n) = Ok (NETMSG_START + of_nat n)" using lt n by (simp add: plus_chk_def)
  show "unat ((NETMSG_START + of_nat n) AND 0x00000000ffffffff) = n mod 2 ^ 32" unfolding low_half u by (rule mod_mult_self3)
  have d: "unat (drop_bit 32 (NETMSG_START + of_nat n)) = 0xDEADBEEF + n div 2 ^ 32" unfolding unat_drop_bit u by simp
  have p: "unat (push_bit 32 (drop_bit 32 (NETMSG_START + of_nat n))) = (0xDEADBEEF + n div 2 ^ 32) * 2 ^ 32"
  proof -
    have "(0xDEADBEEF + n div 2 ^ 32) * 2 ^ 32 < (2 :: nat) ^ 64" using lt s by simp
    then have "take_bit 64 (push_bit 32 (0xDEADBEEF + n div 2 ^ 32)) = (0xDEADBEEF + n div 2 ^ 32) * 2 ^ 32"
      by (simp only: push_bit_eq_mult take_bit_nat_eq_self)
    moreover have "unat (push_bit 32 w) = take_bit 64 (push_bit 32 (unat w))" for w :: u64
      using unsigned_push_bit_eq [of 32 w, where ?'a = nat] by simp
    ultimately show ?thesis by (simp only: d)
  qed
  show "(NETMSG_START + of_nat n) AND 0xffffffff00000000 = NETMSG_START \<longleftrightarrow> n < 2 ^ 32"
    unfolding high_half word_unat_eq_iff p s by auto
qed

text \<open>The frame of a message.\<close>

definition frame_of :: "bytes \<Rightarrow> bytes \<Rightarrow> bytes" where
  "frame_of key body = write_u64 (NETMSG_START + of_nat (1 + length key + length body)) @ of_nat (length key) # key @ body"

lemma encode_frame:
  assumes "1 + length key + length body < 2 ^ 61"
  shows "pubsub_message_to_network_message buf (Some (key, body)) = Ok (buf @ frame_of key body)"
  unfolding pubsub_message_to_network_message_def Let_def option.case prod.case frame_header(1) [OF assms]
  by (simp add: opt_bytes_extend_def frame_of_def)

lemma frame_first_byte: "unat (of_nat n :: u8) = n mod 256"
  by (simp add: unat_of_nat)

lemma decode_frame:
  assumes n: "1 + length key + length body < 2 ^ 61"
  shows "network_message_to_pubsub_message (frame_of key body @ rest) =
    (if 2 ^ 32 \<le> 1 + length key + length body then Ok (None, frame_of key body @ rest)
     else let k = length key mod 256 in
       if k = 0 \<or> \<not> utf8 (take k key) then Ok (None, rest) else Ok (Some (take k key, drop k key @ body), rest))"
proof -
  let ?n = "1 + length key + length body"
  let ?f = "frame_of key body @ rest"
  have id: "read_u64 ?f = NETMSG_START + of_nat ?n" unfolding frame_of_def append_assoc by (rule write_u64_read)
  have len: "length ?f = 8 + ?n + length rest" by (simp add: frame_of_def)
  show ?thesis
  proof (cases "?n < 2 ^ 32")
    case True
    have d: "drop 8 ?f = of_nat (length key) # key @ body @ rest" by (simp add: frame_of_def)
    have p: "take ?n (drop 8 ?f) = of_nat (length key) # key @ body" "drop ?n (drop 8 ?f) = rest" unfolding d by simp_all
    have k: "length key mod 256 \<le> length key" by simp
    have m: "unat ((NETMSG_START + of_nat ?n) AND 0x00000000ffffffff) = ?n" unfolding frame_header(3) [OF n] using True by simp
    show ?thesis
      unfolding network_message_to_pubsub_message_def id Let_def m p
      using True len frame_header(2) [OF n] k by (simp add: frame_first_byte)
  next
    case False
    then show ?thesis
      unfolding network_message_to_pubsub_message_def id Let_def using len frame_header(2) [OF n] by simp
  qed
qed

lemma decode_prefix:
  assumes n: "1 + length key + length body < 2 ^ 61" and p: "strict_prefix p (frame_of key body)"
  shows "network_message_to_pubsub_message p = Ok (None, p)"
proof -
  let ?n = "1 + length key + length body"
  obtain q where q: "frame_of key body = p @ q" "q \<noteq> []" using p by (auto simp: strict_prefix_def prefix_def)
  have len: "length p < 8 + ?n" using arg_cong [OF q(1), of length] q(2) by (cases q) (simp_all add: frame_of_def)
  show ?thesis
  proof (cases "length p < 8")
    case False
    then have "read_u64 p = read_u64 (frame_of key body)" unfolding q(1) by (simp add: read_u64_take)
    then have id: "read_u64 p = NETMSG_START + of_nat ?n" by (simp add: frame_of_def)
    show ?thesis
    proof (cases "?n < 2 ^ 32")
      case True
      then have "unat ((NETMSG_START + of_nat ?n) AND 0x00000000ffffffff) = ?n" unfolding frame_header(3) [OF n] by simp
      then show ?thesis unfolding network_message_to_pubsub_message_def id Let_def using len by simp
    next
      case long: False
      then show ?thesis unfolding network_message_to_pubsub_message_def id Let_def using frame_header(2) [OF n] by simp
    qed
  qed (simp add: network_message_to_pubsub_message_def)
qed

lemma decode_keepalive: "network_message_to_pubsub_message (write_u64 NETMSG_START @ rest) = Ok (None, rest)"
  using frame_header [of 0] by (simp add: network_message_to_pubsub_message_def Let_def)

end
