(* ===== verification/Network_Peers.thy ===== *)
theory Network_Peers
  imports Network_Protocol Rust_Collections
begin

text \<open>
  The connections of a node (\<^verbatim>\<open>cita-network/src/connection.rs\<close>) and the routing of messages between the network and
  the message queue (\<^verbatim>\<open>cita-network/src/network.rs\<close>). A socket is a value of a type of its own, of which only its
  presence matters here; the addresses and keys are the bytes of strings.
\<close>

section \<open>Peers\<close>

record PeerConfig =
  pc_id_card :: "u32 option"
  pc_ip :: "bytes option"
  pc_port :: "u64 option"

record 's Peer =
  pr_id_card :: u32
  pr_addr :: bytes
  pr_stream :: "'s option"

text \<open>\<open>format!\<close> of a number and of an address.\<close>

fun decimal :: "nat \<Rightarrow> bytes" where
  "decimal n = (if n < 10 then [of_nat (48 + n)] else decimal (n div 10) @ [of_nat (48 + n mod 10)])"

definition format_addr :: "bytes \<Rightarrow> u64 \<Rightarrow> bytes" where
  "format_addr ip port = ip @ [58] @ decimal (unat port)"

definition peer_of :: "PeerConfig \<Rightarrow> ('e, u32 \<times> bytes) res" where
  "peer_of peer =
     res_bind (expect (pc_id_card peer)) (\<lambda>id_card. res_bind (expect (pc_ip peer)) (\<lambda>ip. res_bind (expect (pc_port peer)) (\<lambda>port.
     Ok (id_card, format_addr ip port))))"

fun Connection_new :: "PeerConfig list \<Rightarrow> ('e, 's Peer list) res" where
  "Connection_new [] = Ok []"
| "Connection_new (peer # peers) =
     res_bind (peer_of peer) (\<lambda>(id_card, addr).
     res_map (Cons \<lparr>pr_id_card = id_card, pr_addr = addr, pr_stream = None\<rparr>) (Connection_new peers))"

text \<open>The first loop of \<open>update\<close>: the peers of the configuration that are not connected yet.\<close>

fun add_peers ::
  "PeerConfig list \<Rightarrow> bytes list \<Rightarrow> bytes list \<Rightarrow> 's Peer list \<Rightarrow> ('e, bytes list \<times> bytes list \<times> 's Peer list) res" where
  "add_peers [] peers_addr config_addr pairs = Ok (peers_addr, config_addr, pairs)"
| "add_peers (peer # peers) peers_addr config_addr pairs =
     res_bind (peer_of peer) (\<lambda>(id_card, addr).
     let config_addr1 = config_addr @ [addr] in
     if addr \<in> set peers_addr then add_peers peers peers_addr config_addr1 pairs
     else add_peers peers (peers_addr @ [addr]) config_addr1 (pairs @ [\<lparr>pr_id_card = id_card, pr_addr = addr, pr_stream = None\<rparr>]))"

text \<open>The second loop: the peers that are no longer in the configuration.\<close>

function remove_peers :: "bytes list \<Rightarrow> bytes list \<Rightarrow> 's Peer list \<Rightarrow> ('e, bytes list \<times> 's Peer list) res" where
  "remove_peers config_addr peers_addr pairs =
     (case position (\<lambda>addr. addr \<notin> set config_addr) peers_addr of
        None \<Rightarrow> Ok (peers_addr, pairs)
      | Some index \<Rightarrow>
          res_bind (remove_at index pairs) (\<lambda>pairs'.
          remove_peers config_addr (take index peers_addr @ drop (Suc index) peers_addr) pairs'))"
  by pat_completeness auto
termination
  by (relation "measure (\<lambda>(_, peers_addr, _). length peers_addr)") (auto dest: position_less)

declare remove_peers.simps [simp del]

definition Connection_update :: "PeerConfig list option \<Rightarrow> 's Peer list \<Rightarrow> ('e, 's Peer list) res" where
  "Connection_update peers pairs =
     (case peers of
        Some peers \<Rightarrow>
          res_bind (add_peers peers (map pr_addr pairs) [] pairs) (\<lambda>(peers_addr, config_addr, pairs1).
          res_map snd (remove_peers config_addr peers_addr pairs1))
      | None \<Rightarrow> Ok [])"

datatype OperateType = BROADCAST | SINGLE | SUBTRACT

definition is_send :: "u32 \<Rightarrow> u32 \<Rightarrow> OperateType \<Rightarrow> bool" where
  "is_send id_card origin operate \<longleftrightarrow>
     operate = BROADCAST \<or> (operate = SINGLE \<and> id_card = origin) \<or> (operate = SUBTRACT \<and> origin \<noteq> id_card)"

text \<open>A message of the protocol: its origin, whom it is for, and the rest, which another crate serialises.\<close>

record 'c net_message =
  nm_origin :: u32
  nm_operate :: OperateType
  nm_content :: 'c

definition broadcast ::
  "('c net_message \<Rightarrow> bytes) \<Rightarrow> u32 \<Rightarrow> bytes \<Rightarrow> 'c net_message \<Rightarrow> 's Peer list \<Rightarrow> (string, (u32 \<times> bytes) list) res" where
  "broadcast serialise self_id key msg pairs =
     (let origin = nm_origin msg; operate = nm_operate msg; msg1 = msg\<lparr>nm_origin := self_id\<rparr> in
      res_bind (pubsub_message_to_network_message [] (Some (key, serialise msg1))) (\<lambda>buf.
      Ok (map (\<lambda>peer. (pr_id_card peer, buf))
           (filter (\<lambda>peer. is_send (pr_id_card peer) origin operate \<and> pr_stream peer \<noteq> None) pairs))))"

text \<open>One round of the thread of \<open>connect\<close>: it sends an empty message on each connection, and connects to a peer
  where there is none or it fails. Writing to a socket and opening one are parameters.\<close>

definition connect_round :: "('s \<Rightarrow> bytes \<Rightarrow> bool) \<Rightarrow> (bytes \<Rightarrow> 's option) \<Rightarrow> 's Peer list \<Rightarrow> (string, 's Peer list) res" where
  "connect_round write open_stream pairs =
     res_bind (pubsub_message_to_network_message [] None) (\<lambda>buf.
     Ok (map (\<lambda>peer.
       let need_reconnect = (case pr_stream peer of Some stream \<Rightarrow> \<not> write stream buf | None \<Rightarrow> True) in
       if need_reconnect then peer\<lparr>pr_stream := open_stream (pr_addr peer)\<rparr> else peer) pairs))"

section \<open>Routing\<close>

datatype Source = LOCAL | REMOTE

datatype route = To_sync Source bytes | To_peers bytes bytes | Reply_rpc bytes | To_pub bytes bytes | To_new_tx bytes bytes
  | To_consensus bytes bytes | No_route

definition text_bytes :: "string \<Rightarrow> bytes" where
  "text_bytes s = map (\<lambda>c. of_nat (of_char c)) s"

definition NetWork_receiver :: "Source \<Rightarrow> bytes \<times> bytes \<Rightarrow> route" where
  "NetWork_receiver source = (\<lambda>(key, data).
     case source of
       LOCAL \<Rightarrow>
         if key = text_bytes ''chain.status'' then To_sync source data
         else if key = text_bytes ''chain.blk'' then To_peers (text_bytes ''net.sync_resp'') data
         else if key = text_bytes ''jsonrpc.net'' then Reply_rpc data
         else No_route
     | REMOTE \<Rightarrow>
         if key = text_bytes ''net.sync_status'' \<or> key = text_bytes ''net.sync_resp'' then To_sync source data
         else if key = text_bytes ''net.sync_req'' then To_pub (text_bytes ''net.sync'') data
         else if key = text_bytes ''auth.tx'' then To_new_tx (text_bytes ''net.tx'') data
         else if key = text_bytes ''consensus.msg'' then To_consensus (text_bytes ''net.msg'') data
         else No_route)"

text \<open>The answer to a request for the number of peers; another request is not answered.\<close>

definition reply_rpc :: "bytes \<Rightarrow> bool \<Rightarrow> 's Peer list \<Rightarrow> (bytes \<times> u32) list" where
  "reply_rpc request_id has_peercount pairs =
     (if has_peercount then [(request_id, of_nat (length (filter (\<lambda>x. pr_stream x \<noteq> None) pairs)))] else [])"

section \<open>The peers after an update\<close>

lemma remove_peers_filter:
  "remove_peers config_addr (map pr_addr pairs) pairs =
     Ok (filter (\<lambda>a. a \<in> set config_addr) (map pr_addr pairs), filter (\<lambda>p. pr_addr p \<in> set config_addr) pairs)"
proof (induction pairs rule: length_induct)
  case (1 pairs)
  let ?P = "\<lambda>addr. addr \<notin> set config_addr"
  show ?case
  proof (cases "position ?P (map pr_addr pairs)")
    case None
    then have "\<forall>p\<in>set pairs. pr_addr p \<in> set config_addr" by (auto simp: position_None)
    then show ?thesis by (subst remove_peers.simps) (simp add: None filter_id_conv)
  next
    case (Some i)
    let ?p = "take i pairs @ drop (Suc i) pairs"
    have i: "i < length pairs" using position_less [OF Some] by simp
    have m: "take i (map pr_addr pairs) @ drop (Suc i) (map pr_addr pairs) = map pr_addr ?p" by (simp add: take_map drop_map)
    have "pr_addr (pairs ! i) \<notin> set config_addr" using position_Some [OF Some] i by simp
    then have f: "filter (\<lambda>p. pr_addr p \<in> set config_addr) ?p = filter (\<lambda>p. pr_addr p \<in> set config_addr) pairs"
      using id_take_nth_drop [OF i] by (metis (no_types, lifting) filter.simps(2) filter_append)
    have lt: "length ?p < length pairs" using i by simp
    note ih = 1 [rule_format, OF lt]
    show ?thesis
      using Some i ih by (subst remove_peers.simps) (simp add: remove_at_def m filter_map comp_def f [unfolded filter_append, symmetric] del: res_bind_eq_Ok)
  qed
qed

text \<open>The peers of a configuration with all its fields: those at addresses that are not known yet are added, once
  each.\<close>

fun new_peers :: "bytes list \<Rightarrow> (u32 \<times> bytes) list \<Rightarrow> 's Peer list" where
  "new_peers known [] = []"
| "new_peers known ((id_card, addr) # ps) =
     (if addr \<in> set known then new_peers known ps
      else \<lparr>pr_id_card = id_card, pr_addr = addr, pr_stream = None\<rparr> # new_peers (known @ [addr]) ps)"

lemma add_peers_spec:
  "list_all2 (\<lambda>c p. peer_of c = (Ok p :: ('e, _) res)) cs ps \<Longrightarrow>
   (add_peers cs (map pr_addr pairs) conf pairs :: ('e, _) res) =
     Ok (map pr_addr (pairs @ new_peers (map pr_addr pairs) ps), conf @ map snd ps, pairs @ new_peers (map pr_addr pairs) ps)"
proof (induction ps arbitrary: cs pairs conf)
  case (Cons p ps)
  obtain c cs' where cs: "cs = c # cs'" "peer_of c = (Ok p :: ('e, _) res)" "list_all2 (\<lambda>c p. peer_of c = (Ok p :: ('e, _) res)) cs' ps"
    using Cons.prems by (auto simp: list_all2_Cons2)
  let ?new = "\<lparr>pr_id_card = fst p, pr_addr = snd p, pr_stream = None\<rparr>"
  show ?case
    using Cons.IH [OF cs(3), of pairs "conf @ [snd p]"] Cons.IH [OF cs(3), of "pairs @ [?new]" "conf @ [snd p]"] cs(1,2)
    by (cases p) (simp add: Let_def del: res_bind_eq_Ok)
qed (simp del: res_bind_eq_Ok)

lemma new_peers_addr: "pr_addr ` set (new_peers known ps) = snd ` set ps - set known"
  by (induction known ps rule: new_peers.induct) auto

lemma new_peers_distinct: "distinct (map pr_addr (new_peers known ps))"
  by (induction known ps rule: new_peers.induct) (simp_all add: new_peers_addr)

lemma Connection_update_spec:
  assumes "list_all2 (\<lambda>c p. peer_of c = (Ok p :: ('e, _) res)) cs ps"
  shows "(Connection_update (Some cs) pairs :: ('e, _) res) =
    Ok (filter (\<lambda>p. pr_addr p \<in> set (map snd ps)) pairs @ new_peers (map pr_addr pairs) ps)"
proof -
  have "filter (\<lambda>p. pr_addr p \<in> set (map snd ps)) (new_peers (map pr_addr pairs) ps) = new_peers (map pr_addr pairs) ps"
    using new_peers_addr [of "map pr_addr pairs" ps] by (auto simp: filter_id_conv)
  then show ?thesis
    unfolding Connection_update_def option.case add_peers_spec [OF assms, of pairs "[]"]
    by (simp add: remove_peers_filter del: map_append res_bind_eq_Ok)
qed

end
