(* ===== verification/Network_Sync.thy ===== *)
theory Network_Sync
  imports Network_Peers
begin

text \<open>
  The synchronizer (\<^verbatim>\<open>cita-network/src/synchronizer.rs\<close>): it compares the height of the chain of the node with those
  that other nodes report, asks them for the missing blocks and hands consecutive blocks on. Each operation
  returns the messages it sends. The number of peers, the choice of a peer and the clock are arguments; a
  block is a value of a type of its own with a height. The arithmetic on heights panics on an overflow, as in
  a build with overflow checks. The lemmas show what the requests ask for and which blocks are handed on.
\<close>

section \<open>State\<close>

definition SYNC_STEP :: nat where
  "SYNC_STEP = 20"

definition SYNC_TIME_OUT :: nat where
  "SYNC_TIME_OUT = 60"

record Status =
  sts_height :: u64
  sts_hash :: bytes

record 'b Synchronizer =
  sy_current_status :: Status
  sy_global_status :: Status
  sy_sync_end_height :: u64
  sy_is_synchronizing :: bool
  sy_latest_status_lists :: "(u64 \<times> u32 list) list"
  sy_block_lists :: "(u64 \<times> 'b) list"
  sy_sync_time_out :: int

datatype 'b sync_message = Sync_status Status | Sync_req "u64 list" u32 | Net_blk "'b list"

text \<open>The surroundings: the number of peers, \<open>gen_range(0, n)\<close>, the time in seconds and the height of a block.\<close>

record 'b sync_env =
  se_peers :: nat
  se_gen_range :: "nat \<Rightarrow> nat"
  se_now :: int
  se_height :: "'b \<Rightarrow> u64"

type_synonym 'b sync_result = "(string, 'b Synchronizer \<times> 'b sync_message list) res"

definition Synchronizer_new :: "'b sync_env \<Rightarrow> 'b Synchronizer" where
  "Synchronizer_new V = \<lparr>sy_current_status = \<lparr>sts_height = 0, sts_hash = []\<rparr>, sy_global_status = \<lparr>sts_height = 0, sts_hash = []\<rparr>,
     sy_sync_end_height = 0, sy_is_synchronizing = True, sy_latest_status_lists = [], sy_block_lists = [],
     sy_sync_time_out = se_now V - int SYNC_TIME_OUT\<rparr>"

abbreviation current_height :: "'b Synchronizer \<Rightarrow> u64" where
  "current_height s \<equiv> sts_height (sy_current_status s)"

section \<open>Requests\<close>

definition send_sync_req :: "u64 list \<Rightarrow> u32 \<Rightarrow> 'b sync_message list" where
  "send_sync_req hs origin = (if hs \<noteq> [] then [Sync_req hs origin] else [])"

text \<open>The loop of \<open>sync_strategy\<close>: it yields the requests in turn.\<close>

function sync_loop :: "u64 \<Rightarrow> u64 \<Rightarrow> nat \<Rightarrow> u64 list \<Rightarrow> u32 \<Rightarrow> (string, 'b sync_message list) res" where
  "sync_loop start_height end_height step_sum hs origin =
     (if start_height \<le> end_height
      then (let (sent, step_sum1, hs1) = (if step_sum = 0 then (send_sync_req hs origin, SYNC_STEP, []) else ([], step_sum, hs)) in
            res_bind (plus_chk start_height 1) (\<lambda>next.
            res_map ((@) sent) (sync_loop next end_height (step_sum1 - 1) (hs1 @ [start_height]) origin)))
      else Ok (send_sync_req hs origin))"
  by pat_completeness auto
termination
  by (relation "measure (\<lambda>(start_height, end_height, _). Suc (unat end_height) - unat start_height)")
    (auto simp: word_le_nat_alt dest!: plus_chk_unat)

declare sync_loop.simps [simp del]

definition sync_strategy :: "u64 \<Rightarrow> u64 \<Rightarrow> u32 \<Rightarrow> 'b Synchronizer \<Rightarrow> (string, 'b sync_message list) res" where
  "sync_strategy start_height end_height origin s =
     (if start_height \<ge> current_height s \<and> start_height \<le> end_height
      then sync_loop start_height end_height SYNC_STEP [] origin else Ok [])"

text \<open>The last entry with enough origins; the test divides by the number of peers.\<close>

definition find_status :: "nat \<Rightarrow> (u64 \<times> u32 list) list \<Rightarrow> (string, (u64 \<times> u32 list) option) res" where
  "find_status peers m =
     (if m = [] then Ok None
      else if peers = 0 then Panic
      else Ok (List.find (\<lambda>(_, origins). length origins \<ge> 2 div (3 * peers)) (rev m)))"

definition start_sync_req :: "'b sync_env \<Rightarrow> u64 \<Rightarrow> u64 \<Rightarrow> 'b Synchronizer \<Rightarrow> (string, 'b sync_message list) res" where
  "start_sync_req V start_height end_height s =
     res_bind (find_status (se_peers V) (sy_latest_status_lists s)) (\<lambda>found.
     case found of
       None \<Rightarrow> Ok []
     | Some (height, origins) \<Rightarrow>
         if height > current_height s
         then (let i = se_gen_range V (length origins) in
               res_bind (if i < length origins then Ok (origins ! i) else Panic) (\<lambda>origin.
               res_bind (if end_height = 0 then plus_chk height 1 else Ok end_height) (\<lambda>end_height1.
               sync_strategy start_height end_height1 origin s)))
         else Ok [])"

definition broadcast_status :: "'b Synchronizer \<Rightarrow> 'b sync_message list" where
  "broadcast_status s = [Sync_status (sy_current_status s)]"

section \<open>Blocks\<close>

text \<open>The loop of \<open>submit_blocks\<close>: the blocks from \<open>height\<close> on, as long as the next one is there.\<close>

function take_blocks :: "u64 \<Rightarrow> u64 \<Rightarrow> (u64 \<times> 'b) list \<Rightarrow> (string, 'b list \<times> (u64 \<times> 'b) list) res" where
  "take_blocks height end_height m =
     (if height \<le> end_height
      then (case map_of m height of
              Some block \<Rightarrow>
                res_bind (plus_chk height 1) (\<lambda>next.
                res_map (\<lambda>(blocks, m'). (block # blocks, m')) (take_blocks next end_height (bt_remove height m)))
            | None \<Rightarrow> Ok ([], m))
      else Ok ([], m))"
  by pat_completeness auto
termination
  by (relation "measure (\<lambda>(height, end_height, _). Suc (unat end_height) - unat height)")
    (auto simp: word_le_nat_alt dest!: plus_chk_unat)

declare take_blocks.simps [simp del]

definition pub_blocks :: "'b list \<Rightarrow> 'b Synchronizer \<Rightarrow> 'b sync_result" where
  "pub_blocks blocks s =
     (if blocks \<noteq> []
      then res_bind (plus_chk (current_height s) (of_nat (length blocks - 1))) (\<lambda>end_height.
           Ok (s\<lparr>sy_sync_end_height := end_height\<rparr>, [Net_blk blocks]))
      else Ok (s, []))"

definition submit_blocks :: "'b sync_env \<Rightarrow> 'b Synchronizer \<Rightarrow> 'b sync_result" where
  "submit_blocks V s =
     res_bind (plus_chk (current_height s) 1) (\<lambda>height.
     res_bind (plus_chk height (of_nat SYNC_STEP)) (\<lambda>end_height.
     res_bind (take_blocks height end_height (bt_split_off height (sy_block_lists s))) (\<lambda>(blocks, m).
     case (if length m = 1 then map_of m (- 1) else None) of
       Some block \<Rightarrow> pub_blocks (blocks @ [block]) (s\<lparr>sy_block_lists := bt_remove (- 1) m\<rparr>)
     | None \<Rightarrow>
         pub_blocks blocks (s\<lparr>sy_block_lists :=
           if blocks \<noteq> [] then bt_insert (se_height V (last blocks)) (last blocks) m else m\<rparr>))))"

definition process_sync :: "'b sync_env \<Rightarrow> 'b list \<Rightarrow> 'b Synchronizer \<Rightarrow> 'b sync_result" where
  "process_sync V blocks s =
     submit_blocks V (s\<lparr>sy_block_lists := fold (\<lambda>block m. bt_insert (se_height V block) block m) blocks (sy_block_lists s)\<rparr>)"

section \<open>Statuses\<close>

definition add_latest_sync_lists :: "u64 \<Rightarrow> u32 \<Rightarrow> 'b Synchronizer \<Rightarrow> 'b Synchronizer" where
  "add_latest_sync_lists height origin s =
     s\<lparr>sy_latest_status_lists :=
       bt_insert height ((case map_of (sy_latest_status_lists s) height of Some origins \<Rightarrow> origins | None \<Rightarrow> []) @ [origin])
         (sy_latest_status_lists s)\<rparr>"

definition update_current_status :: "'b sync_env \<Rightarrow> Status \<Rightarrow> 'b Synchronizer \<Rightarrow> 'b sync_result" where
  "update_current_status V latest_status s =
     (let old_height = current_height s in
      res_bind (plus_chk (sts_height latest_status) 1) (\<lambda>start_height.
      let s1 = s\<lparr>sy_latest_status_lists := bt_split_off start_height (sy_latest_status_lists s), sy_current_status := latest_status\<rparr>;
          out = broadcast_status s1 in
      if current_height s1 \<le> old_height
      then (let s2 = s1\<lparr>sy_is_synchronizing := True\<rparr> in
            res_map (\<lambda>reqs. (s2, out @ reqs)) (start_sync_req V start_height 0 s2))
      else if current_height s1 < sy_sync_end_height s1
      then res_bind (plus_chk (sy_sync_end_height s1) 1) (\<lambda>end_height.
           res_map (\<lambda>reqs. (s1\<lparr>sy_sync_time_out := se_now V, sy_is_synchronizing := True\<rparr>, out @ reqs))
             (start_sync_req V start_height end_height s1))
      else if current_height s1 = sy_sync_end_height s1
      then res_bind (plus_chk (current_height s1) 2) (\<lambda>second.
           res_map (\<lambda>(s2, msgs). (s2\<lparr>sy_sync_time_out := se_now V, sy_is_synchronizing := True\<rparr>, out @ msgs))
             (if map_of (sy_block_lists s1) start_height \<noteq> None \<and> map_of (sy_block_lists s1) second \<noteq> None
              then submit_blocks V s1
              else res_map (\<lambda>reqs. (s1, reqs)) (start_sync_req V start_height 0 s1)))
      else Ok (s1\<lparr>sy_sync_end_height := current_height s1, sy_is_synchronizing := False\<rparr>, out)))"

definition update_global_status :: "'b sync_env \<Rightarrow> Status \<Rightarrow> u32 \<Rightarrow> 'b Synchronizer \<Rightarrow> 'b sync_result" where
  "update_global_status V status origin s =
     (let old_global_height = sts_height (sy_global_status s);
          s1 = (if sts_height (sy_global_status s) < sts_height status then s\<lparr>sy_global_status := status\<rparr> else s) in
      res_bind (plus_chk (current_height s) 1) (\<lambda>next_height.
      if sts_height status < next_height then Ok (s1\<lparr>sy_is_synchronizing := False\<rparr>, [])
      else if sts_height status = next_height
      then (let s2 = add_latest_sync_lists (sts_height status) origin s1 in
            if sts_height (sy_global_status s2) > old_global_height \<and> sy_is_synchronizing s2
            then res_map (\<lambda>reqs. (s2, reqs)) (start_sync_req V (sts_height status) (sts_height status) s2)
            else Ok (s2\<lparr>sy_is_synchronizing := False\<rparr>, []))
      else
        (let s2 = add_latest_sync_lists (sts_height status) origin s1 in
         if se_now V - sy_sync_time_out s2 > int SYNC_TIME_OUT \<or> \<not> sy_is_synchronizing s2
         then res_map (\<lambda>reqs. (s2\<lparr>sy_sync_time_out := se_now V, sy_is_synchronizing := True\<rparr>, reqs))
                (start_sync_req V next_height (sts_height status) s2)
         else if sts_height (sy_global_status s2) > old_global_height \<and> sy_is_synchronizing s2
         then res_map (\<lambda>reqs. (s2\<lparr>sy_is_synchronizing := True\<rparr>, reqs))
                (start_sync_req V (sts_height status) (sts_height status) s2)
         else Ok (s2\<lparr>sy_is_synchronizing := True\<rparr>, []))))"

datatype 'b sync_content = Msg_status Status | Msg_blocks "'b list" | Msg_other

definition Synchronizer_receive :: "'b sync_env \<Rightarrow> Source \<Rightarrow> u32 \<Rightarrow> 'b sync_content \<Rightarrow> 'b Synchronizer \<Rightarrow> 'b sync_result" where
  "Synchronizer_receive V from origin content s =
     (case content of
        Msg_status status \<Rightarrow>
          (case from of LOCAL \<Rightarrow> update_current_status V status s | REMOTE \<Rightarrow> update_global_status V status origin s)
      | Msg_blocks blocks \<Rightarrow> (case from of LOCAL \<Rightarrow> Ok (s, []) | REMOTE \<Rightarrow> process_sync V blocks s)
      | Msg_other \<Rightarrow> Ok (s, []))"

section \<open>What is asked for\<close>

lemma chunks_short: "xs \<noteq> [] \<Longrightarrow> length xs \<le> n \<Longrightarrow> chunks n xs = [xs]"
  by (subst chunks.simps) (cases n, auto)

lemma chunks_append: "length xs = n \<Longrightarrow> 0 < n \<Longrightarrow> chunks n (xs @ ys) = xs # chunks n ys"
  by (subst chunks.simps) auto

lemma heights_Cons:
  assumes "a \<le> b" "unat b + 1 < 2 ^ 64"
  shows "heights a (b + 1) = a # heights (a + 1) (b + 1)"
proof -
  have b: "unat (b + 1) = unat b + 1" using assms(2) unat_add_small [of b 1] by simp
  have a: "unat (a + 1) = unat a + 1" using assms unat_add_small [of a 1] by (simp add: word_le_nat_alt)
  have "[unat a..<unat b + 1] = unat a # [unat a + 1..<unat b + 1]" using assms(1) by (simp add: upt_conv_Cons word_le_nat_alt)
  then show ?thesis by (simp add: heights_def a b)
qed

lemma heights_Nil: "b < a \<Longrightarrow> unat b + 1 < 2 ^ 64 \<Longrightarrow> heights a (b + 1) = []"
  using unat_add_small [of b 1] by (simp add: heights_def word_less_nat_alt)

lemma sync_loop_chunks:
  "unat e + 1 < 2 ^ 64 \<Longrightarrow> length hs + step = SYNC_STEP \<Longrightarrow>
   sync_loop a e step hs origin = Ok (map (\<lambda>c. Sync_req c origin) (chunks SYNC_STEP (hs @ heights a (e + 1))))"
proof (induction "Suc (unat e) - unat a" arbitrary: a step hs)
  case 0
  then have lt: "e < a" by (simp add: word_less_nat_alt)
  then have "heights a (e + 1) = []" using 0 by (intro heights_Nil) simp_all
  then show ?case using lt 0 chunks_short [of hs SYNC_STEP] by (subst sync_loop.simps) (auto simp: send_sync_req_def not_le)
next
  case (Suc k)
  then have le: "a \<le> e" by (simp add: word_le_nat_alt)
  have un: "unat (a + 1) = unat a + 1" using le Suc.prems(1) unat_add_small [of a 1] by (simp add: word_le_nat_alt)
  have next': "plus_chk a 1 = (Ok (a + 1) :: (string, u64) res)" using le Suc.prems(1) by (simp add: plus_chk_def word_le_nat_alt)
  have k: "k = Suc (unat e) - unat (a + 1)" using Suc.hyps(2) un by simp
  note h = heights_Cons [OF le Suc.prems(1)] and ih = Suc.hyps(1) [OF k Suc.prems(1)]
  show ?case
  proof (cases "step = 0")
    case True
    then have len: "length hs = SYNC_STEP" "hs \<noteq> []" using Suc.prems(2) by (auto simp: SYNC_STEP_def)
    show ?thesis
      using le True next' len ih [of "[a]" "SYNC_STEP - 1"] chunks_append [OF len(1), of "a # heights (a + 1) (e + 1)"]
      by (subst sync_loop.simps) (simp add: send_sync_req_def h SYNC_STEP_def)
  next
    case False
    then show ?thesis using le next' ih [of "hs @ [a]" "step - 1"] Suc.prems(2)
      by (subst sync_loop.simps) (simp add: h)
  qed
qed

text \<open>A request for the greatest height never gets to its end.\<close>

lemma sync_loop_panics: "sync_loop a (- 1) step hs origin = Panic"
proof (induction "2 ^ 64 - unat a" arbitrary: a step hs)
  case 0
  then show ?case using unsigned_less [of a, where ?'a = nat] by simp
next
  case (Suc k)
  show ?case
  proof (cases "unat a + 1 < 2 ^ 64")
    case True
    then have "unat (a + 1) = unat a + 1" using unat_add_small [of a 1] by simp
    then have k: "k = 2 ^ 64 - unat (a + 1)" using Suc.hyps(2) by simp
    have "plus_chk a 1 = (Ok (a + 1) :: (string, u64) res)" using True by (simp add: plus_chk_def)
    then show ?thesis using Suc.hyps(1) [OF k] by (subst sync_loop.simps) (auto split: prod.splits)
  next
    case False
    then have "plus_chk a 1 = (Panic :: (string, u64) res)" by (simp add: plus_chk_def)
    then show ?thesis by (subst sync_loop.simps) (auto split: prod.splits)
  qed
qed

text \<open>Consecutive heights, at most twenty, all above the given one.\<close>

definition asks_above :: "nat \<Rightarrow> u64 list \<Rightarrow> bool" where
  "asks_above h hs \<longleftrightarrow> (\<exists>i j. hs = map of_nat [i..<j] \<and> h < i \<and> i < j \<and> j \<le> i + SYNC_STEP \<and> j \<le> 2 ^ 64)"

lemma chunks_upt:
  "c \<in> set (chunks n (map f [i..<j])) \<Longrightarrow> \<exists>i' j'. c = map f [i'..<j'] \<and> i \<le> i' \<and> i' < j' \<and> j' \<le> j \<and> j' \<le> i' + n"
proof (induction "j - i" arbitrary: i rule: less_induct)
  case less
  show ?case
  proof (cases "i < j \<and> 0 < n")
    case True
    then have ch: "chunks n (map f [i..<j]) = map f [i..<min (i + n) j] # chunks n (map f [i + n..<j])"
      by (subst chunks.simps) (simp add: take_map drop_map take_upt min_def)
    show ?thesis
    proof (cases "c = map f [i..<min (i + n) j]")
      case head: True
      then show ?thesis using True by (intro exI [of _ i] exI [of _ "min (i + n) j"]) simp
    next
      case False
      then have "c \<in> set (chunks n (map f [i + n..<j]))" using less.prems ch by simp
      then obtain i' j' where "c = map f [i'..<j']" "i + n \<le> i'" "i' < j'" "j' \<le> j" "j' \<le> i' + n"
        using less.hyps [of "i + n"] True by fastforce
      then show ?thesis by (intro exI [of _ i'] exI [of _ j']) simp
    qed
  next
    case False
    then have "chunks n (map f [i..<j]) = []" by (subst chunks.simps) auto
    then show ?thesis using less.prems by simp
  qed
qed

lemma sync_strategy_sound:
  assumes run: "sync_strategy a e origin s = Ok msgs" and a: "h < unat a" and m: "m \<in> set msgs"
  shows "\<exists>hs. m = Sync_req hs origin \<and> asks_above h hs"
proof -
  have go: "a \<le> e" "sync_loop a e SYNC_STEP [] origin = Ok msgs" using run m by (auto simp: sync_strategy_def split: if_splits)
  have "e \<noteq> - 1" using go(2) by (auto simp: sync_loop_panics)
  then have lt: "unat e + 1 < 2 ^ 64"
    using unsigned_less [of e, where ?'a = nat] by (cases "unat e + 1 = 2 ^ 64") (auto simp: word_unat_eq_iff unsigned_minus_1_eq_mask mask_eq_exp_minus_1)
  then have "msgs = map (\<lambda>c. Sync_req c origin) (chunks SYNC_STEP (heights a (e + 1)))" using go(2) by (simp add: sync_loop_chunks)
  then obtain c where c: "m = Sync_req c origin" "c \<in> set (chunks SYNC_STEP (heights a (e + 1)))" using m by auto
  obtain i j where "c = map of_nat [i..<j]" "unat a \<le> i" "i < j" "j \<le> unat (e + 1)" "j \<le> i + SYNC_STEP"
    using chunks_upt [of c SYNC_STEP of_nat "unat a" "unat (e + 1)"] c(2) by (auto simp: heights_def)
  then have "asks_above h c" using a unsigned_less [of "e + 1", where ?'a = nat] unfolding asks_above_def
    by (intro exI [of _ i] exI [of _ j]) simp
  then show ?thesis using c(1) by blast
qed

text \<open>A node that is asked has reported a height above that of the chain.\<close>

definition reported_above :: "nat \<Rightarrow> u32 \<Rightarrow> (u64 \<times> u32 list) list \<Rightarrow> bool" where
  "reported_above h origin m \<longleftrightarrow> (\<exists>(height, origins) \<in> set m. h < unat height \<and> origin \<in> set origins)"

lemma find_status_in: "find_status peers m = Ok (Some x) \<Longrightarrow> x \<in> set m"
  by (auto simp: find_status_def find_Some_iff in_set_conv_nth split: if_splits)
    (metis diff_less length_greater_0_conv list.size(3) not_less_zero rev_nth zero_less_Suc)

lemma start_sync_req_sound:
  assumes run: "start_sync_req V a e s = Ok msgs" and a: "unat (current_height s) < unat a" and m: "m \<in> set msgs"
  shows "\<exists>hs origin. m = Sync_req hs origin \<and> asks_above (unat (current_height s)) hs \<and>
    reported_above (unat (current_height s)) origin (sy_latest_status_lists s)"
proof -
  obtain found where found: "find_status (se_peers V) (sy_latest_status_lists s) = Ok found"
    using run by (cases "find_status (se_peers V) (sy_latest_status_lists s)") (simp_all add: start_sync_req_def)
  obtain height origins where fo: "found = Some (height, origins)"
    using run m found by (cases found) (auto simp: start_sync_req_def)
  note f = found [unfolded fo]
  have gt: "height > current_height s" and r: "\<exists>i e'. i < length origins \<and> sync_strategy a e' (origins ! i) s = Ok msgs"
    using run m by (auto simp: start_sync_req_def f Let_def split: if_splits)
  from r obtain i e' where i: "i < length origins" "sync_strategy a e' (origins ! i) s = Ok msgs" by blast
  have "reported_above (unat (current_height s)) (origins ! i) (sy_latest_status_lists s)"
    using find_status_in [OF f] gt i(1) by (force simp: reported_above_def word_less_nat_alt)
  then show ?thesis using sync_strategy_sound [OF i(2) a m] by blast
qed

section \<open>What is handed on\<close>

definition keyed :: "'b sync_env \<Rightarrow> (u64 \<times> 'b) list \<Rightarrow> bool" where
  "keyed V m \<longleftrightarrow> bt_ok m \<and> (\<forall>(k, b) \<in> set m. se_height V b = k)"

lemma keyed_filter: "keyed V m \<Longrightarrow> keyed V (bt_remove k m)" "keyed V m \<Longrightarrow> keyed V (bt_split_off k m)"
  by (auto simp: keyed_def bt_ok_filter set_bt_filter)

lemma keyed_insert: "keyed V m \<Longrightarrow> keyed V (bt_insert (se_height V b) b m)"
  using set_bt_insert(1) [of "se_height V b" b m] by (auto simp: keyed_def bt_ok_insert)

lemma keyed_map_of: "keyed V m \<Longrightarrow> map_of m k = Some b \<Longrightarrow> se_height V b = k"
  by (auto simp: keyed_def dest: map_of_SomeD)

lemma take_blocks_spec:
  "keyed V m \<Longrightarrow> take_blocks h e m = Ok (bs, m') \<Longrightarrow>
   keyed V m' \<and> map (se_height V) bs = map of_nat [unat h..<unat h + length bs] \<and> (bs \<noteq> [] \<longrightarrow> unat h + length bs \<le> Suc (unat e))"
proof (induction "Suc (unat e) - unat h" arbitrary: h m bs)
  case 0
  then show ?case by (subst (asm) take_blocks.simps) (auto simp: word_le_nat_alt)
next
  case (Suc k)
  then have le: "h \<le> e" by (simp add: word_le_nat_alt)
  show ?case
  proof (cases "map_of m h")
    case None
    then show ?thesis using Suc.prems le by (subst (asm) take_blocks.simps) auto
  next
    case (Some b)
    then obtain n bs' where n: "plus_chk h 1 = (Ok n :: (string, u64) res)" "bs = b # bs'" "take_blocks n e (bt_remove h m) = Ok (bs', m')"
      using Suc.prems(2) le by (subst (asm) take_blocks.simps) (auto split: prod.splits)
    have un: "unat n = unat h + 1" using plus_chk_unat [OF n(1)] by simp
    have k: "k = Suc (unat e) - unat n" using Suc.hyps(2) un by simp
    note ih = Suc.hyps(1) [OF k keyed_filter(1) [OF Suc.prems(1)] n(3)]
    have "[unat h..<unat h + length bs] = unat h # [unat n..<unat n + length bs']"
      using un n(2) upt_conv_Cons [of "unat h" "unat h + length bs"] by simp
    then show ?thesis using ih n(2) un keyed_map_of [OF Suc.prems(1) Some] le by (cases bs') (auto simp: word_le_nat_alt)
  qed
qed

text \<open>What a message of the synchronizer may be when the chain is at height \<open>h\<close>. The blocks handed on are
  consecutive from the next height on, up to twenty-one; a proposal with the greatest height may follow them.\<close>

fun message_sound :: "'b sync_env \<Rightarrow> nat \<Rightarrow> (u64 \<times> u32 list) list \<Rightarrow> 'b sync_message \<Rightarrow> bool" where
  "message_sound V h m (Sync_status status) \<longleftrightarrow> unat (sts_height status) = h"
| "message_sound V h m (Sync_req hs origin) \<longleftrightarrow> asks_above h hs \<and> reported_above h origin m"
| "message_sound V h m (Net_blk blocks) \<longleftrightarrow> blocks \<noteq> [] \<and>
     (\<exists>n \<le> SYNC_STEP + 1. map (se_height V) blocks = map of_nat [h + 1..<h + 1 + n] \<or>
        map (se_height V) blocks = map of_nat [h + 1..<h + 1 + n] @ [- 1])"

abbreviation sync_sound :: "'b sync_env \<Rightarrow> 'b Synchronizer \<Rightarrow> 'b sync_message list \<Rightarrow> bool" where
  "sync_sound V s msgs \<equiv> keyed V (sy_block_lists s) \<and>
     (\<forall>m \<in> set msgs. message_sound V (unat (current_height s)) (sy_latest_status_lists s) m)"

lemma pub_blocks_result:
  "pub_blocks blocks s = Ok (s', msgs) \<Longrightarrow>
   (\<exists>e. s' = s\<lparr>sy_sync_end_height := e\<rparr>) \<and> msgs = (if blocks = [] then [] else [Net_blk blocks])"
  by (auto simp: pub_blocks_def split: if_splits intro: exI [of _ "sy_sync_end_height s"])

lemma start_sync_req_all:
  assumes "start_sync_req V a e s = Ok msgs" "unat (current_height s) < unat a"
  shows "\<forall>m \<in> set msgs. message_sound V (unat (current_height s)) (sy_latest_status_lists s) m"
  using start_sync_req_sound [OF assms] by fastforce

lemma submit_blocks_sound:
  assumes k: "keyed V (sy_block_lists s)" and run: "submit_blocks V s = Ok (s', msgs)"
  shows "sync_sound V s' msgs \<and> current_height s' = current_height s"
proof -
  obtain h e blocks m where h: "plus_chk (current_height s) 1 = (Ok h :: (string, u64) res)"
    and e: "plus_chk h (of_nat SYNC_STEP) = (Ok e :: (string, u64) res)"
    and t: "take_blocks h e (bt_split_off h (sy_block_lists s)) = Ok (blocks, m)"
    and p: "(case (if length m = 1 then map_of m (- 1) else None) of
       Some block \<Rightarrow> pub_blocks (blocks @ [block]) (s\<lparr>sy_block_lists := bt_remove (- 1) m\<rparr>)
     | None \<Rightarrow> pub_blocks blocks (s\<lparr>sy_block_lists :=
           if blocks \<noteq> [] then bt_insert (se_height V (last blocks)) (last blocks) m else m\<rparr>)) = Ok (s', msgs)"
    using run unfolding submit_blocks_def by (auto split: prod.splits)
  have uh: "unat h = unat (current_height s) + 1" using plus_chk_unat [OF h] by simp
  have ue: "unat e = unat h + SYNC_STEP" using plus_chk_unat [OF e] by (simp add: SYNC_STEP_def)
  note spec = take_blocks_spec [OF keyed_filter(2) [OF k] t]
  then have bl: "map (se_height V) blocks = map of_nat [unat (current_height s) + 1..<unat (current_height s) + 1 + length blocks]"
    "length blocks \<le> SYNC_STEP + 1" "keyed V m"
    using uh ue by (cases "blocks = []"; simp)+
  show ?thesis
  proof (cases "if length m = 1 then map_of m (- 1) else None")
    case None
    then obtain e' where r: "s' = s\<lparr>sy_block_lists := if blocks \<noteq> [] then bt_insert (se_height V (last blocks)) (last blocks) m else m,
        sy_sync_end_height := e'\<rparr>" "msgs = (if blocks = [] then [] else [Net_blk blocks])"
      using p by (auto dest!: pub_blocks_result)
    have "message_sound V h' l x" if "x \<in> set msgs" "h' = unat (current_height s)" for x h' l
      using that r(2) bl(1,2) by (cases "blocks = []") (simp_all del: upt_Suc_append upt_Suc, blast)
    then show ?thesis using r(1) bl(3) by (simp add: keyed_insert)
  next
    case (Some b)
    then have b: "se_height V b = - 1" using keyed_map_of [OF bl(3)] by (auto split: if_splits)
    obtain e' where r: "s' = s\<lparr>sy_block_lists := bt_remove (- 1) m, sy_sync_end_height := e'\<rparr>" "msgs = [Net_blk (blocks @ [b])]"
      using p Some by (auto dest!: pub_blocks_result)
    have "message_sound V h' l x" if "x \<in> set msgs" "h' = unat (current_height s)" for x h' l
      using that r(2) bl(1,2) b by (simp del: upt_Suc_append upt_Suc) blast
    then show ?thesis using r(1) bl(3) by (simp add: keyed_filter)
  qed
qed

lemma process_sync_sound:
  assumes "keyed V (sy_block_lists s)" "process_sync V blocks s = Ok (s', msgs)"
  shows "sync_sound V s' msgs"
proof -
  have "keyed V (fold (\<lambda>block m. bt_insert (se_height V block) block m) blocks m)" if "keyed V m" for m
    using that by (induction blocks arbitrary: m) (simp_all add: keyed_insert)
  from submit_blocks_sound [where V = V, OF _ assms(2) [unfolded process_sync_def]] this [OF assms(1)] show ?thesis by auto
qed

lemma update_current_status_sound:
  assumes k: "keyed V (sy_block_lists s)" and run: "update_current_status V st s = Ok (s', msgs)"
  shows "sync_sound V s' msgs"
proof -
  obtain a where a: "plus_chk (sts_height st) 1 = (Ok a :: (string, u64) res)" using run
    by (cases "plus_chk (sts_height st) 1 :: (string, u64) res") (simp_all add: update_current_status_def Let_def)
  have ua: "unat (sts_height st) < unat a" using plus_chk_unat [OF a] by simp
  note sreq = start_sync_req_all [where a = a]
  show ?thesis using run k ua
    by (auto simp: update_current_status_def a Let_def broadcast_status_def split: if_splits
        dest!: sreq submit_blocks_sound [rotated])
qed

lemma update_global_status_sound:
  assumes k: "keyed V (sy_block_lists s)" and run: "update_global_status V st origin s = Ok (s', msgs)"
  shows "sync_sound V s' msgs"
proof -
  obtain a where a: "plus_chk (current_height s) 1 = (Ok a :: (string, u64) res)" using run
    by (cases "plus_chk (current_height s) 1 :: (string, u64) res") (simp_all add: update_global_status_def Let_def)
  have ua: "unat a = unat (current_height s) + 1" using plus_chk_unat [OF a] by simp
  show ?thesis using run k ua
    by (auto simp: update_global_status_def a Let_def add_latest_sync_lists_def word_less_nat_alt split: if_splits
        dest!: start_sync_req_all)
qed

lemma Synchronizer_receive_sound:
  assumes k: "keyed V (sy_block_lists s)" and run: "Synchronizer_receive V from origin content s = Ok (s', msgs)"
  shows "sync_sound V s' msgs"
proof (cases content)
  case (Msg_status status)
  then show ?thesis
    using run update_current_status_sound [OF k, of status] update_global_status_sound [OF k, of status]
    by (cases "from") (simp_all add: Synchronizer_receive_def)
next
  case (Msg_blocks blocks)
  then show ?thesis using k run process_sync_sound [OF k, of blocks]
    by (cases "from") (auto simp: Synchronizer_receive_def)
qed (use k run in \<open>auto simp: Synchronizer_receive_def\<close>)

text \<open>The states of a synchronizer that receives any messages, under any circumstances.\<close>

inductive sync_run :: "('b \<Rightarrow> u64) \<Rightarrow> 'b Synchronizer \<Rightarrow> bool" for height where
  sync_new: "sync_run height (Synchronizer_new V)"
| sync_receive: "sync_run height s \<Longrightarrow> se_height V = height \<Longrightarrow> Synchronizer_receive V from origin content s = Ok (s', msgs) \<Longrightarrow>
    sync_run height s'"

lemma sync_run_keyed: "sync_run (se_height V) s \<Longrightarrow> keyed V (sy_block_lists s)"
proof (induction rule: sync_run.induct)
  case (sync_new W)
  then show ?case by (simp add: Synchronizer_new_def keyed_def bt_ok_def)
next
  case (sync_receive s W "from" origin content s' msgs)
  then show ?case using Synchronizer_receive_sound [of W s] by (simp add: keyed_def)
qed

end
