(* ===== verification/Service_Properties.thy ===== *)
theory Service_Properties
  imports Auth_Service Auth_Dispatcher Network_Sync
begin

text \<open>
  The properties of the authentication and network services, each with its instance on a small service.
\<close>

section \<open>A sample service\<close>

definition sample_auth :: auth_libs where
  "sample_auth = \<lparr>al_blocklimit = 10, al_signature_bytes_len = 1, al_h256_from_slice = u256_from_be,
     al_h256_from = u256_from_be, al_recover = (\<lambda>sig h. Some sig)\<rparr>"

definition sample_req :: "u8 \<Rightarrow> VerifyTxReq" where
  "sample_req b = \<lparr>vr_valid_until_block = 5, vr_hash = [1], vr_crypto = Crypto_SECP, vr_signature = [2], vr_nonce = [],
     vr_tx_hash = [b], vr_signer = []\<rparr>"

section \<open>Replayed transactions\<close>


definition sample_verifier :: Verifier where
  "sample_verifier = \<lparr>vf_inited = True, vf_height_latest = Some 0, vf_height_low = Some 0, vf_hashes = [(0, {9})]\<rparr>"



text \<open>C36: In the smaller steps that the locks of the code allow, this is lost: a thread may verify a transaction
  before the hashes of the next block come in, and enter the response into the cache after the handler of
  the hashes has cleared it. From then on a transaction that is in a block, and that would be refused if it
  were verified, counts as verified in the proposals of later blocks.\<close>

theorem stale_verification_accepted:
  assumes "at_hashes s = None" "vf_height_latest (at_verifier s) = Some l" "plus_chk l 1 = (Ok h :: (string, u64) res)"
    and "0 < al_blocklimit L" "tx \<in> set tx_hashes" "al_h256_from_slice L tx = al_h256_from_slice L (vr_tx_hash req)"
    and ok: "vp_ret (verfiy_tx L req (at_verifier s)) = Ret_OK"
    and "enter_hashes L h tx_hashes (at_verifier s) = Ok (v', out, fwd)"
  shows "\<exists>s'. (thread_step L)\<^sup>*\<^sup>* s s' \<and> at_verifier s' = v' \<and> vp_ret (verfiy_tx L req v') \<noteq> Ret_OK \<and>
    check_verify_request_preprocess L v' (at_cache s') (block_info submodule request_id req) = Ok (VerifySucceeded, [])"
proof -
  obtain s' where "(thread_step L)\<^sup>*\<^sup>* s s'" "at_verifier s' = v'" "check_hash_exist (al_h256_from_slice L (vr_tx_hash req)) v'"
    "at_cache s' (al_h256_from_slice L (vr_tx_hash req)) = Some (verfiy_tx L req (at_verifier s))"
    using stale_response [OF assms] by blast
  then show ?thesis using ok by (intro exI [of _ s']) (simp add: preprocess_block verfiy_tx_OK)
qed

definition sample_threads :: auth_threads where
  "sample_threads = auth_threads_new\<lparr>at_verifier := sample_verifier\<rparr>"

theorem stale_verification_accepted_witness:
  "vp_ret (verfiy_tx sample_auth (sample_req 8) sample_verifier) = Ret_OK \<and>
   (\<exists>s'. (thread_step sample_auth)\<^sup>*\<^sup>* sample_threads s' \<and> vp_ret (verfiy_tx sample_auth (sample_req 8) (at_verifier s')) \<noteq> Ret_OK \<and>
     check_verify_request_preprocess sample_auth (at_verifier s') (at_cache s') (block_info SM_Consensus 1 (sample_req 8) :: unit VerifyRequestResponseInfo) =
       Ok (VerifySucceeded, []))"
proof -
  let ?v = "\<lparr>vf_inited = True, vf_height_latest = Some 1, vf_height_low = Some 0, vf_hashes = [(0, {9}), (1, {8})]\<rparr>"
  have s: "at_hashes sample_threads = None" "at_verifier sample_threads = sample_verifier" by (simp_all add: sample_threads_def auth_threads_new_def)
  have ok: "vp_ret (verfiy_tx sample_auth (sample_req 8) sample_verifier) = Ret_OK"
    by (simp add: verfiy_tx_def sample_auth_def sample_req_def sample_verifier_def check_hash_exist_def verify_sig_def u256_from_be_def
        be_nat_def Let_def)
  have e: "enter_hashes sample_auth 1 [[8]] sample_verifier = Ok (?v, [], Some (1, {8}))"
    by (simp add: enter_hashes_def update_hashes_def window_low_def sample_auth_def sample_verifier_def insert_hashes_def
        heights_def minus_chk_def plus_chk_def u256_from_be_def be_nat_def Let_def del: res_bind_eq_Ok)
  have "\<exists>s'. (thread_step sample_auth)\<^sup>*\<^sup>* sample_threads s' \<and> at_verifier s' = ?v \<and> vp_ret (verfiy_tx sample_auth (sample_req 8) ?v) \<noteq> Ret_OK \<and>
    check_verify_request_preprocess sample_auth ?v (at_cache s') (block_info SM_Consensus 1 (sample_req 8) :: unit VerifyRequestResponseInfo) =
      Ok (VerifySucceeded, [])"
    by (rule stale_verification_accepted [of _ 0 1 _ "[8]" "[[8]]"])
      (use s ok e in \<open>simp_all add: plus_chk_def sample_auth_def sample_verifier_def sample_req_def\<close>)
  then show ?thesis using ok by metis
qed

section \<open>Block verification\<close>




section \<open>The dispatcher\<close>

text \<open>C38: Whatever sequence of transactions, blocks, timeouts and deletions a dispatcher handles from its start
  on: its capacity is what the pool of transactions has room for; the transactions of clients that the pool
  accepted are forwarded to the other nodes each once and in their order, the last ones being still in the
  buffer; and each transaction of a client is answered once, in their order.\<close>

theorem dispatcher_accounts:
  assumes "pool_ok P" "tp_len P (tp_new P package_limit) = 0"
    and d: "d = Dispatcher_new P package_limit limit count_per_batch buffer_duration wal_enable wal filter_wal"
    and run: "dispatch_run P es d = (d', out)"
  shows "ds_tx_pool_cap d' = limit - tp_len P (ds_txs_pool d') \<and>
    concat (map forwarded out) @ ds_new_tx_request_buffer d' = map pt_un_tx (accepted P es d) \<and>
    concat (map answered out) = concat (map asked es)"
proof -
  have "capacity_ok P d" unfolding d by (rule Dispatcher_new_capacity [OF assms(2)])
  note acc = dispatch_run_accounts [OF assms(1) this run]
  have "ds_pool_limit d' = limit" "ds_new_tx_request_buffer d = []"
    using dispatch_run_limit [of P es d] run unfolding d by (simp_all add: Dispatcher_new_fields)
  then show ?thesis using acc by (simp add: capacity_ok_def)
qed

text \<open>A pool that is a list of transactions with different hashes, and a log that is one of all transactions.\<close>

definition sample_pool :: "(unit PoolTx list, unit PoolTx list, unit, unit) dispatch_libs" where
  "sample_pool = \<lparr>tp_new = (\<lambda>_. []),
     tp_enqueue = (\<lambda>tx p. if list_ex (\<lambda>t. pt_tx_hash t = pt_tx_hash tx) p then (False, p) else (True, p @ [tx])),
     tp_update_with_hash = (\<lambda>hs p. filter (\<lambda>t. pt_tx_hash t \<notin> set hs) p),
     tp_update = (\<lambda>ts p. filter (\<lambda>t. t \<notin> set ts) p), tp_package = (\<lambda>_ _ _ p. (p, p)), tp_len = length,
     kv_put = (\<lambda>h tx w. w @ [tx]), kv_delete = (\<lambda>h w. filter (\<lambda>t. pt_tx_hash t \<noteq> h) w), kv_iter = id\<rparr>"

definition sample_pool_tx :: "h256 \<Rightarrow> unit PoolTx" where
  "sample_pool_tx h = \<lparr>pt_sub_module = SM_Jsonrpc, pt_request_id = [ucast h], pt_tx_hash = h, pt_signer = [], pt_un_tx = ()\<rparr>"

theorem dispatcher_accounts_witness:
  "let es = [Ev_tx 0 (sample_pool_tx 1), Ev_tx 0 (sample_pool_tx 1), Ev_tx 0 (sample_pool_tx 2), Ev_txs 5 [1] 100 (), Ev_delete 1] in
    (case dispatch_run sample_pool es (Dispatcher_new sample_pool 10 7 1 3 True [] []) of (d', out) \<Rightarrow>
      ds_tx_pool_cap d' = 6 \<and> concat (map answered out) = [[1], [1], [2]] \<and>
      concat (map forwarded out) @ ds_new_tx_request_buffer d' = [(), ()])"
proof -
  let ?es = "[Ev_tx 0 (sample_pool_tx 1), Ev_tx 0 (sample_pool_tx 1), Ev_tx 0 (sample_pool_tx 2), Ev_txs 5 [1] 100 (), Ev_delete 1]"
  let ?d = "Dispatcher_new sample_pool 10 7 1 3 True [] []"
  have P: "pool_ok sample_pool" "tp_len sample_pool (tp_new sample_pool 10) = 0"
    by (auto simp: pool_ok_def sample_pool_def split: if_splits)
  obtain d' out where run: "dispatch_run sample_pool ?es ?d = (d', out)" by fastforce
  have a: "length (accepted sample_pool ?es ?d) = 2" "length (ds_txs_pool (fst (dispatch_run sample_pool ?es ?d))) = 1"
    by (simp_all add: Dispatcher_new_def read_tx_from_wal_def wal_read_def update_capacity_def sample_pool_def sample_pool_tx_def
        dispatcher_defs Let_def)
  have asked: "concat (map asked ?es) = [[1], [1], [2]]" by (simp add: sample_pool_tx_def)
  have u: "map pt_un_tx xs = [(), ()]" if "length xs = 2" for xs :: "unit PoolTx list"
    using that by (auto simp: numeral_2_eq_2 length_Suc_conv)
  have len: "tp_len sample_pool (ds_txs_pool d') = 1" using a(2) run by (simp add: sample_pool_def)
  show ?thesis
    using dispatcher_accounts [OF P refl run] asked u [OF a(1)] len run by (simp add: Let_def)
qed

section \<open>Frames\<close>

text \<open>C39: How messages are framed and read. A key of 1 to 255 bytes with a body that fits is read back, and the
  bytes after its frame are left. In general the length of the key is kept modulo 256, so the key of a longer
  one is cut and the rest of it is read as part of the body; a frame with an empty or a cut key that is no text is
  dropped; and a frame of \<open>2^32\<close> bytes or more stops the stream. A part of a frame is left for
  later, and the frame without a message that keeps a connection alive is dropped.\<close>

theorem frames_exact:
  assumes "1 + length key + length body < 2 ^ 61"
  shows "pubsub_message_to_network_message buf (Some (key, body)) = Ok (buf @ frame_of key body) \<and>
    (1 \<le> length key \<and> length key \<le> 255 \<and> utf8 key \<and> 1 + length key + length body < 2 ^ 32 \<longrightarrow>
      network_message_to_pubsub_message (frame_of key body @ rest) = Ok (Some (key, body), rest)) \<and>
    network_message_to_pubsub_message (frame_of key body @ rest) =
      (if 2 ^ 32 \<le> 1 + length key + length body then Ok (None, frame_of key body @ rest)
       else let k = length key mod 256 in
         if k = 0 \<or> \<not> utf8 (take k key) then Ok (None, rest) else Ok (Some (take k key, drop k key @ body), rest)) \<and>
    (\<forall>p. strict_prefix p (frame_of key body) \<longrightarrow> network_message_to_pubsub_message p = Ok (None, p)) \<and>
    pubsub_message_to_network_message buf None = Ok (buf @ write_u64 NETMSG_START) \<and>
    network_message_to_pubsub_message (write_u64 NETMSG_START @ rest) = Ok (None, rest)"
proof (intro conjI impI allI)
  show "pubsub_message_to_network_message buf None = Ok (buf @ write_u64 NETMSG_START)"
    by (simp add: pubsub_message_to_network_message_def opt_bytes_extend_def)
  assume "1 \<le> length key \<and> length key \<le> 255 \<and> utf8 key \<and> 1 + length key + length body < 2 ^ 32"
  then show "network_message_to_pubsub_message (frame_of key body @ rest) = Ok (Some (key, body), rest)"
    using decode_frame [OF assms, of rest] by (auto simp: Let_def)
qed (rule encode_frame [OF assms] decode_frame [OF assms] decode_prefix [OF assms] decode_keepalive; assumption?)+

theorem frames_exact_witness:
  "network_message_to_pubsub_message (frame_of [110, 101, 116] [1, 3, 5] @ [7]) = Ok (Some ([110, 101, 116], [1, 3, 5]), [7])"
  using frames_exact [of "[110, 101, 116]" "[1, 3, 5]" "[]" "[7]"] by simp

section \<open>Synchronisation\<close>




end
