(* ===== verification/Spec2Isabelle.thy ===== *)
theory Spec2Isabelle
  imports EVM_Properties State_Properties Executive_Properties Codec_Properties Block_Properties Service_Properties
begin

text \<open>
  Verification of CITA: the execution core, and the authentication and network services.

  CITA is a blockchain node made of services that talk over a message queue. The network and
  authentication services bring in transactions, a consensus service (not part of the sources) orders
  them into proposals, the executor runs a block of transactions against the state of the accounts,
  and the chain service stores the blocks. This development models the executor
  (\<^verbatim>\<open>src/cita-executor/core/src\<close>) from the block down to the single instruction of the virtual machine,
  with the data types of \<^verbatim>\<open>src/cita-chain/types/src\<close> that it works on and their encodings, and the handlers of
  the authentication service (\<^verbatim>\<open>src/cita-auth/src\<close>) and of the network service (\<^verbatim>\<open>src/cita-network/src\<close>).

  \<^bold>\<open>How the code is modelled.\<close> A struct is a record, an enum a datatype, an integer of fixed width a word
  of that width, \<open>usize\<close> a natural number below \<open>2^64\<close> where the code may overflow. A result is
  \<open>('e, 'a) res\<close> with the values \<open>Ok\<close>, \<open>Err\<close>, \<open>Panic\<close> (a panic of Rust, such as an arithmetic
  overflow of \<open>U256\<close> or an \<open>expect\<close>) and \<open>Diverge\<close> (no fuel left). Code that changes a state and may
  fail is in the monad \<open>sm\<close> of State\_Error, with the predicate \<open>wp\<close> and the collection \<open>wp_rules\<close> to
  reason about it. Code of other crates is a parameter: the record \<open>Libs\<close> (hash, trie, key-value
  database, LRU cache, bloom filter), the record \<open>Rlp\<close> of the RLP library, \<open>crypto\<close>, \<open>header_libs\<close> and
  \<open>Env\<close> (built-in and native contracts, the scan for jump destinations). What is asked of them is
  named: \<open>lru_ok\<close>, \<open>db_ok\<close>, \<open>hashdb_local\<close>, \<open>rlp_ok\<close>, \<open>crypto_ok\<close>, \<open>bloom_ok\<close>, \<open>header_libs_ok\<close>,
  \<open>env_ok\<close>. Sample\_Node and Sample\_Items are concrete libraries that satisfy them, on which every
  theorem with hypotheses has an instance. The scan for jump destinations is a parameter \<open>env_jumps\<close> of
  the frames although it is modelled in EVM\_Jumps: the frames share its cache between threads, and
  every theorem holds for whatever the scan returns. A frame that the code runs in a thread of its own,
  for the sake of the size of the stack, is run in place, since the caller waits for it.

  \<^bold>\<open>The virtual machine\<close> (\<^verbatim>\<open>evm/\<close>). EVM\_Instructions is the table of \<^verbatim>\<open>instructions.rs\<close>, EVM\_Schedule
  that of \<^verbatim>\<open>schedule.rs\<close>, EVM\_Cost the two cost types of \<^verbatim>\<open>evm.rs\<close>, EVM\_Stack and EVM\_Memory those of
  \<^verbatim>\<open>interpreter/stack.rs\<close> and \<^verbatim>\<open>memory.rs\<close>, EVM\_Ext the trait of \<^verbatim>\<open>ext.rs\<close> as a record of operations,
  EVM\_Gasometer \<^verbatim>\<open>interpreter/gasometer.rs\<close>, EVM\_Jumps \<^verbatim>\<open>shared_cache.rs\<close>, EVM\_Arith the arithmetic
  instructions and EVM\_Interpreter the rest of \<^verbatim>\<open>interpreter/mod.rs\<close> with \<^verbatim>\<open>factory.rs\<close>. EVM\_Frame, EVM\_Calls
  and EVM\_Safety prove the type invariant of the machine for every instruction, once for both cost
  types and against the locale \<open>ext_contract\<close> of the externalities; the measure of the loop is the gas, so
  the loop ends within it. EVM\_Properties holds the exactness of the arithmetic, of the memory, of the
  jumps and of the cost types.

  \<^bold>\<open>The state\<close> (\<^verbatim>\<open>account_db.rs\<close>, \<^verbatim>\<open>state/\<close>). Account\_DB, State\_Account and Account\_State follow the account
  database, \<^verbatim>\<open>state/account.rs\<close> and \<^verbatim>\<open>state/mod.rs\<close>. State\_Refinement gives the specification: a view of
  every address and a stack of views for the checkpoints; State\_Operations that each operation and each
  sequence of operations implements it; State\_Safety that the operations return on a good state and
  what they do to the nonces (\<open>peak\<close>). State\_Properties holds the theorems.

  \<^bold>\<open>Transactions\<close> (\<^verbatim>\<open>trace/\<close>, \<^verbatim>\<open>substate.rs\<close>, \<^verbatim>\<open>externalities.rs\<close>, \<^verbatim>\<open>executive.rs\<close>). Trace has both
  tracers, Externalities the substate and the externalities, Executive the calls, the creates and the
  transactions. A frame calls the next one, so \<open>executive\<close> has the number of levels as fuel: the code
  stops at depth 1024, and 1025 levels are enough, which is proved and not assumed. Executive\_Safety
  closes the circle between the frames and the locale \<open>ext_contract\<close>, Transaction\_Safety takes it to
  \<open>State_apply\<close>. Executive\_Properties holds the theorems.

  \<^bold>\<open>Data and encodings\<close> (\<^verbatim>\<open>cita-chain/types\<close>, \<^verbatim>\<open>trace/types\<close>, \<^verbatim>\<open>header.rs\<close>). Rlp is the interface of the RLP library
  and the locale \<open>codec\<close> of an encoder with its decoder, interpreted on every pair of the model:
  Transactions, Receipts, Trace\_Codec, Headers and Blocks. Trace\_Codec reads the nested trace with the
  depth of nesting as fuel. Filters has the log and trace filters with their bloom filters.
  Codec\_Properties holds the theorems.

  \<^bold>\<open>Blocks\<close> (\<^verbatim>\<open>libexecutor/block.rs\<close>). Blocks has the block and its execution: the loop over the transactions,
  the quotas of the accounts, the receipts and the closing of the block. Block\_Safety shows that a block
  returns, its gas and its quotas; Block\_Properties holds the theorems.

  \<^bold>\<open>Authentication\<close> (\<^verbatim>\<open>cita-auth/src\<close>). Rust\_Collections has the operations on ranges, vectors and ordered maps
  that the services use. Auth\_Verifier follows \<^verbatim>\<open>verifier.rs\<close>: the window of the hashes of the last blocks, with the
  invariant that it holds exactly the blocks of the chain in the window. Auth\_Handler follows \<^verbatim>\<open>handler.rs\<close>, with
  each handler returning what it sends; Auth\_Service puts the handlers together as the threads of \<^verbatim>\<open>main.rs\<close>
  do, once with each handler in one step (\<open>auth_run\<close>) and once in the steps that the locks allow (\<open>thread_step\<close>).
  Auth\_Dispatcher follows \<^verbatim>\<open>dispatcher.rs\<close> and \<^verbatim>\<open>txwal.rs\<close>; the pool of transactions and the database of the log
  are parameters, of which \<open>pool_ok\<close> asks that a refused transaction leaves the length of the pool.

  \<^bold>\<open>Network\<close> (\<^verbatim>\<open>cita-network/src\<close>). Network\_Protocol follows the framing of \<^verbatim>\<open>citaprotocol.rs\<close>, Network\_Peers
  the list of peers of \<^verbatim>\<open>connection.rs\<close> and the routing of \<^verbatim>\<open>network.rs\<close>, and Network\_Sync the synchronizer of
  \<^verbatim>\<open>synchronizer.rs\<close>, whose states are those of \<open>sync_run\<close>: any messages, with any peers, clock and choices.
  Service\_Properties holds the theorems about both services.

  \<^bold>\<open>Bounds.\<close> The theorems about gas ask for gas limits below \<open>2^64\<close>, products of gas and price below \<open>2^256\<close>
  and counters below \<open>2^128\<close>: above them the code panics or counts wrongly, as the findings say.

  \<^bold>\<open>Not modelled.\<close> The message queue, sockets, HTTP and the starting of threads, the block store
  in RocksDB, the system contracts, which are read through ABI decoders of other crates, the native example
  contracts, the JIT, the bodies of the built-in cryptographic contracts, debug output, and the protobuf
  forms other than those of transactions, which copy field by field.
\<close>

end
